theory Spec2Isabelle
  imports Main "HOL-Library.Signed_Division"
begin

chapter \<open>The model of titlebot\<close>

text \<open>
  The bot watches a chat stream for URLs, fetches each linked page (or, for a Bluesky
  post, the post record) and answers with a notice.  This theory embeds the URL
  resolution code of \<^verbatim>\<open>titlebot.go\<close> in HOL and proves properties of it.  The first
  chapter holds the model, function by function, the second the properties.

  Code outside the repository (the Go standard library, the IRC library, the network,
  the clock) is not modelled: pure library functions are fields of a record \<open>lib\<close>,
  the answers of the network and the clock for one pipeline are fields of a record
  \<open>world\<close>, and every theorem holds for all of them unless it says otherwise.  The
  one exception is package \<^verbatim>\<open>regexp\<close>: the three patterns of the program are
  written as syntax trees and run by a backtracking matcher with the leftmost-first
  semantics that package \<^verbatim>\<open>regexp\<close> documents.
\<close>

section \<open>Byte strings\<close>

text \<open>
  A Go \<^verbatim>\<open>string\<close> is a sequence of bytes; it is modelled as a \<^typ>\<open>string\<close>
  (a list of 8-bit characters).  The two helpers of package \<^verbatim>\<open>strings\<close> that
  \<^verbatim>\<open>domainMatch\<close> uses are written out as the library defines them:

  \<^verbatim>\<open>
  func HasSuffix(s, suffix string) bool {
      return len(s) >= len(suffix) && s[len(s)-len(suffix):] == suffix }
  func TrimSuffix(s, suffix string) string {
      if HasSuffix(s, suffix) { return s[:len(s)-len(suffix)] }
      return s }
  \<close>
\<close>

definition HasSuffix :: "string \<Rightarrow> string \<Rightarrow> bool" where
  "HasSuffix s suffix \<longleftrightarrow>
     length s \<ge> length suffix \<and> drop (length s - length suffix) s = suffix"

definition TrimSuffix :: "string \<Rightarrow> string \<Rightarrow> string" where
  "TrimSuffix s suffix =
     (if HasSuffix s suffix then take (length s - length suffix) s else s)"

section \<open>Constants\<close>

definition trustedReadLimit :: int where
  "trustedReadLimit = 1024 * 1024"

definition genericTitleReadLimit :: int where
  "genericTitleReadLimit = 1024 * 64"

definition titleCharLimit :: int where
  "titleCharLimit = 400"

definition maxUrlsPerMessage :: nat where
  "maxUrlsPerMessage = 4"

definition concurrencyLimit :: nat where
  "concurrencyLimit = 128"

definition IRCv3TimestampFormat :: string where
  "IRCv3TimestampFormat = ''2006-01-02T15:04:05.000Z''"

definition replyTagName :: string where
  "replyTagName = ''+draft/reply''"

definition blueskyAPIBase :: string where
  "blueskyAPIBase = ''https://bsky.social/xrpc''"

section \<open>Fetch policy: domain matching\<close>

text \<open>
  \<^verbatim>\<open>
  func domainMatch(host, domain string) bool {
      trimmed := strings.TrimSuffix(host, domain)
      return host != trimmed && (trimmed == "" || strings.HasSuffix(trimmed, "."))
  }
  \<close>
\<close>

definition domainMatch :: "string \<Rightarrow> string \<Rightarrow> bool" where
  "domainMatch host domain =
     (let trimmed = TrimSuffix host domain
      in host \<noteq> trimmed \<and> (trimmed = '''' \<or> HasSuffix trimmed ''.''))"

definition garbageJSDomains :: "string list" where
  "garbageJSDomains =
     [''amazon.com'', ''amazon.ca'', ''amzn.to'', ''imdb.com'', ''google.com'',
      ''goo.gl'', ''github.com'', ''youtube.com'', ''youtu.be'']"

text \<open>The loop of \<^verbatim>\<open>isGarbageJSDomain\<close> returns at the first matching domain.\<close>

fun isGarbageJSDomain_loop :: "string \<Rightarrow> string list \<Rightarrow> bool" where
  "isGarbageJSDomain_loop host [] = False"
| "isGarbageJSDomain_loop host (domain # rest) =
     (if domainMatch host domain then True else isGarbageJSDomain_loop host rest)"

definition isGarbageJSDomain :: "string \<Rightarrow> bool" where
  "isGarbageJSDomain host = isGarbageJSDomain_loop host garbageJSDomains"

section \<open>Durations and the time display\<close>

text \<open>
  A \<^verbatim>\<open>time.Duration\<close> is a signed 64-bit count of nanoseconds and a
  \<^verbatim>\<open>time.Time\<close> an instant; the instant is modelled as its count of nanoseconds
  since the Unix epoch.  Both are integers here; \<open>Sub\<close> saturates at the ends of the
  64-bit range as \<^verbatim>\<open>Time.Sub\<close> does, so every duration the program computes
  lies in that range.  No other arithmetic of the program can leave it: the only
  operations on a duration are the quotient and the remainder by a positive unit.
\<close>

type_synonym Duration = int
type_synonym Time = int

definition Millisecond :: Duration where
  "Millisecond = 1000000"

definition Second :: Duration where
  "Second = 1000 * Millisecond"

definition Minute :: Duration where
  "Minute = 60 * Second"

definition Hour :: Duration where
  "Hour = 60 * Minute"

definition minDuration :: Duration where
  "minDuration = - (2 ^ 63)"

definition maxDuration :: Duration where
  "maxDuration = 2 ^ 63 - 1"

definition Sub :: "Time \<Rightarrow> Time \<Rightarrow> Duration" where
  "Sub t u =
     (let d = t - u
      in if minDuration \<le> d \<and> d \<le> maxDuration then d
         else if t < u then minDuration
         else maxDuration)"

text \<open>The verb \<^verbatim>\<open>%d\<close> of \<^verbatim>\<open>fmt\<close>: a decimal numeral, with a sign when negative.\<close>

fun digits :: "nat \<Rightarrow> string" where
  "digits n =
     (if n < 10 then [''0123456789'' ! n]
      else digits (n div 10) @ [''0123456789'' ! (n mod 10)])"

definition fmt_d :: "int \<Rightarrow> string" where
  "fmt_d k = (if k < 0 then CHR ''-'' # digits (nat (- k)) else digits (nat k))"

text \<open>
  \<^verbatim>\<open>
  var humanDurations = []struct{ dur time.Duration; name string }{
      {dur: time.Hour * 24 * 365, name: "y"}, {dur: time.Hour * 24, name: "d"},
      {dur: time.Hour, name: "h"}, {dur: time.Minute, name: "m"},
      {dur: time.Second, name: "s"}, {dur: time.Millisecond, name: "ms"} }

  func humanReadableDuration(d time.Duration) string {
      var out strings.Builder
      found := -1
      for i, up := range humanDurations {
          if found != -1 && i > found+1 { break }
          if d > up.dur {
              count := d / up.dur
              fmt.Fprintf(&out, "%d%s", count, up.name)
              if found == -1 { found = i }
              d = d % up.dur
          }
      }
      return out.String()
  }
  \<close>
  The loop carries the index \<open>i\<close>, the rest of the table, \<open>found\<close>, \<open>d\<close> and the
  text written so far.  Go's \<^verbatim>\<open>/\<close> and \<^verbatim>\<open>%\<close> truncate towards zero: they are
  \<open>sdiv\<close> and \<open>smod\<close>.
\<close>

definition humanDurations :: "(Duration \<times> string) list" where
  "humanDurations =
     [(Hour * 24 * 365, ''y''),
      (Hour * 24, ''d''),
      (Hour, ''h''),
      (Minute, ''m''),
      (Second, ''s''),
      (Millisecond, ''ms'')]"

fun humanReadableDuration_loop ::
  "int \<Rightarrow> (Duration \<times> string) list \<Rightarrow> int \<Rightarrow> Duration \<Rightarrow> string \<Rightarrow> string" where
  "humanReadableDuration_loop i [] found d out = out"
| "humanReadableDuration_loop i (up # rest) found d out =
     (if found \<noteq> - 1 \<and> i > found + 1 then out
      else if d > fst up then
        humanReadableDuration_loop (i + 1) rest (if found = - 1 then i else found)
          (d smod fst up) (out @ fmt_d (d sdiv fst up) @ snd up)
      else humanReadableDuration_loop (i + 1) rest found d out)"

definition humanReadableDuration :: "Duration \<Rightarrow> string" where
  "humanReadableDuration d = humanReadableDuration_loop 0 humanDurations (- 1) d ''''"

text \<open>
  \<^verbatim>\<open>
  func displayTwitterTime(then time.Time) string {
      elapsed := time.Since(then)
      if elapsed > 7*24*time.Hour {
          return then.Format("2006-01-02")
      } else {
          return humanReadableDuration(elapsed) + " ago"
      }
  }
  \<close>
  \<^verbatim>\<open>time.Since(then)\<close> is \<^verbatim>\<open>time.Now().Sub(then)\<close>: the reading \<open>now\<close> of the
  clock is an argument, and so is the library's \<^verbatim>\<open>Time.Format\<close>.
\<close>

definition displayTwitterTime ::
  "(Time \<Rightarrow> string \<Rightarrow> string) \<Rightarrow> Time \<Rightarrow> Time \<Rightarrow> string" where
  "displayTwitterTime Format now then_t =
     (let elapsed = Sub now then_t
      in if elapsed > 7 * 24 * Hour then Format then_t ''2006-01-02''
         else humanReadableDuration elapsed @ '' ago'')"

text \<open>
  The rule the loop implements, written without the loop: the first unit of the table
  that the duration exceeds, with its count, and then the unit right after it in the
  table when what remains exceeds that one.
\<close>

definition unit_count :: "Duration \<Rightarrow> Duration \<times> string \<Rightarrow> string" where
  "unit_count d up = fmt_d (d sdiv fst up) @ snd up"

definition adjacent_units :: "(Duration \<times> string) list \<Rightarrow> Duration \<Rightarrow> string" where
  "adjacent_units tbl d =
     (case dropWhile (\<lambda>up. \<not> d > fst up) tbl of
        [] \<Rightarrow> ''''
      | up # rest \<Rightarrow>
          unit_count d up @
          (case rest of
             [] \<Rightarrow> ''''
           | up2 # _ \<Rightarrow>
               if d smod fst up > fst up2 then unit_count (d smod fst up) up2 else ''''))"

text \<open>
  The rule in the words of the specification, for comparison: the elapsed time is split
  into whole years, days, hours, minutes, seconds and milliseconds, and the two largest
  units with a non-zero count are shown.
\<close>

fun unit_counts :: "(Duration \<times> string) list \<Rightarrow> Duration \<Rightarrow> (int \<times> string) list" where
  "unit_counts [] d = []"
| "unit_counts (up # rest) d = (d div fst up, snd up) # unit_counts rest (d mod fst up)"

definition largest_two_nonzero_units :: "Duration \<Rightarrow> string" where
  "largest_two_nonzero_units d =
     concat (map (\<lambda>(n, name). fmt_d n @ name)
       (take 2 (filter (\<lambda>(n, name). n \<noteq> 0) (unit_counts humanDurations d))))"

section \<open>Regular expressions\<close>

text \<open>
  Package \<^verbatim>\<open>regexp\<close> promises the match that a backtracking search finds first
  (leftmost, and among the matches that start there the one preferred by the pattern:
  the left alternative before the right one, one more repetition before none for a
  greedy operator and the reverse for a lazy one).  The matcher below is that search,
  written in continuation-passing style for the operators the three patterns of the
  program use.

  The matcher reads bytes where the library reads UTF-8 encoded characters.  For the
  patterns of the program that is the same thing: every position at which a match can
  start or a repetition can stop holds an ASCII byte or the end of the text, the
  classes \<^verbatim>\<open>.\<close> and \<^verbatim>\<open>[^/]\<close> exclude one ASCII character only, and a character
  next to \<^verbatim>\<open>\b\<close> is a word character only when it is a single ASCII byte.  A folded
  literal (flag \<^verbatim>\<open>i\<close>) matches every character of its simple case-folding orbit;
  beyond the two cases of a letter these are U+017F for \<^verbatim>\<open>s\<close> and U+212A for
  \<^verbatim>\<open>k\<close>, written as their UTF-8 bytes.
\<close>

datatype cls =
    Dot           \<comment> \<open>\<^verbatim>\<open>.\<close> without flag \<^verbatim>\<open>s\<close>: anything but a line feed\<close>
  | DotS          \<comment> \<open>\<^verbatim>\<open>.\<close> with flag \<^verbatim>\<open>s\<close>: anything\<close>
  | PerlSpace     \<comment> \<open>\<^verbatim>\<open>\s\<close>: tab, line feed, form feed, carriage return, space\<close>
  | NotChar char  \<comment> \<open>\<^verbatim>\<open>[^c]\<close>\<close>

fun in_cls :: "cls \<Rightarrow> char \<Rightarrow> bool" where
  "in_cls Dot x = (x \<noteq> CHR 0x0A)"
| "in_cls DotS x = True"
| "in_cls PerlSpace x = (x \<in> set [CHR 0x09, CHR 0x0A, CHR 0x0C, CHR 0x0D, CHR '' ''])"
| "in_cls (NotChar c) x = (x \<noteq> c)"

datatype re =
    Lit bool string   \<comment> \<open>a literal text; the flag says whether case is folded\<close>
  | Class cls         \<comment> \<open>one character of a class\<close>
  | Star cls bool     \<comment> \<open>\<^verbatim>\<open>x*\<close> (greedy, flag true) or \<^verbatim>\<open>x*?\<close> (lazy) over a class\<close>
  | Quest re          \<comment> \<open>\<^verbatim>\<open>x?\<close>, greedy\<close>
  | Cat re re
  | Alt re re
  | Cap nat re        \<comment> \<open>a capturing group and its number\<close>
  | WordBoundary      \<comment> \<open>\<^verbatim>\<open>\b\<close>\<close>
  | EndText           \<comment> \<open>\<^verbatim>\<open>$\<close> without flag \<^verbatim>\<open>m\<close>\<close>

abbreviation Plus :: "cls \<Rightarrow> bool \<Rightarrow> re" where
  "Plus cl greedy \<equiv> Cat (Class cl) (Star cl greedy)"

definition isWordChar :: "char \<Rightarrow> bool" where
  "isWordChar x \<longleftrightarrow>
     x \<in> set (''ABCDEFGHIJKLMNOPQRSTUVWXYZ'' @ ''abcdefghijklmnopqrstuvwxyz'' @ ''0123456789_'')"

fun wordBefore :: "char option \<Rightarrow> bool" where
  "wordBefore None = False"
| "wordBefore (Some x) = isWordChar x"

fun wordAfter :: "string \<Rightarrow> bool" where
  "wordAfter [] = False"
| "wordAfter (x # xs) = isWordChar x"

definition lower_upper :: "(char \<times> char) list" where
  "lower_upper = zip ''abcdefghijklmnopqrstuvwxyz'' ''ABCDEFGHIJKLMNOPQRSTUVWXYZ''"

text \<open>The byte sequences that a character of a folded literal matches.\<close>

definition fold_alts :: "char \<Rightarrow> string list" where
  "fold_alts c =
     (case map_of lower_upper c of
        Some u \<Rightarrow>
          [[c], [u]]
          @ (if c = CHR ''s'' then [[CHR 0xC5, CHR 0xBF]]
             else if c = CHR ''k'' then [[CHR 0xE2, CHR 0x84, CHR 0xAA]]
             else [])
      | None \<Rightarrow>
         (case map_of (map (\<lambda>(l, u). (u, l)) lower_upper) c of
            Some l \<Rightarrow>
              [[c], [l]]
              @ (if c = CHR ''S'' then [[CHR 0xC5, CHR 0xBF]]
                 else if c = CHR ''K'' then [[CHR 0xE2, CHR 0x84, CHR 0xAA]]
                 else [])
          | None \<Rightarrow> [[c]]))"

fun strip_prefix :: "string \<Rightarrow> string \<Rightarrow> string option" where
  "strip_prefix [] inp = Some inp"
| "strip_prefix (a # as) [] = None"
| "strip_prefix (a # as) (x # xs) = (if a = x then strip_prefix as xs else None)"

fun first_alt :: "string list \<Rightarrow> string \<Rightarrow> (string \<times> string) option" where
  "first_alt [] inp = None"
| "first_alt (a # as) inp =
     (case strip_prefix a inp of Some r \<Rightarrow> Some (a, r) | None \<Rightarrow> first_alt as inp)"

text \<open>
  A position in the text: the offset, the byte before it (none at the start of the
  text) and the text from the offset on.  The capture slots are those of the library:
  slot \<open>2n\<close> is the offset where group \<open>n\<close> starts, slot \<open>2n + 1\<close> the offset where it
  ends, and group \<open>0\<close> is the whole match.
\<close>

type_synonym pos = "nat \<times> char option \<times> string"
type_synonym caps = "nat \<Rightarrow> nat option"

fun advance :: "nat \<Rightarrow> pos \<Rightarrow> pos" where
  "advance 0 p = p"
| "advance (Suc n) (i, prev, []) = (i, prev, [])"
| "advance (Suc n) (i, prev, x # xs) = advance n (i + 1, Some x, xs)"

fun match_lit :: "bool \<Rightarrow> string \<Rightarrow> pos \<Rightarrow> pos option" where
  "match_lit fc [] p = Some p"
| "match_lit fc (c # cs) (i, prev, inp) =
     (case first_alt (if fc then fold_alts c else [[c]]) inp of
        None \<Rightarrow> None
      | Some (a, r) \<Rightarrow> match_lit fc cs (i + length a, Some (last a), r))"

function m :: "re \<Rightarrow> (pos \<times> caps \<Rightarrow> caps option) \<Rightarrow> pos \<times> caps \<Rightarrow> caps option" where
  "m (Lit fc s) k (p, c) =
     (case match_lit fc s p of None \<Rightarrow> None | Some p' \<Rightarrow> k (p', c))"
| "m (Class cl) k ((i, prev, []), c) = None"
| "m (Class cl) k ((i, prev, x # xs), c) =
     (if in_cls cl x then k ((i + 1, Some x, xs), c) else None)"
| "m (Star cl greedy) k ((i, prev, []), c) = k ((i, prev, []), c)"
| "m (Star cl greedy) k ((i, prev, x # xs), c) =
     (if in_cls cl x then
        (if greedy then
           (case m (Star cl greedy) k ((i + 1, Some x, xs), c) of
              Some r \<Rightarrow> Some r
            | None \<Rightarrow> k ((i, prev, x # xs), c))
         else
           (case k ((i, prev, x # xs), c) of
              Some r \<Rightarrow> Some r
            | None \<Rightarrow> m (Star cl greedy) k ((i + 1, Some x, xs), c)))
      else k ((i, prev, x # xs), c))"
| "m (Quest a) k pc = (case m a k pc of Some r \<Rightarrow> Some r | None \<Rightarrow> k pc)"
| "m (Cat a b) k pc = m a (\<lambda>pc'. m b k pc') pc"
| "m (Alt a b) k pc = (case m a k pc of Some r \<Rightarrow> Some r | None \<Rightarrow> m b k pc)"
| "m (Cap n a) k ((i, prev, inp), c) =
     m a (\<lambda>((i', prev', inp'), c'). k ((i', prev', inp'), c'(2 * n + 1 \<mapsto> i')))
       ((i, prev, inp), c(2 * n \<mapsto> i))"
| "m WordBoundary k ((i, prev, inp), c) =
     (if wordBefore prev \<noteq> wordAfter inp then k ((i, prev, inp), c) else None)"
| "m EndText k ((i, prev, inp), c) = (if inp = [] then k ((i, prev, inp), c) else None)"
  by pat_completeness auto
termination
  by (relation "measures [\<lambda>(r, k, (i, prev, inp), c). size r,
                          \<lambda>(r, k, (i, prev, inp), c). length inp]") auto

text \<open>A match that starts at the position, with the slots of group \<open>0\<close> set around it.\<close>

definition match_here :: "re \<Rightarrow> pos \<Rightarrow> caps option" where
  "match_here r p = m (Cap 0 r) (\<lambda>(p', c). Some c) (p, Map.empty)"

text \<open>The leftmost match at or after the position.\<close>

fun search :: "re \<Rightarrow> pos \<Rightarrow> caps option" where
  "search r (i, prev, []) = match_here r (i, prev, [])"
| "search r (i, prev, x # xs) =
     (case match_here r (i, prev, x # xs) of
        Some c \<Rightarrow> Some c
      | None \<Rightarrow> search r (i + 1, Some x, xs))"

fun numSubexp :: "re \<Rightarrow> nat" where
  "numSubexp (Cap n a) = max n (numSubexp a)"
| "numSubexp (Quest a) = numSubexp a"
| "numSubexp (Cat a b) = max (numSubexp a) (numSubexp b)"
| "numSubexp (Alt a b) = max (numSubexp a) (numSubexp b)"
| "numSubexp _ = 0"

text \<open>The text of a group: \<^verbatim>\<open>s[a:b]\<close> for its two slots, empty when the group took no part.\<close>

definition group :: "string \<Rightarrow> caps \<Rightarrow> nat \<Rightarrow> string" where
  "group s c n =
     (case (c (2 * n), c (2 * n + 1)) of
        (Some a, Some b) \<Rightarrow> take (b - a) (drop a s)
      | _ \<Rightarrow> '''')"

definition submatches :: "re \<Rightarrow> string \<Rightarrow> caps \<Rightarrow> string list" where
  "submatches r s c = map (group s c) [0..<numSubexp r + 1]"

text \<open>
  \<^verbatim>\<open>FindStringSubmatch\<close> and \<^verbatim>\<open>FindSubmatch\<close>: the whole match and the groups of the
  leftmost match, \<^verbatim>\<open>nil\<close> (the empty list) when there is none.
\<close>

definition FindStringSubmatch :: "re \<Rightarrow> string \<Rightarrow> string list" where
  "FindStringSubmatch r s =
     (case search r (0, None, s) of None \<Rightarrow> [] | Some c \<Rightarrow> submatches r s c)"

text \<open>
  The loop of \<^verbatim>\<open>allMatches\<close> in package \<^verbatim>\<open>regexp\<close>: the next search starts where
  the last match ended.  After an empty match the library moves on by one character
  (one byte here) and drops an empty match that touches the match before it.
\<close>

function allMatches :: "re \<Rightarrow> pos \<Rightarrow> int \<Rightarrow> caps list" where
  "allMatches r (i, prev, inp) prevMatchEnd =
     (case search r (i, prev, inp) of
        None \<Rightarrow> []
      | Some c \<Rightarrow>
          (case (c 0, c 1) of
             (Some s, Some e) \<Rightarrow>
               if e \<le> i \<or> inp = [] then
                 (if int s = prevMatchEnd then [] else [c])
                 @ (case inp of
                      [] \<Rightarrow> []
                    | x # xs \<Rightarrow> allMatches r (i + 1, Some x, xs) (int e))
               else c # allMatches r (advance (e - i) (i, prev, inp)) (int e)
           | _ \<Rightarrow> []))"
  by pat_completeness auto

lemma advance_rest: "snd (snd (advance n (i, prev, inp))) = drop n inp"
proof (induction n arbitrary: i prev inp)
  case 0
  show ?case by simp
next
  case (Suc n)
  show ?case by (cases inp) (simp_all add: Suc.IH)
qed

termination allMatches
proof (relation "measure (\<lambda>(r, p, e). length (snd (snd p)))")
  show "wf (measure (\<lambda>(r, p, e). length (snd (snd p))))"
    by simp
next
  fix r :: re and i :: nat and prev :: "char option" and inp :: string
    and prevMatchEnd :: int and x2 x y x2a x2b x21 x22
  assume "inp = x21 # x22"
  then show "((r, (i + 1, Some x21, x22), int x2b), r, (i, prev, inp), prevMatchEnd)
      \<in> measure (\<lambda>(r, p, e). length (snd (snd p)))"
    by simp
next
  fix r :: re and i :: nat and prev :: "char option" and inp :: string
    and prevMatchEnd :: int and x2 x y x2a x2b
  assume "\<not> (x2b \<le> i \<or> inp = [])"
  then show "((r, advance (x2b - i) (i, prev, inp), int x2b), r, (i, prev, inp), prevMatchEnd)
      \<in> measure (\<lambda>(r, p, e). length (snd (snd p)))"
    by (cases inp) (auto simp: advance_rest)
qed

text \<open>
  \<^verbatim>\<open>FindAllStringSubmatch(s, -1)\<close>: the groups of every match, in order; the empty list
  stands for \<^verbatim>\<open>nil\<close>.
\<close>

definition FindAllStringSubmatch :: "re \<Rightarrow> string \<Rightarrow> string list list" where
  "FindAllStringSubmatch r s = map (submatches r s) (allMatches r (0, None, s) (- 1))"

subsection \<open>The patterns of the program\<close>

text \<open>\<^verbatim>\<open>urlRe = regexp.MustCompile(`\b(?i)(https?://.*?)(\s|$)`)\<close>\<close>

definition urlRe :: re where
  "urlRe =
     Cat WordBoundary
      (Cat (Cap 1 (Cat (Lit True ''http'')
                    (Cat (Quest (Lit True ''s''))
                      (Cat (Lit True ''://'') (Star Dot False)))))
           (Cap 2 (Alt (Class PerlSpace) EndText)))"

text \<open>\<^verbatim>\<open>blueskyRe = regexp.MustCompile(`https://bsky\.app/profile/([^/]+)/post/([^/]+)`)\<close>\<close>

definition blueskyRe :: re where
  "blueskyRe =
     Cat (Lit False ''https://bsky.app/profile/'')
      (Cat (Cap 1 (Plus (NotChar CHR ''/'') True))
        (Cat (Lit False ''/post/'')
             (Cap 2 (Plus (NotChar CHR ''/'') True))))"

text \<open>\<^verbatim>\<open>genericTitleRe = regexp.MustCompile(`(?is)<\s*title\b.*?>(.*?)<`)\<close>\<close>

definition genericTitleRe :: re where
  "genericTitleRe =
     Cat (Lit True ''<'')
      (Cat (Star PerlSpace True)
        (Cat (Lit True ''title'')
          (Cat WordBoundary
            (Cat (Star DotS False)
              (Cat (Lit True ''>'')
                (Cat (Cap 1 (Star DotS False))
                     (Lit True ''<'')))))))"

section \<open>Text scanner and platform classifier\<close>

text \<open>
  \<^verbatim>\<open>
  func findURL(str string) (urls []string) {
      matches := urlRe.FindAllStringSubmatch(str, -1)
      if matches == nil { return }
      urls = make([]string, 0, len(matches))
      for _, submatch := range matches {
          if len(submatch) > 2 { urls = append(urls, submatch[1]) }
      }
      return
  }
  \<close>
\<close>

fun findURL_loop :: "string list list \<Rightarrow> string list \<Rightarrow> string list" where
  "findURL_loop [] urls = urls"
| "findURL_loop (submatch # rest) urls =
     findURL_loop rest (if length submatch > 2 then urls @ [submatch ! 1] else urls)"

definition findURL :: "string \<Rightarrow> string list" where
  "findURL str =
     (let matches = FindAllStringSubmatch urlRe str
      in if matches = [] then [] else findURL_loop matches [])"

text \<open>
  \<^verbatim>\<open>
  func extractBlueskyData(url string) (handle, postid string) {
      matches := blueskyRe.FindStringSubmatch(url)
      if len(matches) == 3 { return matches[1], matches[2] }
      return
  }
  \<close>
\<close>

definition extractBlueskyData :: "string \<Rightarrow> string \<times> string" where
  "extractBlueskyData url =
     (let matches = FindStringSubmatch blueskyRe url
      in if length matches = 3 then (matches ! 1, matches ! 2) else ('''', ''''))"

section \<open>The environment\<close>

text \<open>
  An \<^verbatim>\<open>error\<close> value is either the sentinel \<^verbatim>\<open>io.ErrUnexpectedEOF\<close>, which
  \<^verbatim>\<open>titleGeneric\<close> compares against, or any other error with its message.  A function
  of the program either returns or panics with a value.
\<close>

datatype error = ErrUnexpectedEOF | Error string

datatype 'a outcome = Returned 'a | Panicked string

text \<open>
  A response body is a stream behind an \<^verbatim>\<open>io.Reader\<close>: the bytes it delivers, how it
  ends, at the end of the data (\<open>None\<close>, the reader's \<^verbatim>\<open>io.EOF\<close>) or with a read
  error, and whether the \<^verbatim>\<open>Read\<close> call that delivers the last byte reports that ending
  together with the bytes (\<open>True\<close>) or a following call reports it with no bytes
  (\<open>False\<close>); a reader is free to do either.  A stream without bytes reports its ending
  on the first call.
\<close>

type_synonym body_stream = "string \<times> error option \<times> bool"

record URL =
  Host :: string

record Request =
  Method :: string
  ReqURL :: string
  Header :: "(string \<times> string list) list"

record Response =
  StatusCode :: int
  Body :: body_stream

datatype http_result =
    Failed error       \<comment> \<open>the client returns an error\<close>
  | Responded Response \<comment> \<open>the client returns a response\<close>
  | Faulted string     \<comment> \<open>a run-time fault: the call panics with this value\<close>

text \<open>
  \<^verbatim>\<open>
  type BlueskyPostRecord struct {
      Text      string `json:"text"`
      CreatedAt string `json:"createdAt"`
  }
  \<close>
\<close>

record BlueskyPostRecord =
  Text :: string
  CreatedAt :: string

definition zero_BlueskyPostRecord :: BlueskyPostRecord where
  "zero_BlueskyPostRecord = \<lparr>Text = '''', CreatedAt = ''''\<rparr>"

text \<open>
  The library functions the resolvers call, in the order of their packages:
  \<^verbatim>\<open>html.UnescapeString\<close>, \<^verbatim>\<open>strings.TrimSpace\<close>, \<^verbatim>\<open>ircutils.SanitizeText\<close>,
  \<^verbatim>\<open>strings.ToLower\<close>, \<^verbatim>\<open>url.Parse\<close> (of the result only the field \<^verbatim>\<open>Host\<close> is
  read), \<^verbatim>\<open>net.SplitHostPort\<close>, \<^verbatim>\<open>http.NewRequest\<close>, \<^verbatim>\<open>json.Decoder.Decode\<close> into
  the two response types (of the results only \<^verbatim>\<open>Did\<close> and \<^verbatim>\<open>Value\<close> are read),
  \<^verbatim>\<open>time.Parse\<close> and \<^verbatim>\<open>Time.Format\<close>.
\<close>

record lib =
  UnescapeString :: "string \<Rightarrow> string"
  TrimSpace :: "string \<Rightarrow> string"
  SanitizeText :: "string \<Rightarrow> int \<Rightarrow> string"
  ToLower :: "string \<Rightarrow> string"
  url_Parse :: "string \<Rightarrow> error + URL"
  SplitHostPort :: "string \<Rightarrow> error + string \<times> string"
  NewRequest :: "string \<Rightarrow> string \<Rightarrow> error + Request"
  Decode_ResolveHandleResponse :: "body_stream \<Rightarrow> error + string"
  Decode_GetRecordResponse :: "body_stream \<Rightarrow> error + BlueskyPostRecord"
  time_Parse :: "string \<Rightarrow> string \<Rightarrow> error + Time"
  time_Format :: "Time \<Rightarrow> string \<Rightarrow> string"

text \<open>
  What the outside world answers during one pipeline: the HTTP client
  (\<^verbatim>\<open>httpClient.Get\<close>, \<^verbatim>\<open>httpClient.Do\<close>), the clock at the three places that read
  it (\<^verbatim>\<open>start := time.Now()\<close>, \<^verbatim>\<open>time.Since(then)\<close>, \<^verbatim>\<open>time.Since(start)\<close>) and
  \<^verbatim>\<open>debug.Stack()\<close>.
\<close>

record world =
  Get :: "string \<Rightarrow> http_result"
  Do :: "Request \<Rightarrow> http_result"
  now_start :: Time
  now_display :: Time
  now_done :: Time
  Stack :: string

text \<open>
  \<^verbatim>\<open>io.LimitedReader{R: resp.Body, N: n}\<close>, the stream seen through the limited
  reader:
  \<^verbatim>\<open>
  func (l *LimitedReader) Read(p []byte) (n int, err error) {
      if l.N <= 0 { return 0, EOF }
      if int64(len(p)) > l.N { p = p[0:l.N] }
      n, err = l.R.Read(p)
      l.N -= int64(n)
      return
  }
  \<close>
  Every call asks the body for at most the bytes that are left of \<open>n\<close> and hands on
  what the body returns, the bytes and the error.  A body shorter than \<open>n\<close> is seen
  whole, with its ending.  A body of exactly \<open>n\<close> bytes whose last bytes come together
  with the ending is seen whole with that ending too; when the ending would come with a
  later call, that call is not made: the limited reader reports the end of the data
  itself.  Of a longer body the first \<open>n\<close> bytes are seen and then the end of the data.
\<close>

definition LimitedReader :: "body_stream \<Rightarrow> int \<Rightarrow> body_stream" where
  "LimitedReader R N =
     (case R of (bytes, ending, together) \<Rightarrow>
        if int (length bytes) < N \<or> (int (length bytes) = N \<and> together \<and> bytes \<noteq> [])
        then (bytes, ending, together)
        else (take (nat N) bytes, None, False))"

text \<open>
  \<^verbatim>\<open>io.ReadAll\<close> reads until a call returns an error: it returns the bytes read and
  that error, \<^verbatim>\<open>nil\<close> when the error is \<^verbatim>\<open>io.EOF\<close>.
\<close>

definition ReadAll :: "body_stream \<Rightarrow> string \<times> error option" where
  "ReadAll R = (case R of (bytes, ending, together) \<Rightarrow> (bytes, ending))"

section \<open>The bot\<close>

text \<open>
  The semaphore is a buffered channel of empty structs: its capacity and the elements
  queued in it.  Of the embedded connection the bot uses the nickname, the debug
  flag, the logger and the two send calls; the log and the messages handed to the
  connection are kept as lists, oldest first.  A log entry is the format of the
  \<^verbatim>\<open>Printf\<close> call and its arguments.
\<close>

record chan =
  capacity :: nat
  queue :: "unit list"

datatype arg = S string | I int | D Duration | E "error option" | V string

type_synonym log_entry = "string \<times> arg list"

datatype message =
    Notice string string
  | SendWithTags "(string \<times> string) list" string "string list"

record Bot =
  Nick :: string
  Debug :: bool
  Owner :: string
  userAgent :: string
  semaphore :: chan
  Log :: "log_entry list"
  sent :: "message list"

text \<open>Of \<^verbatim>\<open>newBot\<close>: the fields set from the environment, and the empty semaphore.\<close>

definition newBot :: "string \<Rightarrow> bool \<Rightarrow> string \<Rightarrow> string \<Rightarrow> Bot" where
  "newBot nick debug owner ua =
     \<lparr>Nick = nick, Debug = debug, Owner = owner, userAgent = ua,
      semaphore = \<lparr>capacity = concurrencyLimit, queue = []\<rparr>,
      Log = [], sent = []\<rparr>"

definition Printf :: "Bot \<Rightarrow> string \<Rightarrow> arg list \<Rightarrow> Bot" where
  "Printf irc format args = irc\<lparr>Log := Log irc @ [(format, args)]\<rparr>"

subsection \<open>Admission controller\<close>

text \<open>
  \<^verbatim>\<open>
  func (b *Bot) tryAcquireSemaphore() bool {
      select {
      case b.semaphore <- empty{}: return true
      default: return false
      }
  }
  func (b *Bot) releaseSemaphore() { <-b.semaphore }
  \<close>
  A send in a \<^verbatim>\<open>select\<close> with a \<^verbatim>\<open>default\<close> case goes through when the buffer has
  room and is given up otherwise.  A receive takes the oldest element and blocks
  while the buffer is empty: the result \<open>None\<close> stands for a receive that waits.
\<close>

definition tryAcquireSemaphore :: "Bot \<Rightarrow> bool \<times> Bot" where
  "tryAcquireSemaphore b =
     (if length (queue (semaphore b)) < capacity (semaphore b)
      then (True, b\<lparr>semaphore := (semaphore b)\<lparr>queue := queue (semaphore b) @ [()]\<rparr>\<rparr>)
      else (False, b))"

definition releaseSemaphore :: "Bot \<Rightarrow> Bot option" where
  "releaseSemaphore b =
     (case queue (semaphore b) of
        [] \<Rightarrow> None
      | x # rest \<Rightarrow> Some (b\<lparr>semaphore := (semaphore b)\<lparr>queue := rest\<rparr>\<rparr>))"

text \<open>
  The semaphore is the one thing the pipelines share.  A run of the controller is a
  sequence of completed operations on it, from whichever pipelines they come; the run
  counts the successful acquires and the releases.
\<close>

datatype sem_op = TryAcquire | Release

fun sem_step :: "sem_op \<Rightarrow> nat \<times> nat \<times> Bot \<Rightarrow> (nat \<times> nat \<times> Bot) option" where
  "sem_step TryAcquire (acquired, released, b) =
     (case tryAcquireSemaphore b of
        (True, b') \<Rightarrow> Some (acquired + 1, released, b')
      | (False, b') \<Rightarrow> Some (acquired, released, b'))"
| "sem_step Release (acquired, released, b) =
     (case releaseSemaphore b of
        None \<Rightarrow> None
      | Some b' \<Rightarrow> Some (acquired, released + 1, b'))"

fun sem_run :: "sem_op list \<Rightarrow> nat \<times> nat \<times> Bot \<Rightarrow> (nat \<times> nat \<times> Bot) option" where
  "sem_run [] s = Some s"
| "sem_run (opn # ops) s =
     (case sem_step opn s of None \<Rightarrow> None | Some s' \<Rightarrow> sem_run ops s')"

subsection \<open>Logging and sending\<close>

text \<open>
  \<^verbatim>\<open>
  func (irc *Bot) checkErr(err error, message string) (fatal bool) {
      if err != nil {
          irc.Log.Printf("%s: %v", message, err)
          return true
      }
      return false
  }
  \<close>
\<close>

definition checkErr :: "Bot \<Rightarrow> error option \<Rightarrow> string \<Rightarrow> bool \<times> Bot" where
  "checkErr irc err message =
     (if err \<noteq> None then (True, Printf irc ''%s: %v'' [S message, E err])
      else (False, irc))"

text \<open>
  \<^verbatim>\<open>
  func (irc *Bot) sendReplyNotice(target, msgid, text string) {
      if msgid == "" {
          irc.Notice(target, text)
      } else {
          irc.SendWithTags(map[string]string{replyTagName: msgid}, "NOTICE", target, text)
      }
  }
  \<close>
\<close>

definition sendReplyNotice :: "Bot \<Rightarrow> string \<Rightarrow> string \<Rightarrow> string \<Rightarrow> Bot" where
  "sendReplyNotice irc target msgid text =
     (if msgid = '''' then irc\<lparr>sent := sent irc @ [Notice target text]\<rparr>
      else irc\<lparr>sent := sent irc
             @ [SendWithTags [(replyTagName, msgid)] ''NOTICE'' [target, text]]\<rparr>)"

text \<open>The message that \<^verbatim>\<open>sendReplyNotice\<close> hands to the connection.\<close>

definition reply :: "string \<Rightarrow> string \<Rightarrow> string \<Rightarrow> message" where
  "reply target msgid text =
     (if msgid = '''' then Notice target text
      else SendWithTags [(replyTagName, msgid)] ''NOTICE'' [target, text])"

section \<open>Fetch policy selector\<close>

text \<open>
  \<^verbatim>\<open>
  func (irc *Bot) analyzeURL(urlStr string) (byteLimit int, titleRe *regexp.Regexp, err error) {
      u, err := url.Parse(urlStr)
      if err != nil { return }
      host := u.Host
      if splitHost, _, err := net.SplitHostPort(host); err == nil { host = splitHost }
      hostLower := strings.ToLower(host)
      if isGarbageJSDomain(hostLower) {
          return trustedReadLimit, genericTitleRe, nil
      } else {
          return genericTitleReadLimit, genericTitleRe, nil
      }
  }
  \<close>
\<close>

definition analyzeURL :: "lib \<Rightarrow> string \<Rightarrow> error + int \<times> re" where
  "analyzeURL L urlStr =
     (case url_Parse L urlStr of
        Inl err \<Rightarrow> Inl err
      | Inr u \<Rightarrow>
          let host = (case SplitHostPort L (Host u) of
                        Inr (splitHost, port) \<Rightarrow> splitHost
                      | Inl err \<Rightarrow> Host u);
              hostLower = ToLower L host
          in if isGarbageJSDomain hostLower then Inr (trustedReadLimit, genericTitleRe)
             else Inr (genericTitleReadLimit, genericTitleRe))"

section \<open>Generic resolver\<close>

text \<open>
  \<^verbatim>\<open>
  func (irc *Bot) titleGeneric(target, msgid, url string) {
      byteLimit, titleRe, err := irc.analyzeURL(url)
      if irc.checkErr(err, "invalid URL") { return }
      req, err := http.NewRequest("GET", url, nil)
      if irc.checkErr(err, "NewRequest error in titleTwitter") { return }
      headers := map[string][]string{ "User-Agent": {irc.userAgent} }
      req.Header = headers
      resp, err := httpClient.Do(req)
      if irc.checkErr(err, "http error in titleGeneric") { return }
      defer resp.Body.Close()
      if resp.StatusCode != http.StatusOK {
          if irc.Debug { irc.Log.Printf("Can't title %s : HTTP code %d\n", url, resp.StatusCode) }
          return
      }
      br := io.LimitedReader{R: resp.Body, N: int64(byteLimit)}
      body, err := io.ReadAll(&br)
      // ErrUnexpectedEOF is OK if we didn't get the whole page
      if !(err == nil || err == io.ErrUnexpectedEOF) {
          irc.Log.Printf("couldn't read in titleGeneric: %v\n", err)
          return
      }
      success := false
      titleMatch := titleRe.FindSubmatch(body)
      if len(titleMatch) == 2 {
          title := string(titleMatch[1])
          title = html.UnescapeString(title)
          title = strings.TrimSpace(title)
          title = ircutils.SanitizeText(title, titleCharLimit)
          if len(title) != 0 {
              success = true
              irc.sendReplyNotice(target, msgid, title)
          }
      }
      if !success && irc.Debug { irc.Log.Printf("Can't title %s : title not found\n", url) }
  }
  \<close>
  A call of \<^verbatim>\<open>checkErr\<close> with an error logs it and makes the caller return; with
  \<^verbatim>\<open>nil\<close> it does nothing.
\<close>

definition titleGeneric ::
  "lib \<Rightarrow> world \<Rightarrow> string \<Rightarrow> string \<Rightarrow> string \<Rightarrow> Bot \<Rightarrow> unit outcome \<times> Bot" where
  "titleGeneric L w target msgid url irc =
     (case analyzeURL L url of
        Inl err \<Rightarrow> (Returned (), snd (checkErr irc (Some err) ''invalid URL''))
      | Inr (byteLimit, titleRe) \<Rightarrow>
         (case NewRequest L ''GET'' url of
            Inl err \<Rightarrow>
              (Returned (), snd (checkErr irc (Some err) ''NewRequest error in titleTwitter''))
          | Inr req \<Rightarrow>
             (case Do w (req\<lparr>Header := [(''User-Agent'', [userAgent irc])]\<rparr>) of
                Faulted v \<Rightarrow> (Panicked v, irc)
              | Failed err \<Rightarrow>
                  (Returned (), snd (checkErr irc (Some err) ''http error in titleGeneric''))
              | Responded resp \<Rightarrow>
                  if StatusCode resp \<noteq> 200 then
                    (Returned (),
                     if Debug irc
                     then Printf irc ''Can't title %s : HTTP code %d\<newline>''
                            [S url, I (StatusCode resp)]
                     else irc)
                  else
                    (case ReadAll (LimitedReader (Body resp) byteLimit) of
                       (body, err) \<Rightarrow>
                         if \<not> (err = None \<or> err = Some ErrUnexpectedEOF) then
                           (Returned (),
                            Printf irc ''couldn't read in titleGeneric: %v\<newline>'' [E err])
                         else
                           let titleMatch = FindStringSubmatch titleRe body;
                               (success, irc1) =
                                 (if length titleMatch = 2 then
                                    let title = titleMatch ! 1;
                                        title = UnescapeString L title;
                                        title = TrimSpace L title;
                                        title = SanitizeText L title titleCharLimit
                                    in if length title \<noteq> 0
                                       then (True, sendReplyNotice irc target msgid title)
                                       else (False, irc)
                                  else (False, irc))
                           in (Returned (),
                               if \<not> success \<and> Debug irc1
                               then Printf irc1 ''Can't title %s : title not found\<newline>''
                                      [S url]
                               else irc1)))))"

section \<open>Social resolver\<close>

text \<open>
  \<^verbatim>\<open>
  func (irc *Bot) resolveBlueskyHandle(handle string) (did string) {
      url := fmt.Sprintf("%s/com.atproto.identity.resolveHandle?handle=%s", blueskyAPIBase, handle)
      resp, err := httpClient.Get(url)
      if irc.checkErr(err, "can't get resolve bluesky handle") { return }
      defer resp.Body.Close()
      if resp.StatusCode != http.StatusOK {
          irc.Log.Printf("Can't resolve bsky handle %s : HTTP code %d\n", handle, resp.StatusCode)
          return
      }
      br := io.LimitedReader{R: resp.Body, N: trustedReadLimit}
      type ResolveHandleResponse struct { Did string `json:"did"` }
      var result ResolveHandleResponse
      if irc.checkErr(json.NewDecoder(&br).Decode(&result), "Invalid JSON from bsky handle resolve") {
          return
      }
      return result.Did
  }
  \<close>
\<close>

definition resolveBlueskyHandle ::
  "lib \<Rightarrow> world \<Rightarrow> string \<Rightarrow> Bot \<Rightarrow> string outcome \<times> Bot" where
  "resolveBlueskyHandle L w handle irc =
     (let url = blueskyAPIBase @ ''/com.atproto.identity.resolveHandle?handle='' @ handle
      in case Get w url of
           Faulted v \<Rightarrow> (Panicked v, irc)
         | Failed err \<Rightarrow>
             (Returned '''', snd (checkErr irc (Some err) ''can't get resolve bluesky handle''))
         | Responded resp \<Rightarrow>
             if StatusCode resp \<noteq> 200 then
               (Returned '''',
                Printf irc ''Can't resolve bsky handle %s : HTTP code %d\<newline>''
                  [S handle, I (StatusCode resp)])
             else
               (case Decode_ResolveHandleResponse L (LimitedReader (Body resp) trustedReadLimit) of
                  Inl err \<Rightarrow>
                    (Returned '''',
                     snd (checkErr irc (Some err) ''Invalid JSON from bsky handle resolve''))
                | Inr did \<Rightarrow> (Returned did, irc)))"

text \<open>
  \<^verbatim>\<open>
  func (irc *Bot) getBlueskyPost(did, postID string) (record BlueskyPostRecord, err error) {
      url := fmt.Sprintf("%s/com.atproto.repo.getRecord?repo=%s&collection=app.bsky.feed.post&rkey=%s",
          blueskyAPIBase, did, postID)
      resp, err := httpClient.Get(url)
      if err != nil { return }
      defer resp.Body.Close()
      if resp.StatusCode != http.StatusOK {
          irc.Log.Printf("Can't resolve bsky handle %s : HTTP code %d\n", did, resp.StatusCode)
          return
      }
      br := io.LimitedReader{R: resp.Body, N: trustedReadLimit}
      type GetRecordResponse struct { URI string; CID string; Value BlueskyPostRecord }
      var result GetRecordResponse
      if irc.checkErr(json.NewDecoder(&br).Decode(&result), "Invalid JSON from bsky post lookup") {
          irc.Log.Printf("Invalid JSON from bsky getRecord: %v", err)
          return record, err
      }
      return result.Value, nil
  }
  \<close>
  The results \<^verbatim>\<open>record\<close> and \<^verbatim>\<open>err\<close> are named: \<^verbatim>\<open>resp, err := httpClient.Get(url)\<close>
  assigns the named \<^verbatim>\<open>err\<close>, and nothing assigns \<^verbatim>\<open>record\<close>.  After a response
  has arrived \<^verbatim>\<open>err\<close> is \<^verbatim>\<open>nil\<close>, so both the bare \<^verbatim>\<open>return\<close> after a status other
  than 200 and \<^verbatim>\<open>return record, err\<close> after a decoding error return the zero record
  and a \<^verbatim>\<open>nil\<close> error.
\<close>

definition getBlueskyPost ::
  "lib \<Rightarrow> world \<Rightarrow> string \<Rightarrow> string \<Rightarrow> Bot
   \<Rightarrow> (BlueskyPostRecord \<times> error option) outcome \<times> Bot" where
  "getBlueskyPost L w did postID irc =
     (let url = blueskyAPIBase @ ''/com.atproto.repo.getRecord?repo='' @ did
                @ ''&collection=app.bsky.feed.post&rkey='' @ postID
      in case Get w url of
           Faulted v \<Rightarrow> (Panicked v, irc)
         | Failed err \<Rightarrow> (Returned (zero_BlueskyPostRecord, Some err), irc)
         | Responded resp \<Rightarrow>
             if StatusCode resp \<noteq> 200 then
               (Returned (zero_BlueskyPostRecord, None),
                Printf irc ''Can't resolve bsky handle %s : HTTP code %d\<newline>''
                  [S did, I (StatusCode resp)])
             else
               (case Decode_GetRecordResponse L (LimitedReader (Body resp) trustedReadLimit) of
                  Inl derr \<Rightarrow>
                    (Returned (zero_BlueskyPostRecord, None),
                     Printf (snd (checkErr irc (Some derr) ''Invalid JSON from bsky post lookup''))
                       ''Invalid JSON from bsky getRecord: %v'' [E None])
                | Inr v \<Rightarrow> (Returned (v, None), irc)))"

text \<open>
  \<^verbatim>\<open>
  func (irc *Bot) titleBluesky(target, msgid, handle, postid string) {
      did := irc.resolveBlueskyHandle(handle)
      if did == "" { return }
      record, err := irc.getBlueskyPost(did, postid)
      if err != nil { return }
      ts, err := time.Parse(IRCv3TimestampFormat, record.CreatedAt)
      if irc.checkErr(err, "invalid time created in bsky post") { return }
      timeStr := displayTwitterTime(ts)
      safeText := ircutils.SanitizeText(record.Text, titleCharLimit)
      message := fmt.Sprintf("(@%s, %s) %s", handle, timeStr, safeText)
      irc.sendReplyNotice(target, msgid, message)
  }
  \<close>
\<close>

definition titleBluesky ::
  "lib \<Rightarrow> world \<Rightarrow> string \<Rightarrow> string \<Rightarrow> string \<Rightarrow> string \<Rightarrow> Bot
   \<Rightarrow> unit outcome \<times> Bot" where
  "titleBluesky L w target msgid handle postid irc =
     (case resolveBlueskyHandle L w handle irc of
        (Panicked v, irc1) \<Rightarrow> (Panicked v, irc1)
      | (Returned did, irc1) \<Rightarrow>
          if did = '''' then (Returned (), irc1)
          else
            (case getBlueskyPost L w did postid irc1 of
               (Panicked v, irc2) \<Rightarrow> (Panicked v, irc2)
             | (Returned (record, err), irc2) \<Rightarrow>
                 if err \<noteq> None then (Returned (), irc2)
                 else
                   (case time_Parse L IRCv3TimestampFormat (CreatedAt record) of
                      Inl perr \<Rightarrow>
                        (Returned (),
                         snd (checkErr irc2 (Some perr) ''invalid time created in bsky post''))
                    | Inr ts \<Rightarrow>
                        let timeStr = displayTwitterTime (time_Format L) (now_display w) ts;
                            safeText = SanitizeText L (Text record) titleCharLimit;
                            message = ''(@'' @ handle @ '', '' @ timeStr @ '') '' @ safeText
                        in (Returned (), sendReplyNotice irc2 target msgid message))))"

section \<open>The pipeline of one URL and the dispatcher\<close>

text \<open>
  \<^verbatim>\<open>
  func (irc *Bot) title(target, msgid, url string) {
      if !irc.tryAcquireSemaphore() {
          irc.Log.Printf("concurrency limit exceeded, not titling %s\n", url)
          return
      }
      defer irc.releaseSemaphore()
      defer func() {
          if r := recover(); r != nil {
              irc.Log.Printf("Caught panic in callback: %v\n%s", r, debug.Stack())
          }
      }()
      start := time.Now()
      defer func() {
          if irc.Debug { irc.Log.Printf("Titled %s in %v\n", url, time.Since(start)) }
      }()
      if handle, postid := extractBlueskyData(url); handle != "" {
          irc.titleBluesky(target, msgid, handle, postid)
      } else {
          irc.titleGeneric(target, msgid, url)
      }
  }
  \<close>
  The deferred calls run when the body returns or panics, the last deferred first:
  the debug line, then the function that recovers (after it the panic is over and
  \<^verbatim>\<open>title\<close> returns normally), then the release.  \<open>title_deferred\<close> takes the outcome
  of the body and gives the outcome of \<^verbatim>\<open>title\<close>; it is \<open>None\<close> when the release
  waits for ever.
\<close>

definition title_deferred ::
  "world \<Rightarrow> string \<Rightarrow> unit outcome \<times> Bot \<Rightarrow> (unit outcome \<times> Bot) option" where
  "title_deferred w url body =
     (case body of (result, irc) \<Rightarrow>
        let irc1 = (if Debug irc
                    then Printf irc ''Titled %s in %v\<newline>''
                           [S url, D (Sub (now_done w) (now_start w))]
                    else irc);
            (result2, irc2) =
              (case result of
                 Panicked r \<Rightarrow>
                   (Returned (),
                    Printf irc1 ''Caught panic in callback: %v\<newline>%s'' [V r, S (Stack w)])
               | Returned u \<Rightarrow> (Returned (), irc1))
        in (case releaseSemaphore irc2 of
              None \<Rightarrow> None
            | Some irc3 \<Rightarrow> Some (result2, irc3)))"

text \<open>The last statement of \<^verbatim>\<open>title\<close>, the body that the deferred calls guard.\<close>

definition title_body ::
  "lib \<Rightarrow> world \<Rightarrow> string \<Rightarrow> string \<Rightarrow> string \<Rightarrow> Bot \<Rightarrow> unit outcome \<times> Bot" where
  "title_body L w target msgid url irc =
     (case extractBlueskyData url of
        (handle, postid) \<Rightarrow>
          if handle \<noteq> '''' then titleBluesky L w target msgid handle postid irc
          else titleGeneric L w target msgid url irc)"

definition title ::
  "lib \<Rightarrow> world \<Rightarrow> string \<Rightarrow> string \<Rightarrow> string \<Rightarrow> Bot \<Rightarrow> (unit outcome \<times> Bot) option" where
  "title L w target msgid url irc =
     (case tryAcquireSemaphore irc of
        (False, irc1) \<Rightarrow>
          Some (Returned (),
                Printf irc1 ''concurrency limit exceeded, not titling %s\<newline>'' [S url])
      | (True, irc1) \<Rightarrow>
          title_deferred w url (title_body L w target msgid url irc1))"

text \<open>
  \<^verbatim>\<open>
  func (irc *Bot) titleAll(target, msgid string, urls []string) {
      if len(urls) > maxUrlsPerMessage { urls = urls[:maxUrlsPerMessage] }
      for _, url := range urls { irc.title(target, msgid, url) }
  }
  \<close>
  The pipelines of one message run one after the other; the \<open>n\<close>-th pipeline meets
  the world \<open>W n\<close>.  A panic that left \<^verbatim>\<open>title\<close> would end the loop.
\<close>

fun titleAll_loop ::
  "lib \<Rightarrow> (nat \<Rightarrow> world) \<Rightarrow> nat \<Rightarrow> string \<Rightarrow> string \<Rightarrow> string list \<Rightarrow> Bot
   \<Rightarrow> (unit outcome \<times> Bot) option" where
  "titleAll_loop L W n target msgid [] irc = Some (Returned (), irc)"
| "titleAll_loop L W n target msgid (url # rest) irc =
     (case title L (W n) target msgid url irc of
        None \<Rightarrow> None
      | Some (Panicked v, irc') \<Rightarrow> Some (Panicked v, irc')
      | Some (Returned u, irc') \<Rightarrow> titleAll_loop L W (n + 1) target msgid rest irc')"

definition titleAll ::
  "lib \<Rightarrow> (nat \<Rightarrow> world) \<Rightarrow> string \<Rightarrow> string \<Rightarrow> string list \<Rightarrow> Bot
   \<Rightarrow> (unit outcome \<times> Bot) option" where
  "titleAll L W target msgid urls irc =
     titleAll_loop L W 0 target msgid
       (if length urls > maxUrlsPerMessage then take maxUrlsPerMessage urls else urls) irc"

section \<open>Sample environments\<close>

text \<open>
  Concrete libraries, worlds and bots at which the theorems are instantiated: a
  library that decodes a few fixed payloads and one timestamp, a world that answers
  every request with status 404, one whose client panics, one that serves a page and
  worlds that serve the two calls of the social resolver.
\<close>

definition sample_lib :: lib where
  "sample_lib =
     \<lparr>UnescapeString =
        (\<lambda>s. if s = ''  Hello &amp; World  '' then ''  Hello & World  '' else s),
      TrimSpace =
        (\<lambda>s. rev (dropWhile (\<lambda>c. c = CHR '' '') (rev (dropWhile (\<lambda>c. c = CHR '' '') s)))),
      SanitizeText = (\<lambda>s n. take (nat n) s),
      ToLower = (\<lambda>s. s),
      url_Parse =
        (\<lambda>s. if s = '''' then Inl (Error ''empty url'') else Inr \<lparr>Host = ''example.org''\<rparr>),
      SplitHostPort = (\<lambda>s. Inl (Error ''missing port in address'')),
      NewRequest = (\<lambda>method u. Inr \<lparr>Method = method, ReqURL = u, Header = []\<rparr>),
      Decode_ResolveHandleResponse =
        (\<lambda>b. if fst b = ''{did: did:plc:abc}'' then Inr ''did:plc:abc''
             else Inl (Error ''invalid character'')),
      Decode_GetRecordResponse =
        (\<lambda>b. if fst b = ''{value: {text: hi, createdAt: 2024-01-01T00:00:00.000Z}}''
             then Inr \<lparr>Text = ''hi'', CreatedAt = ''2024-01-01T00:00:00.000Z''\<rparr>
             else if fst b = ''{value: {text: hi, createdAt: yesterday}}''
             then Inr \<lparr>Text = ''hi'', CreatedAt = ''yesterday''\<rparr>
             else Inl (Error ''invalid character'')),
      time_Parse =
        (\<lambda>layout v. if v = ''2024-01-01T00:00:00.000Z'' then Inr 1704067200000000000
                    else Inl (Error ''cannot parse'')),
      time_Format = (\<lambda>t layout. ''2024-01-01'')\<rparr>"

definition world_404 :: world where
  "world_404 =
     \<lparr>Get = (\<lambda>u. Responded \<lparr>StatusCode = 404, Body = (''Not Found'', None, False)\<rparr>),
      Do = (\<lambda>r. Responded \<lparr>StatusCode = 404, Body = (''Not Found'', None, False)\<rparr>),
      now_start = 1704067200000000000,
      now_display = 1704067200000000000,
      now_done = 1704067200000000000,
      Stack = ''goroutine 1 [running]''\<rparr>"

definition world_panic :: world where
  "world_panic = world_404\<lparr>Get := (\<lambda>u. Faulted ''boom''), Do := (\<lambda>r. Faulted ''boom'')\<rparr>"

definition world_page :: world where
  "world_page =
     world_404\<lparr>Do := (\<lambda>r. Responded
       \<lparr>StatusCode = 200,
        Body = (''<html><head><title>  Hello &amp; World  </title></head><body></body></html>'',
                None, False)\<rparr>)\<rparr>"

definition not_found :: Response where
  "not_found = \<lparr>StatusCode = 404, Body = (''Not Found'', None, False)\<rparr>"

definition ok_did :: Response where
  "ok_did = \<lparr>StatusCode = 200, Body = (''{did: did:plc:abc}'', None, False)\<rparr>"

definition ok_record :: Response where
  "ok_record =
     \<lparr>StatusCode = 200,
      Body = (''{value: {text: hi, createdAt: 2024-01-01T00:00:00.000Z}}'', None, False)\<rparr>"

definition undated_record :: Response where
  "undated_record =
     \<lparr>StatusCode = 200, Body = (''{value: {text: hi, createdAt: yesterday}}'', None, False)\<rparr>"

definition garbage :: Response where
  "garbage = \<lparr>StatusCode = 200, Body = (''<html>'', None, False)\<rparr>"

text \<open>
  A world that answers the identity resolution of the handle \<open>alice.test\<close> with the
  first response and every other request with the second.
\<close>

definition bsky_world :: "Response \<Rightarrow> Response \<Rightarrow> world" where
  "bsky_world r1 r2 =
     world_404\<lparr>Get := (\<lambda>u.
       if u = ''https://bsky.social/xrpc/com.atproto.identity.resolveHandle?handle=alice.test''
       then Responded r1 else Responded r2)\<rparr>"

definition world_post :: world where
  "world_post = bsky_world ok_did ok_record"

definition sample_bot :: Bot where
  "sample_bot = newBot ''titlebot'' False '''' ''Mozilla/5.0''"

definition busy_bot :: Bot where
  "busy_bot = sample_bot\<lparr>semaphore := \<lparr>capacity = concurrencyLimit, queue = replicate 128 ()\<rparr>\<rparr>"

section \<open>Notions used in the properties\<close>

text \<open>The addresses of the two calls of the social resolver.\<close>

definition resolveHandle_url :: "string \<Rightarrow> string" where
  "resolveHandle_url handle =
     blueskyAPIBase @ ''/com.atproto.identity.resolveHandle?handle='' @ handle"

definition getRecord_url :: "string \<Rightarrow> string \<Rightarrow> string" where
  "getRecord_url did postID =
     blueskyAPIBase @ ''/com.atproto.repo.getRecord?repo='' @ did
       @ ''&collection=app.bsky.feed.post&rkey='' @ postID"

text \<open>
  A resolver that started in the state \<open>irc\<close> has aborted with a log entry: it
  returned, sent nothing and left at least one new line in the log.
\<close>

definition aborts_with_log :: "Bot \<Rightarrow> unit outcome \<times> Bot \<Rightarrow> bool" where
  "aborts_with_log irc R \<longleftrightarrow>
     fst R = Returned () \<and> sent (snd R) = sent irc \<and> length (Log irc) < length (Log (snd R))"

text \<open>
  The two calls of the social resolver succeed for a handle and a post id: the first
  answers with status 200 and a body that decodes to a non-empty identifier, the
  second with status 200 and a body that decodes to a record.
\<close>

definition identity_resolved :: "lib \<Rightarrow> world \<Rightarrow> string \<Rightarrow> string \<Rightarrow> bool" where
  "identity_resolved L w handle did \<longleftrightarrow>
     did \<noteq> '''' \<and>
     (case Get w (resolveHandle_url handle) of
        Responded r \<Rightarrow>
          StatusCode r = 200 \<and>
          Decode_ResolveHandleResponse L (LimitedReader (Body r) trustedReadLimit) = Inr did
      | _ \<Rightarrow> False)"

definition record_found ::
  "lib \<Rightarrow> world \<Rightarrow> string \<Rightarrow> string \<Rightarrow> BlueskyPostRecord \<Rightarrow> bool" where
  "record_found L w did postid record \<longleftrightarrow>
     (case Get w (getRecord_url did postid) of
        Responded r \<Rightarrow>
          StatusCode r = 200 \<and>
          Decode_GetRecordResponse L (LimitedReader (Body r) trustedReadLimit) = Inr record
      | _ \<Rightarrow> False)"

text \<open>The title that the generic resolver extracts from the bytes of a body.\<close>

definition extracted_title :: "lib \<Rightarrow> string \<Rightarrow> string" where
  "extracted_title L body =
     SanitizeText L
       (TrimSpace L (UnescapeString L (FindStringSubmatch genericTitleRe body ! 1)))
       titleCharLimit"

text \<open>
  The classifier without the matcher.  A post address starts at a position when the
  text there is \<open>https://bsky.app/profile/\<close>, a non-empty handle without a slash,
  \<open>/post/\<close> and a non-empty post id without a slash; the handle and the id run as far
  as they can.  The classifier takes the first position where a post address starts.
\<close>

definition bluesky_at :: "string \<Rightarrow> (string \<times> string) option" where
  "bluesky_at inp =
     (case strip_prefix ''https://bsky.app/profile/'' inp of
        None \<Rightarrow> None
      | Some r1 \<Rightarrow>
          let h = takeWhile (in_cls (NotChar CHR ''/'')) r1;
              r2 = dropWhile (in_cls (NotChar CHR ''/'')) r1
          in if h = [] then None
             else (case strip_prefix ''/post/'' r2 of
                     None \<Rightarrow> None
                   | Some r3 \<Rightarrow>
                       let p = takeWhile (in_cls (NotChar CHR ''/'')) r3
                       in if p = [] then None else Some (h, p)))"

fun bluesky_first :: "string \<Rightarrow> (string \<times> string) option" where
  "bluesky_first [] = bluesky_at []"
| "bluesky_first (x # xs) =
     (case bluesky_at (x # xs) of Some hp \<Rightarrow> Some hp | None \<Rightarrow> bluesky_first xs)"

text \<open>The capture slots of a post address that starts at offset \<open>i\<close>.\<close>

definition bluesky_caps :: "nat \<Rightarrow> nat \<Rightarrow> nat \<Rightarrow> caps" where
  "bluesky_caps i n1 n2 =
     [0 \<mapsto> i, 2 \<mapsto> i + 25, 3 \<mapsto> i + 25 + n1, 4 \<mapsto> i + 31 + n1,
      5 \<mapsto> i + 31 + n1 + n2, 1 \<mapsto> i + 31 + n1 + n2]"

text \<open>
  The text scanner without the matcher.  \<open>ci_prefix s inp\<close> strips the literal \<open>s\<close>
  from the front of \<open>inp\<close> ignoring case and gives what follows it; a URL scheme is
  \<open>https://\<close> or \<open>http://\<close> ignoring case.  The URL at the front of a text runs up
  to the first white space character (tab, line feed, form feed, carriage return or
  space) or to the end of the text.
\<close>

fun ci_prefix :: "string \<Rightarrow> string \<Rightarrow> string option" where
  "ci_prefix [] inp = Some inp"
| "ci_prefix (c # cs) inp =
     (case first_alt (fold_alts c) inp of
        None \<Rightarrow> None
      | Some (a, r) \<Rightarrow> ci_prefix cs r)"

definition url_scheme :: "string \<Rightarrow> string option" where
  "url_scheme inp =
     (case ci_prefix ''https://'' inp of
        Some r \<Rightarrow> Some r
      | None \<Rightarrow> ci_prefix ''http://'' inp)"

definition url_at :: "string \<Rightarrow> string option" where
  "url_at inp =
     (case url_scheme inp of
        None \<Rightarrow> None
      | Some r \<Rightarrow> Some (takeWhile (\<lambda>x. \<not> in_cls PerlSpace x) inp))"

text \<open>
  The scan from left to right: where a URL may start (the test \<open>ok\<close> sees the byte
  before the position) and a scheme stands, the URL is taken and the scan goes on
  behind the white space character that ended it; elsewhere the scan moves on by one
  byte.  With the test that is always true this is the scanner in the words of the
  specification; the program's pattern starts with \<^verbatim>\<open>\b\<close>, which asks in
  addition that the byte before the URL is not a word character.
\<close>

function scan_urls :: "(char option \<Rightarrow> bool) \<Rightarrow> char option \<Rightarrow> string \<Rightarrow> string list" where
  "scan_urls ok prev [] = []"
| "scan_urls ok prev (x # xs) =
     (case (if ok prev then url_at (x # xs) else None) of
        None \<Rightarrow> scan_urls ok (Some x) xs
      | Some u \<Rightarrow>
          u # (case drop (length u) (x # xs) of
                 [] \<Rightarrow> []
               | w # ws \<Rightarrow> scan_urls ok (Some w) ws))"
  by pat_completeness auto

lemma drop_Cons_shorter: "drop n (x # xs) = w # ws \<Longrightarrow> length ws < Suc (length xs)"
proof -
  assume "drop n (x # xs) = w # ws"
  then have "length (drop n (x # xs)) = Suc (length ws)" by simp
  then show ?thesis by simp
qed

termination scan_urls
proof (relation "measure (\<lambda>(ok, prev, s). length s)")
  show "wf (measure (\<lambda>(ok, prev, s). length s))" by simp
next
  fix ok :: "char option \<Rightarrow> bool" and prev :: "char option" and x :: char and xs :: string
  show "((ok, Some x, xs), ok, prev, x # xs) \<in> measure (\<lambda>(ok, prev, s). length s)"
    by simp
next
  fix ok :: "char option \<Rightarrow> bool" and prev :: "char option" and x :: char
    and xs :: string and u :: string and w :: char and ws :: string
  assume "drop (length u) (x # xs) = w # ws"
  then have "length ws < Suc (length xs)" by (rule drop_Cons_shorter)
  then show "((ok, Some w, ws), ok, prev, x # xs) \<in> measure (\<lambda>(ok, prev, s). length s)"
    by simp
qed

definition urls_as_specified :: "string \<Rightarrow> string list" where
  "urls_as_specified s = scan_urls (\<lambda>prev. True) None s"

definition urls_at_word_boundaries :: "string \<Rightarrow> string list" where
  "urls_at_word_boundaries s = scan_urls (\<lambda>prev. \<not> wordBefore prev) None s"

text \<open>The capture slots of a URL of \<open>n\<close> bytes that starts at offset \<open>i\<close>.\<close>

definition url_caps :: "nat \<Rightarrow> nat \<Rightarrow> bool \<Rightarrow> caps" where
  "url_caps i n atEnd =
     [0 \<mapsto> i, 2 \<mapsto> i, 3 \<mapsto> i + n, 4 \<mapsto> i + n,
      5 \<mapsto> i + n + (if atEnd then 0 else 1), 1 \<mapsto> i + n + (if atEnd then 0 else 1)]"

text \<open>A text holds a URL scheme when one stands at some position of it.\<close>

fun has_scheme :: "string \<Rightarrow> bool" where
  "has_scheme [] = False"
| "has_scheme (x # xs) = (url_scheme (x # xs) \<noteq> None \<or> has_scheme xs)"


chapter \<open>Properties\<close>

section \<open>Domain matching\<close>

lemma HasSuffix_iff: "HasSuffix s t \<longleftrightarrow> (\<exists>p. s = p @ t)"
proof
  assume h: "HasSuffix s t"
  then have "s = take (length s - length t) s @ t"
    by (metis HasSuffix_def append_take_drop_id)
  then show "\<exists>p. s = p @ t" ..
next
  assume "\<exists>p. s = p @ t"
  then obtain p where "s = p @ t" ..
  then show "HasSuffix s t" by (simp add: HasSuffix_def)
qed

lemma TrimSuffix_append: "TrimSuffix (p @ t) t = p"
  by (simp add: TrimSuffix_def HasSuffix_def)

lemma TrimSuffix_no_suffix: "\<not> HasSuffix s t \<Longrightarrow> TrimSuffix s t = s"
  by (simp add: TrimSuffix_def)

lemma domainMatch_append:
  "domainMatch (p @ d) d \<longleftrightarrow> d \<noteq> [] \<and> (p = [] \<or> (\<exists>q. p = q @ ''.''))"
  by (auto simp: domainMatch_def TrimSuffix_append HasSuffix_iff)

lemma domainMatch_no_suffix: "\<not> HasSuffix h d \<Longrightarrow> \<not> domainMatch h d"
  by (simp add: domainMatch_def TrimSuffix_no_suffix)

lemma isGarbageJSDomain_loop_iff:
  "isGarbageJSDomain_loop h ds \<longleftrightarrow> (\<exists>d \<in> set ds. domainMatch h d)"
  by (induction ds) auto

text \<open>
  Claim C1, as amended.  For every host \<open>h\<close> and every non-empty domain \<open>d\<close>,
  \<open>domainMatch h d\<close> is true if and only if \<open>h\<close> equals \<open>d\<close> or \<open>h\<close> ends with
  \<open>"." + d\<close>; for the empty domain it is false for every host.  The host
  \<open>evilgoogle.com\<close> does not match the domain \<open>google.com\<close>, the host
  \<open>www.google.com\<close> does, and the list of domains with the extended budget is
  matched through exactly this test.
\<close>

theorem C1_domainMatch_iff:
  "(d \<noteq> [] \<longrightarrow> (domainMatch h d \<longleftrightarrow> h = d \<or> (\<exists>p. h = p @ ''.'' @ d)))
   \<and> \<not> domainMatch h []
   \<and> \<not> domainMatch ''evilgoogle.com'' ''google.com''
   \<and> domainMatch ''www.google.com'' ''google.com''
   \<and> (isGarbageJSDomain h \<longleftrightarrow> (\<exists>d \<in> set garbageJSDomains. h = d \<or> (\<exists>p. h = p @ ''.'' @ d)))"
proof -
  have gen: "domainMatch h d \<longleftrightarrow> h = d \<or> (\<exists>p. h = p @ ''.'' @ d)" if ne: "d \<noteq> []" for h d
  proof (cases "HasSuffix h d")
    case True
    then obtain p where h: "h = p @ d" by (auto simp: HasSuffix_iff)
    show ?thesis using ne by (auto simp: h domainMatch_append)
  next
    case False
    then have "h \<noteq> d" and "\<And>p. h \<noteq> p @ ''.'' @ d"
      by (auto simp: HasSuffix_iff)
    with False show ?thesis by (simp add: domainMatch_no_suffix)
  qed
  have empty: "\<not> domainMatch h []"
    by (simp add: domainMatch_def TrimSuffix_def HasSuffix_def)
  have evil: "\<not> domainMatch ''evilgoogle.com'' ''google.com''"
    by (simp add: domainMatch_def TrimSuffix_def HasSuffix_def)
  have www: "domainMatch ''www.google.com'' ''google.com''"
    by (simp add: domainMatch_def TrimSuffix_def HasSuffix_def)
  have "\<forall>d \<in> set garbageJSDomains. d \<noteq> []"
    by (simp add: garbageJSDomains_def)
  then have garbage:
    "isGarbageJSDomain h \<longleftrightarrow> (\<exists>d \<in> set garbageJSDomains. h = d \<or> (\<exists>p. h = p @ ''.'' @ d))"
    unfolding isGarbageJSDomain_def isGarbageJSDomain_loop_iff using gen by blast
  show ?thesis
  proof (intro conjI impI)
    show "domainMatch h d \<longleftrightarrow> h = d \<or> (\<exists>p. h = p @ ''.'' @ d)" if "d \<noteq> []"
      using that by (rule gen)
  qed (rule empty evil www garbage)+
qed

theorem C1_domainMatch_iff_witness:
  "''google.com'' \<noteq> [] \<and> domainMatch ''maps.google.com'' ''google.com''
   \<and> isGarbageJSDomain ''maps.google.com''"
proof -
  have ne: "''google.com'' \<noteq> []" by simp
  have mem: "''google.com'' \<in> set garbageJSDomains" by (simp add: garbageJSDomains_def)
  have ex: "\<exists>p. ''maps.google.com'' = p @ ''.'' @ ''google.com''"
    by (rule exI [of _ "''maps''"]) simp
  from C1_domainMatch_iff [of "''google.com''" "''maps.google.com''"] ne mem ex
  show ?thesis by blast
qed

text \<open>
  Claim C1 as stated quantifies over every domain.  At the empty domain the host
  \<open>""\<close> equals the domain, yet \<^verbatim>\<open>TrimSuffix\<close> removes nothing, \<^verbatim>\<open>host != trimmed\<close>
  is false and the function answers false.
\<close>

theorem C1_domainMatch_counterexample:
  "\<not> (domainMatch '''' '''' \<longleftrightarrow> ('''' = (''''::string) \<or> HasSuffix '''' (''.'' @ '''')))"
  by (simp add: domainMatch_def TrimSuffix_def HasSuffix_def)

section \<open>The time display\<close>

lemma loop_break:
  "found \<noteq> - 1 \<Longrightarrow> i > found + 1 \<Longrightarrow> humanReadableDuration_loop i tbl found d out = out"
  by (cases tbl) simp_all

lemma loop_second:
  "found \<noteq> - 1 \<Longrightarrow>
   humanReadableDuration_loop (found + 1) tbl found d out =
     out @ (case tbl of [] \<Rightarrow> [] | up2 # _ \<Rightarrow> if d > fst up2 then unit_count d up2 else [])"
  by (cases tbl) (simp_all add: loop_break unit_count_def)

lemma loop_first:
  "0 \<le> i \<Longrightarrow> humanReadableDuration_loop i tbl (- 1) d out = out @ adjacent_units tbl d"
proof (induction tbl arbitrary: i out)
  case Nil
  show ?case by (simp add: adjacent_units_def)
next
  case (Cons up rest)
  show ?case
  proof (cases "d > fst up")
    case True
    from Cons.prems have "i \<noteq> - 1" by simp
    then have "humanReadableDuration_loop (i + 1) rest i (d smod fst up)
                 (out @ fmt_d (d sdiv fst up) @ snd up)
               = (out @ fmt_d (d sdiv fst up) @ snd up)
                 @ (case rest of [] \<Rightarrow> []
                    | up2 # _ \<Rightarrow> if d smod fst up > fst up2
                                  then unit_count (d smod fst up) up2 else [])"
      by (rule loop_second)
    with True show ?thesis
      by (simp add: adjacent_units_def unit_count_def)
  next
    case False
    from Cons.prems have "0 \<le> i + 1" by simp
    then have "humanReadableDuration_loop (i + 1) rest (- 1) d out = out @ adjacent_units rest d"
      by (rule Cons.IH)
    with False show ?thesis
      by (simp add: adjacent_units_def)
  qed
qed

lemma humanReadableDuration_adjacent:
  "humanReadableDuration d = adjacent_units humanDurations d"
  by (simp add: humanReadableDuration_def loop_first)

lemmas unit_defs = Hour_def Minute_def Second_def Millisecond_def

lemma Sub_plus: "minDuration \<le> d \<Longrightarrow> d \<le> maxDuration \<Longrightarrow> Sub (t + d) t = d"
  by (simp add: Sub_def)

lemma hrd_90m: "humanReadableDuration (90 * Minute) = ''1h30m''"
  by (simp add: humanReadableDuration_def humanDurations_def unit_defs fmt_d_def
      signed_divide_int_def signed_modulo_int_def)

lemma hrd_25h: "humanReadableDuration (25 * Hour) = ''1d''"
  by (simp add: humanReadableDuration_def humanDurations_def unit_defs fmt_d_def
      signed_divide_int_def signed_modulo_int_def)

lemma hrd_25h1: "humanReadableDuration (25 * Hour + 1) = ''1d1h''"
  by (simp add: humanReadableDuration_def humanDurations_def unit_defs fmt_d_def
      signed_divide_int_def signed_modulo_int_def)

lemma hrd_1d5m: "humanReadableDuration (24 * Hour + 5 * Minute) = ''1d''"
  by (simp add: humanReadableDuration_def humanDurations_def unit_defs fmt_d_def
      signed_divide_int_def signed_modulo_int_def)

lemma spec_1d5m: "largest_two_nonzero_units (24 * Hour + 5 * Minute) = ''1d5m''"
  by (simp add: largest_two_nonzero_units_def humanDurations_def unit_defs fmt_d_def)

lemma hrd_small: "d \<le> Millisecond \<Longrightarrow> humanReadableDuration d = ''''"
  by (simp add: humanReadableDuration_adjacent adjacent_units_def humanDurations_def unit_defs)

text \<open>
  Claim C2, as amended.  The time display renders the creation time in the layout
  \<open>2006-01-02\<close> (an absolute date) exactly when the time elapsed since creation exceeds
  7 days; otherwise it renders a relative duration followed by \<open>" ago"\<close>.  The
  relative duration is the whole count of the first unit among years (365 days), days,
  hours, minutes, seconds and milliseconds that the elapsed time exceeds, followed by
  the whole count of the unit right after it when what remains exceeds that unit; no
  later unit is shown.  An elapsed time of 90 minutes renders \<open>"1h30m ago"\<close>, one of
  8 days renders the absolute date, one of exactly 25 hours renders \<open>"1d ago"\<close> (the
  hour that remains does not exceed one hour), and one of 25 hours and a nanosecond
  renders \<open>"1d1h ago"\<close>.
\<close>

theorem C2_time_display:
  "displayTwitterTime F now t =
     (if Sub now t > 7 * 24 * Hour then F t ''2006-01-02''
      else humanReadableDuration (Sub now t) @ '' ago'')
   \<and> humanReadableDuration d = adjacent_units humanDurations d
   \<and> displayTwitterTime F (t + 90 * Minute) t = ''1h30m ago''
   \<and> displayTwitterTime F (t + 8 * 24 * Hour) t = F t ''2006-01-02''
   \<and> displayTwitterTime F (t + 25 * Hour) t = ''1d ago''
   \<and> displayTwitterTime F (t + (25 * Hour + 1)) t = ''1d1h ago''"
proof (intro conjI)
  show "displayTwitterTime F now t =
     (if Sub now t > 7 * 24 * Hour then F t ''2006-01-02''
      else humanReadableDuration (Sub now t) @ '' ago'')"
    by (simp add: displayTwitterTime_def)
  show "humanReadableDuration d = adjacent_units humanDurations d"
    by (rule humanReadableDuration_adjacent)
  have "Sub (t + 90 * Minute) t = 90 * Minute"
    by (rule Sub_plus) (simp_all add: unit_defs minDuration_def maxDuration_def)
  then show "displayTwitterTime F (t + 90 * Minute) t = ''1h30m ago''"
    by (simp add: displayTwitterTime_def hrd_90m) (simp add: unit_defs)
  have "Sub (t + 8 * 24 * Hour) t = 8 * 24 * Hour"
    by (rule Sub_plus) (simp_all add: unit_defs minDuration_def maxDuration_def)
  then show "displayTwitterTime F (t + 8 * 24 * Hour) t = F t ''2006-01-02''"
    by (simp add: displayTwitterTime_def) (simp add: unit_defs)
  have "Sub (t + 25 * Hour) t = 25 * Hour"
    by (rule Sub_plus) (simp_all add: unit_defs minDuration_def maxDuration_def)
  then show "displayTwitterTime F (t + 25 * Hour) t = ''1d ago''"
    by (simp add: displayTwitterTime_def hrd_25h) (simp add: unit_defs)
  have "Sub (t + (25 * Hour + 1)) t = 25 * Hour + 1"
    by (rule Sub_plus) (simp_all add: unit_defs minDuration_def maxDuration_def)
  then show "displayTwitterTime F (t + (25 * Hour + 1)) t = ''1d1h ago''"
    by (simp add: displayTwitterTime_def hrd_25h1) (simp add: unit_defs)
qed

text \<open>
  Claim C2 as stated fails twice.  After exactly 25 hours the display is \<open>"1d ago"\<close>,
  not \<open>"1d1h ago"\<close>.  And after 1 day and 5 minutes the two largest non-zero units
  are days and minutes, which would give \<open>"1d5m"\<close>; the loop stops after the unit that
  follows the first one and writes \<open>"1d"\<close>.
\<close>

theorem C2_time_display_counterexample:
  "displayTwitterTime (\<lambda>t layout. layout) (25 * Hour) 0 \<noteq> ''1d1h ago''
   \<and> humanReadableDuration (24 * Hour + 5 * Minute) = ''1d''
   \<and> largest_two_nonzero_units (24 * Hour + 5 * Minute) = ''1d5m''"
proof (intro conjI)
  have "Sub (0 + 25 * Hour) 0 = 25 * Hour"
    by (rule Sub_plus) (simp_all add: unit_defs minDuration_def maxDuration_def)
  then show "displayTwitterTime (\<lambda>t layout. layout) (25 * Hour) 0 \<noteq> ''1d1h ago''"
    by (simp add: displayTwitterTime_def hrd_25h)
qed (rule hrd_1d5m spec_1d5m)+


lemma Printf_fields [simp]:
  "semaphore (Printf irc f a) = semaphore irc"
  "sent (Printf irc f a) = sent irc"
  "Debug (Printf irc f a) = Debug irc"
  "userAgent (Printf irc f a) = userAgent irc"
  "Log (Printf irc f a) = Log irc @ [(f, a)]"
  by (simp_all add: Printf_def)

lemma sendReplyNotice_fields [simp]:
  "semaphore (sendReplyNotice irc target msgid text) = semaphore irc"
  "Log (sendReplyNotice irc target msgid text) = Log irc"
  "Debug (sendReplyNotice irc target msgid text) = Debug irc"
  "sent (sendReplyNotice irc target msgid text) = sent irc @ [reply target msgid text]"
  by (simp_all add: sendReplyNotice_def reply_def)

lemma checkErr_Some [simp]:
  "checkErr irc (Some e) msg = (True, Printf irc ''%s: %v'' [S msg, E (Some e)])"
  by (simp add: checkErr_def)

lemma unit_list_eq: "(xs :: unit list) = ys \<longleftrightarrow> length xs = length ys"
proof (induction xs arbitrary: ys)
  case Nil
  show ?case by auto
next
  case (Cons x xs)
  show ?case by (cases ys) (simp_all add: Cons.IH)
qed

section \<open>The pipeline\<close>

subsection \<open>The resolvers leave the semaphore alone\<close>

lemma titleGeneric_semaphore:
  "semaphore (snd (titleGeneric L w target msgid url irc)) = semaphore irc"
  by (simp add: titleGeneric_def Let_def
      split: sum.split http_result.split prod.split)

lemma resolveBlueskyHandle_semaphore:
  "semaphore (snd (resolveBlueskyHandle L w handle irc)) = semaphore irc"
  by (simp add: resolveBlueskyHandle_def Let_def split: sum.split http_result.split)

lemma getBlueskyPost_semaphore:
  "semaphore (snd (getBlueskyPost L w did postid irc)) = semaphore irc"
  by (simp add: getBlueskyPost_def Let_def split: sum.split http_result.split)

lemma titleBluesky_semaphore:
  "semaphore (snd (titleBluesky L w target msgid handle postid irc)) = semaphore irc"
proof -
  obtain r1 irc1 where r1: "resolveBlueskyHandle L w handle irc = (r1, irc1)"
    by (cases "resolveBlueskyHandle L w handle irc")
  then have s1: "semaphore irc1 = semaphore irc"
    using resolveBlueskyHandle_semaphore [of L w handle irc] by simp
  have s2: "semaphore x = semaphore irc" if "getBlueskyPost L w did postid irc1 = (r, x)"
    for did r x
    using getBlueskyPost_semaphore [of L w did postid irc1] s1 that by simp
  show ?thesis
    using s1 s2
    by (auto simp: titleBluesky_def r1 Let_def
        split: outcome.split prod.split sum.split)
qed

lemma title_body_semaphore:
  "semaphore (snd (title_body L w target msgid url irc)) = semaphore irc"
  by (simp add: title_body_def titleGeneric_semaphore titleBluesky_semaphore split: prod.split)

subsection \<open>Admission controller\<close>

lemma sem_step_inv:
  assumes "sem_step opn (a, r, b) = Some (a', r', b')"
    and "int a - int r = int (length (queue (semaphore b)))"
    and "length (queue (semaphore b)) \<le> capacity (semaphore b)"
  shows "int a' - int r' = int (length (queue (semaphore b')))
         \<and> length (queue (semaphore b')) \<le> capacity (semaphore b')
         \<and> capacity (semaphore b') = capacity (semaphore b)"
proof (cases opn)
  case TryAcquire
  with assms show ?thesis
    by (auto simp: tryAcquireSemaphore_def split: if_splits)
next
  case Release
  with assms show ?thesis
    by (auto simp: releaseSemaphore_def split: list.splits)
qed

lemma sem_run_inv:
  "sem_run ops (a, r, b) = Some (a', r', b') \<Longrightarrow>
   int a - int r = int (length (queue (semaphore b))) \<Longrightarrow>
   length (queue (semaphore b)) \<le> capacity (semaphore b) \<Longrightarrow>
   int a' - int r' = int (length (queue (semaphore b')))
   \<and> length (queue (semaphore b')) \<le> capacity (semaphore b')
   \<and> capacity (semaphore b') = capacity (semaphore b)"
proof (induction ops arbitrary: a r b)
  case Nil
  then show ?case by simp
next
  case (Cons opn ops)
  from Cons.prems(1) obtain a1 r1 b1 where
    step: "sem_step opn (a, r, b) = Some (a1, r1, b1)" and
    rest: "sem_run ops (a1, r1, b1) = Some (a', r', b')"
    by (auto split: option.splits)
  from sem_step_inv [OF step Cons.prems(2) Cons.prems(3)]
  have inv1: "int a1 - int r1 = int (length (queue (semaphore b1)))"
    and le1: "length (queue (semaphore b1)) \<le> capacity (semaphore b1)"
    and cap1: "capacity (semaphore b1) = capacity (semaphore b)"
    by simp_all
  from Cons.IH [OF rest inv1 le1] cap1 show ?case by simp
qed

lemma sem_run_attempts:
  "length (queue (semaphore b)) \<le> capacity (semaphore b) \<Longrightarrow>
   \<exists>b'. sem_run (replicate n TryAcquire) (a, r, b)
          = Some (a + (min (length (queue (semaphore b)) + n) (capacity (semaphore b))
                       - length (queue (semaphore b))), r, b')"
proof (induction n arbitrary: a b)
  case 0
  then show ?case by simp
next
  case (Suc n)
  show ?case
  proof (cases "length (queue (semaphore b)) < capacity (semaphore b)")
    case True
    let ?b1 = "b\<lparr>semaphore := (semaphore b)\<lparr>queue := queue (semaphore b) @ [()]\<rparr>\<rparr>"
    have le: "length (queue (semaphore ?b1)) \<le> capacity (semaphore ?b1)"
      using True by simp
    from Suc.IH [OF le, of "a + 1"] obtain b' where
      "sem_run (replicate n TryAcquire) (a + 1, r, ?b1)
         = Some (a + 1 + (min (length (queue (semaphore ?b1)) + n) (capacity (semaphore ?b1))
                          - length (queue (semaphore ?b1))), r, b')"
      by blast
    moreover have "a + 1 + (min (length (queue (semaphore ?b1)) + n) (capacity (semaphore ?b1))
                          - length (queue (semaphore ?b1)))
        = a + (min (length (queue (semaphore b)) + Suc n) (capacity (semaphore b))
                       - length (queue (semaphore b)))"
    proof -
      have len1: "length (queue (semaphore ?b1)) = Suc (length (queue (semaphore b)))"
        by simp
      have cap1: "capacity (semaphore ?b1) = capacity (semaphore b)"
        by simp
      show ?thesis unfolding len1 cap1 using True by arith
    qed
    ultimately show ?thesis
      using True by (simp add: tryAcquireSemaphore_def)
  next
    case False
    with Suc.prems have eq: "length (queue (semaphore b)) = capacity (semaphore b)"
      by simp
    from Suc.IH [OF Suc.prems, of a] obtain b' where
      "sem_run (replicate n TryAcquire) (a, r, b)
         = Some (a + (min (length (queue (semaphore b)) + n) (capacity (semaphore b))
                       - length (queue (semaphore b))), r, b')"
      by blast
    then show ?thesis
      using False eq by (simp add: tryAcquireSemaphore_def)
  qed
qed

lemma title_not_admitted:
  assumes "length (queue (semaphore irc)) = capacity (semaphore irc)"
  shows "tryAcquireSemaphore irc = (False, irc)"
    and "title L w target msgid url irc
         = Some (Returned (),
                 irc\<lparr>Log := Log irc
                   @ [(''concurrency limit exceeded, not titling %s\<newline>'', [S url])]\<rparr>)"
  using assms by (simp_all add: tryAcquireSemaphore_def title_def Printf_def)

text \<open>
  Claim C3.  In every state that the admission controller reaches from the fresh bot
  through completed acquire attempts and releases, the successful acquires minus the
  releases are the slots held, and never more than 128.  An acquire attempt always
  completes, with success or failure: of \<open>n\<close> attempts in a row on the fresh
  controller exactly \<open>min n 128\<close> succeed.  An attempt made while 128 slots are held
  is refused, and the pipeline of that URL ends with one log entry, no message sent
  and the semaphore untouched.
\<close>

theorem C3_admission_bounded:
  "(sem_run ops (0, 0, newBot nick dbg owner ua) = Some (acquired, released, b) \<longrightarrow>
      int acquired - int released = int (length (queue (semaphore b)))
      \<and> int acquired - int released \<le> 128)
   \<and> (\<exists>b'. sem_run (replicate n TryAcquire) (0, 0, newBot nick dbg owner ua)
             = Some (min n 128, 0, b'))
   \<and> (capacity (semaphore irc) = concurrencyLimit \<and> length (queue (semaphore irc)) = 128 \<longrightarrow>
        tryAcquireSemaphore irc = (False, irc)
        \<and> title L w target msgid url irc
            = Some (Returned (),
                    irc\<lparr>Log := Log irc
                      @ [(''concurrency limit exceeded, not titling %s\<newline>'', [S url])]\<rparr>))"
proof (intro conjI impI)
  assume run: "sem_run ops (0, 0, newBot nick dbg owner ua) = Some (acquired, released, b)"
  have "int acquired - int released = int (length (queue (semaphore b)))
        \<and> length (queue (semaphore b)) \<le> capacity (semaphore b)
        \<and> capacity (semaphore b) = capacity (semaphore (newBot nick dbg owner ua))"
    by (rule sem_run_inv [OF run]) (simp_all add: newBot_def)
  then show "int acquired - int released = int (length (queue (semaphore b)))"
    and "int acquired - int released \<le> 128"
    by (simp_all add: newBot_def concurrencyLimit_def)
next
  have "length (queue (semaphore (newBot nick dbg owner ua)))
        \<le> capacity (semaphore (newBot nick dbg owner ua))"
    by (simp add: newBot_def)
  from sem_run_attempts [OF this, of n 0 0]
  show "\<exists>b'. sem_run (replicate n TryAcquire) (0, 0, newBot nick dbg owner ua)
             = Some (min n 128, 0, b')"
    by (simp add: newBot_def concurrencyLimit_def)
next
  assume full: "capacity (semaphore irc) = concurrencyLimit
                \<and> length (queue (semaphore irc)) = 128"
  then have eq: "length (queue (semaphore irc)) = capacity (semaphore irc)"
    by (simp add: concurrencyLimit_def)
  show "tryAcquireSemaphore irc = (False, irc)"
    by (rule title_not_admitted(1) [OF eq])
  show "title L w target msgid url irc
        = Some (Returned (),
                irc\<lparr>Log := Log irc
                  @ [(''concurrency limit exceeded, not titling %s\<newline>'', [S url])]\<rparr>)"
    by (rule title_not_admitted(2) [OF eq])
qed

subsection \<open>The deferred calls\<close>

lemma title_deferred_release:
  assumes "queue (semaphore irc) \<noteq> []"
  shows "\<exists>irc2 irc3.
           semaphore irc2 = semaphore irc
         \<and> releaseSemaphore irc2 = Some irc3
         \<and> title_deferred w url (result, irc) = Some (Returned (), irc3)
         \<and> queue (semaphore irc3) = tl (queue (semaphore irc))
         \<and> capacity (semaphore irc3) = capacity (semaphore irc)
         \<and> sent irc3 = sent irc
         \<and> (\<forall>v. result = Panicked v \<longrightarrow>
                last (Log irc3)
                = (''Caught panic in callback: %v\<newline>%s'', [V v, S (Stack w)]))"
proof -
  define irc1 where "irc1 = (if Debug irc
      then Printf irc ''Titled %s in %v\<newline>'' [S url, D (Sub (now_done w) (now_start w))]
      else irc)"
  define irc2 where "irc2 = (case result of
      Panicked r \<Rightarrow> Printf irc1 ''Caught panic in callback: %v\<newline>%s'' [V r, S (Stack w)]
    | Returned u \<Rightarrow> irc1)"
  have sem1: "semaphore irc1 = semaphore irc" and sent1: "sent irc1 = sent irc"
    by (simp_all add: irc1_def)
  have sem2: "semaphore irc2 = semaphore irc" and sent2: "sent irc2 = sent irc"
    using sem1 sent1 by (simp_all add: irc2_def split: outcome.split)
  have log2: "\<forall>v. result = Panicked v \<longrightarrow>
      last (Log irc2) = (''Caught panic in callback: %v\<newline>%s'', [V v, S (Stack w)])"
    by (simp add: irc2_def)
  from assms sem2 obtain x rest where q: "queue (semaphore irc2) = x # rest"
    by (cases "queue (semaphore irc2)") simp_all
  define irc3 where "irc3 = irc2\<lparr>semaphore := (semaphore irc2)\<lparr>queue := rest\<rparr>\<rparr>"
  have rel: "releaseSemaphore irc2 = Some irc3"
    by (simp add: releaseSemaphore_def q irc3_def)
  have td: "title_deferred w url (result, irc) = Some (Returned (), irc3)"
    using rel
    by (cases result) (simp_all add: title_deferred_def Let_def irc1_def irc2_def)
  have "queue (semaphore irc3) = tl (queue (semaphore irc))"
    using q sem2 by (simp add: irc3_def)
  moreover have "capacity (semaphore irc3) = capacity (semaphore irc)"
    using sem2 by (simp add: irc3_def)
  moreover have "sent irc3 = sent irc"
    using sent2 by (simp add: irc3_def)
  moreover have "Log irc3 = Log irc2"
    by (simp add: irc3_def)
  ultimately show ?thesis
    using sem2 rel td log2 by auto
qed

lemma tryAcquire_True:
  assumes "fst (tryAcquireSemaphore irc)"
  shows "queue (semaphore (snd (tryAcquireSemaphore irc))) = queue (semaphore irc) @ [()]"
    and "capacity (semaphore (snd (tryAcquireSemaphore irc))) = capacity (semaphore irc)"
    and "tryAcquireSemaphore irc = (True, snd (tryAcquireSemaphore irc))"
  using assms by (auto simp: tryAcquireSemaphore_def split: if_splits)

lemma title_acquired:
  assumes acq: "fst (tryAcquireSemaphore irc)"
  shows "\<exists>irc2 irc3.
           title L w target msgid url irc = Some (Returned (), irc3)
         \<and> semaphore irc2 = semaphore (snd (tryAcquireSemaphore irc))
         \<and> releaseSemaphore irc2 = Some irc3
         \<and> semaphore irc3 = semaphore irc
         \<and> (\<forall>v. fst (title_body L w target msgid url (snd (tryAcquireSemaphore irc)))
                  = Panicked v \<longrightarrow>
                last (Log irc3)
                = (''Caught panic in callback: %v\<newline>%s'', [V v, S (Stack w)]))"
proof -
  define irc1 where "irc1 = snd (tryAcquireSemaphore irc)"
  obtain result ircb where body: "title_body L w target msgid url irc1 = (result, ircb)"
    by (cases "title_body L w target msgid url irc1")
  have semb: "semaphore ircb = semaphore irc1"
    using title_body_semaphore [of L w target msgid url irc1] body by simp
  have q1: "queue (semaphore irc1) = queue (semaphore irc) @ [()]"
    and c1: "capacity (semaphore irc1) = capacity (semaphore irc)"
    and t1: "tryAcquireSemaphore irc = (True, irc1)"
    using tryAcquire_True [OF acq] by (simp_all add: irc1_def)
  have ne: "queue (semaphore ircb) \<noteq> []"
    using semb q1 by simp
  from title_deferred_release [OF ne, of w url result] obtain irc2 irc3 where
    s2: "semaphore irc2 = semaphore ircb" and
    rel: "releaseSemaphore irc2 = Some irc3" and
    td: "title_deferred w url (result, ircb) = Some (Returned (), irc3)" and
    q3: "queue (semaphore irc3) = tl (queue (semaphore ircb))" and
    c3: "capacity (semaphore irc3) = capacity (semaphore ircb)" and
    lg: "\<forall>v. result = Panicked v \<longrightarrow>
           last (Log irc3) = (''Caught panic in callback: %v\<newline>%s'', [V v, S (Stack w)])"
    by blast
  have t: "title L w target msgid url irc = Some (Returned (), irc3)"
    by (simp add: title_def t1 body td)
  have "length (queue (semaphore irc3)) = length (queue (semaphore irc))"
    using q3 semb q1 by simp
  then have "queue (semaphore irc3) = queue (semaphore irc)"
    by (rule unit_list_eq [THEN iffD2])
  moreover have "capacity (semaphore irc3) = capacity (semaphore irc)"
    using c3 semb c1 by simp
  ultimately have s3: "semaphore irc3 = semaphore irc"
    by (rule_tac chan.equality) simp_all
  have "semaphore irc2 = semaphore (snd (tryAcquireSemaphore irc))"
    using s2 semb by (simp add: irc1_def)
  with t rel s3 lg body show ?thesis
    by (auto simp: irc1_def)
qed

lemma title_returns: "\<exists>irc'. title L w target msgid url irc = Some (Returned (), irc')"
proof (cases "fst (tryAcquireSemaphore irc)")
  case True
  from title_acquired [OF True, of L w target msgid url] show ?thesis by blast
next
  case False
  then show ?thesis
    by (cases "tryAcquireSemaphore irc") (simp add: title_def)
qed

text \<open>
  Claim C4.  When the acquire at the start of \<open>title\<close> succeeds, \<open>title\<close> returns
  normally whatever the body does (it returns, returns early or panics); its final
  state comes from exactly one release, applied to a state whose semaphore is still as
  the acquire left it, so the semaphore ends as it was before the acquire.  When the
  body panics with a value, the last log entry is the line of the recovering function
  with that value and the stack trace.  The second half says the same of the deferred
  calls for any outcome and any state of the body that holds a slot.
\<close>

theorem C4_release_on_every_exit:
  "(fst (tryAcquireSemaphore irc) \<longrightarrow>
      (\<exists>irc2 irc3.
           title L w target msgid url irc = Some (Returned (), irc3)
         \<and> semaphore irc2 = semaphore (snd (tryAcquireSemaphore irc))
         \<and> releaseSemaphore irc2 = Some irc3
         \<and> semaphore irc3 = semaphore irc
         \<and> (\<forall>v. fst (title_body L w target msgid url (snd (tryAcquireSemaphore irc)))
                  = Panicked v \<longrightarrow>
                last (Log irc3)
                = (''Caught panic in callback: %v\<newline>%s'', [V v, S (Stack w)]))))
   \<and> (queue (semaphore ircb) \<noteq> [] \<longrightarrow>
      (\<exists>irc2 irc3.
           semaphore irc2 = semaphore ircb
         \<and> releaseSemaphore irc2 = Some irc3
         \<and> title_deferred w url (result, ircb) = Some (Returned (), irc3)
         \<and> queue (semaphore irc3) = tl (queue (semaphore ircb))
         \<and> capacity (semaphore irc3) = capacity (semaphore ircb)
         \<and> sent irc3 = sent ircb
         \<and> (\<forall>v. result = Panicked v \<longrightarrow>
                last (Log irc3)
                = (''Caught panic in callback: %v\<newline>%s'', [V v, S (Stack w)]))))"
proof (intro conjI impI)
  assume "fst (tryAcquireSemaphore irc)"
  then show "\<exists>irc2 irc3.
           title L w target msgid url irc = Some (Returned (), irc3)
         \<and> semaphore irc2 = semaphore (snd (tryAcquireSemaphore irc))
         \<and> releaseSemaphore irc2 = Some irc3
         \<and> semaphore irc3 = semaphore irc
         \<and> (\<forall>v. fst (title_body L w target msgid url (snd (tryAcquireSemaphore irc)))
                  = Panicked v \<longrightarrow>
                last (Log irc3)
                = (''Caught panic in callback: %v\<newline>%s'', [V v, S (Stack w)]))"
    by (rule title_acquired)
next
  assume "queue (semaphore ircb) \<noteq> []"
  then show "\<exists>irc2 irc3.
           semaphore irc2 = semaphore ircb
         \<and> releaseSemaphore irc2 = Some irc3
         \<and> title_deferred w url (result, ircb) = Some (Returned (), irc3)
         \<and> queue (semaphore irc3) = tl (queue (semaphore ircb))
         \<and> capacity (semaphore irc3) = capacity (semaphore ircb)
         \<and> sent irc3 = sent ircb
         \<and> (\<forall>v. result = Panicked v \<longrightarrow>
                last (Log irc3)
                = (''Caught panic in callback: %v\<newline>%s'', [V v, S (Stack w)]))"
    by (rule title_deferred_release)
qed

subsection \<open>Dispatcher\<close>

lemma titleAll_take:
  "titleAll L W target msgid urls irc
   = titleAll_loop L W 0 target msgid (take maxUrlsPerMessage urls) irc"
  by (simp add: titleAll_def)

lemma titleAll_loop_full:
  "length (queue (semaphore irc)) = capacity (semaphore irc) \<Longrightarrow>
   titleAll_loop L W n target msgid us irc
   = Some (Returned (),
           irc\<lparr>Log := Log irc
             @ map (\<lambda>u. (''concurrency limit exceeded, not titling %s\<newline>'', [S u])) us\<rparr>)"
proof (induction us arbitrary: n irc)
  case Nil
  show ?case by simp
next
  case (Cons u us)
  let ?irc1 = "irc\<lparr>Log := Log irc
                 @ [(''concurrency limit exceeded, not titling %s\<newline>'', [S u])]\<rparr>"
  have t: "title L (W n) target msgid u irc = Some (Returned (), ?irc1)"
    by (rule title_not_admitted(2) [OF Cons.prems])
  have full1: "length (queue (semaphore ?irc1)) = capacity (semaphore ?irc1)"
    using Cons.prems by simp
  show ?case
    by (simp add: t Cons.IH [OF full1])
qed

lemma titleAll_loop_four:
  "\<exists>irc1 irc2 irc3 irc4.
      title L (W n) target msgid u1 irc = Some (Returned (), irc1)
    \<and> title L (W (n + 1)) target msgid u2 irc1 = Some (Returned (), irc2)
    \<and> title L (W (n + 2)) target msgid u3 irc2 = Some (Returned (), irc3)
    \<and> title L (W (n + 3)) target msgid u4 irc3 = Some (Returned (), irc4)
    \<and> titleAll_loop L W n target msgid [u1, u2, u3, u4] irc = Some (Returned (), irc4)"
proof -
  obtain irc1 where t1: "title L (W n) target msgid u1 irc = Some (Returned (), irc1)"
    using title_returns by blast
  obtain irc2 where t2: "title L (W (n + 1)) target msgid u2 irc1 = Some (Returned (), irc2)"
    using title_returns by blast
  obtain irc3 where t3: "title L (W (n + 2)) target msgid u3 irc2 = Some (Returned (), irc3)"
    using title_returns by blast
  obtain irc4 where t4: "title L (W (n + 3)) target msgid u4 irc3 = Some (Returned (), irc4)"
    using title_returns by blast
  have "titleAll_loop L W n target msgid [u1, u2, u3, u4] irc = Some (Returned (), irc4)"
    using t1 t2 t3 t4 by (simp add: numeral_eq_Suc)
  with t1 t2 t3 t4 show ?thesis by blast
qed

text \<open>
  Claim C9.  The dispatcher runs the pipelines of the first 4 URLs, in their order,
  and nothing for the others: its result is that of the loop over \<open>take 4 urls\<close>.
  With 6 URLs exactly the pipelines of the first four run, each returning normally,
  and the final state is the one the fourth leaves.  The dropped URLs leave no trace:
  when no slot is free, the log grows by one entry for each of the first four URLs
  and by nothing else.
\<close>

theorem C9_first_four_urls:
  "titleAll L W target msgid urls irc = titleAll_loop L W 0 target msgid (take 4 urls) irc
   \<and> length (take 4 urls) = min 4 (length urls)
   \<and> (\<exists>irc1 irc2 irc3 irc4.
          title L (W 0) target msgid u1 irc = Some (Returned (), irc1)
        \<and> title L (W 1) target msgid u2 irc1 = Some (Returned (), irc2)
        \<and> title L (W 2) target msgid u3 irc2 = Some (Returned (), irc3)
        \<and> title L (W 3) target msgid u4 irc3 = Some (Returned (), irc4)
        \<and> titleAll L W target msgid [u1, u2, u3, u4, u5, u6] irc = Some (Returned (), irc4))
   \<and> (length (queue (semaphore irc)) = capacity (semaphore irc) \<longrightarrow>
        titleAll L W target msgid urls irc
        = Some (Returned (),
                irc\<lparr>Log := Log irc
                  @ map (\<lambda>u. (''concurrency limit exceeded, not titling %s\<newline>'', [S u]))
                      (take 4 urls)\<rparr>))"
proof (intro conjI impI)
  show "titleAll L W target msgid urls irc = titleAll_loop L W 0 target msgid (take 4 urls) irc"
    by (simp add: titleAll_take maxUrlsPerMessage_def)
  show "length (take 4 urls) = min 4 (length urls)"
    by (simp add: min.commute)
  have tk: "take maxUrlsPerMessage [u1, u2, u3, u4, u5, u6] = [u1, u2, u3, u4]"
    by (simp add: maxUrlsPerMessage_def)
  show "\<exists>irc1 irc2 irc3 irc4.
          title L (W 0) target msgid u1 irc = Some (Returned (), irc1)
        \<and> title L (W 1) target msgid u2 irc1 = Some (Returned (), irc2)
        \<and> title L (W 2) target msgid u3 irc2 = Some (Returned (), irc3)
        \<and> title L (W 3) target msgid u4 irc3 = Some (Returned (), irc4)
        \<and> titleAll L W target msgid [u1, u2, u3, u4, u5, u6] irc = Some (Returned (), irc4)"
    unfolding titleAll_take tk
    by (rule titleAll_loop_four [of L W 0 target msgid u1 irc u2 u3 u4, unfolded add_0])
next
  assume "length (queue (semaphore irc)) = capacity (semaphore irc)"
  then show "titleAll L W target msgid urls irc
        = Some (Returned (),
                irc\<lparr>Log := Log irc
                  @ map (\<lambda>u. (''concurrency limit exceeded, not titling %s\<newline>'', [S u]))
                      (take 4 urls)\<rparr>)"
    by (simp add: titleAll_take maxUrlsPerMessage_def titleAll_loop_full)
qed

subsection \<open>The pipeline at the sample environments\<close>

lemma sample_bot_acquire:
  "tryAcquireSemaphore sample_bot
   = (True, sample_bot\<lparr>semaphore := \<lparr>capacity = 128, queue = [()]\<rparr>\<rparr>)"
  by (simp add: tryAcquireSemaphore_def sample_bot_def newBot_def concurrencyLimit_def)

lemma extract_example_org: "extractBlueskyData ''http://example.org/'' = ('''', '''')"
  by code_simp

lemma not_garbage_example_org: "\<not> isGarbageJSDomain ''example.org''"
  by (simp add: isGarbageJSDomain_def garbageJSDomains_def domainMatch_def TrimSuffix_def
      HasSuffix_def)

lemma sample_analyzeURL:
  "analyzeURL sample_lib ''http://example.org/'' = Inr (genericTitleReadLimit, genericTitleRe)"
  by (simp add: analyzeURL_def sample_lib_def not_garbage_example_org)

lemma sample_body_panics:
  "title_body sample_lib world_panic ''#chan'' '''' ''http://example.org/'' irc
   = (Panicked ''boom'', irc)"
  by (simp add: title_body_def extract_example_org titleGeneric_def sample_analyzeURL)
     (simp add: sample_lib_def world_panic_def)

theorem C3_admission_bounded_witness:
  "sem_run [TryAcquire, TryAcquire, Release] (0, 0, sample_bot)
     = Some (2, 1, sample_bot\<lparr>semaphore := \<lparr>capacity = 128, queue = [()]\<rparr>\<rparr>)
   \<and> int 2 - int 1 = int (length (queue (semaphore
         (sample_bot\<lparr>semaphore := \<lparr>capacity = 128, queue = [()]\<rparr>\<rparr>))))
   \<and> int 2 - int 1 \<le> (128 :: int)
   \<and> capacity (semaphore busy_bot) = concurrencyLimit
   \<and> length (queue (semaphore busy_bot)) = 128
   \<and> tryAcquireSemaphore busy_bot = (False, busy_bot)
   \<and> title sample_lib world_404 ''#chan'' '''' ''http://example.org/'' busy_bot
       = Some (Returned (),
               busy_bot\<lparr>Log := Log busy_bot
                 @ [(''concurrency limit exceeded, not titling %s\<newline>'',
                     [S ''http://example.org/''])]\<rparr>)"
proof -
  let ?b = "sample_bot\<lparr>semaphore := \<lparr>capacity = 128, queue = [()]\<rparr>\<rparr>"
  have run: "sem_run [TryAcquire, TryAcquire, Release] (0, 0, sample_bot) = Some (2, 1, ?b)"
    by (simp add: tryAcquireSemaphore_def releaseSemaphore_def sample_bot_def newBot_def
        concurrencyLimit_def)
  have full: "capacity (semaphore busy_bot) = concurrencyLimit
              \<and> length (queue (semaphore busy_bot)) = 128"
    by (simp add: busy_bot_def)
  note inst = C3_admission_bounded [of "[TryAcquire, TryAcquire, Release]" "''titlebot''" False
      "''''" "''Mozilla/5.0''" 2 1 ?b 0 busy_bot sample_lib world_404 "''#chan''" "''''"
      "''http://example.org/''", folded sample_bot_def]
  from inst [THEN conjunct1, THEN mp, OF run]
  have a: "int 2 - int 1 = int (length (queue (semaphore ?b)))" and b: "int 2 - int 1 \<le> (128::int)"
    by simp_all
  from inst [THEN conjunct2, THEN conjunct2, THEN mp, OF full]
  have c: "tryAcquireSemaphore busy_bot = (False, busy_bot)"
    and d: "title sample_lib world_404 ''#chan'' '''' ''http://example.org/'' busy_bot
       = Some (Returned (),
               busy_bot\<lparr>Log := Log busy_bot
                 @ [(''concurrency limit exceeded, not titling %s\<newline>'',
                     [S ''http://example.org/''])]\<rparr>)"
    by simp_all
  show ?thesis
    using run a b full c d by (intro conjI) simp_all
qed

theorem C4_release_on_every_exit_witness:
  "fst (tryAcquireSemaphore sample_bot)
   \<and> fst (title_body sample_lib world_panic ''#chan'' '''' ''http://example.org/''
            (snd (tryAcquireSemaphore sample_bot))) = Panicked ''boom''
   \<and> (\<exists>irc3.
         title sample_lib world_panic ''#chan'' '''' ''http://example.org/'' sample_bot
           = Some (Returned (), irc3)
       \<and> semaphore irc3 = semaphore sample_bot
       \<and> last (Log irc3)
           = (''Caught panic in callback: %v\<newline>%s'', [V ''boom'', S (Stack world_panic)]))
   \<and> queue (semaphore (snd (tryAcquireSemaphore sample_bot))) \<noteq> []
   \<and> (\<exists>irc3.
         title_deferred world_panic ''http://example.org/''
           (Panicked ''boom'', snd (tryAcquireSemaphore sample_bot))
           = Some (Returned (), irc3)
       \<and> queue (semaphore irc3) = []
       \<and> last (Log irc3)
           = (''Caught panic in callback: %v\<newline>%s'', [V ''boom'', S (Stack world_panic)]))"
proof -
  have acq: "fst (tryAcquireSemaphore sample_bot)"
    by (simp add: sample_bot_acquire)
  have body: "fst (title_body sample_lib world_panic ''#chan'' '''' ''http://example.org/''
            (snd (tryAcquireSemaphore sample_bot))) = Panicked ''boom''"
    by (simp add: sample_body_panics)
  have ne: "queue (semaphore (snd (tryAcquireSemaphore sample_bot))) \<noteq> []"
    by (simp add: sample_bot_acquire)
  have tl: "tl (queue (semaphore (snd (tryAcquireSemaphore sample_bot)))) = []"
    by (simp add: sample_bot_acquire)
  note inst = C4_release_on_every_exit [of sample_bot sample_lib world_panic "''#chan''" "''''"
      "''http://example.org/''" "snd (tryAcquireSemaphore sample_bot)" "Panicked ''boom''"]
  from inst [THEN conjunct1, THEN mp, OF acq] body
  have one: "\<exists>irc3.
         title sample_lib world_panic ''#chan'' '''' ''http://example.org/'' sample_bot
           = Some (Returned (), irc3)
       \<and> semaphore irc3 = semaphore sample_bot
       \<and> last (Log irc3)
           = (''Caught panic in callback: %v\<newline>%s'', [V ''boom'', S (Stack world_panic)])"
    by auto
  from inst [THEN conjunct2, THEN mp, OF ne] tl
  have two: "\<exists>irc3.
         title_deferred world_panic ''http://example.org/''
           (Panicked ''boom'', snd (tryAcquireSemaphore sample_bot))
           = Some (Returned (), irc3)
       \<and> queue (semaphore irc3) = []
       \<and> last (Log irc3)
           = (''Caught panic in callback: %v\<newline>%s'', [V ''boom'', S (Stack world_panic)])"
    by auto
  from acq body one ne two show ?thesis
    by (intro conjI)
qed

theorem C9_first_four_urls_witness:
  "length (take 4 [''http://a/'', ''http://b/'', ''http://c/'', ''http://d/'', ''http://e/'',
                    ''http://f/'']) = 4
   \<and> length (queue (semaphore busy_bot)) = capacity (semaphore busy_bot)
   \<and> titleAll sample_lib (\<lambda>n. world_404) ''#chan'' ''''
        [''http://a/'', ''http://b/'', ''http://c/'', ''http://d/'', ''http://e/'', ''http://f/'']
        busy_bot
      = Some (Returned (),
              busy_bot\<lparr>Log := Log busy_bot
                @ [(''concurrency limit exceeded, not titling %s\<newline>'', [S ''http://a/'']),
                   (''concurrency limit exceeded, not titling %s\<newline>'', [S ''http://b/'']),
                   (''concurrency limit exceeded, not titling %s\<newline>'', [S ''http://c/'']),
                   (''concurrency limit exceeded, not titling %s\<newline>'', [S ''http://d/''])]\<rparr>)"
proof -
  let ?urls = "[''http://a/'', ''http://b/'', ''http://c/'', ''http://d/'', ''http://e/'',
                ''http://f/'']"
  have full: "length (queue (semaphore busy_bot)) = capacity (semaphore busy_bot)"
    by (simp add: busy_bot_def concurrencyLimit_def)
  note inst = C9_first_four_urls [of sample_lib "\<lambda>n. world_404" "''#chan''" "''''" ?urls
      busy_bot "''http://a/''" "''http://b/''" "''http://c/''" "''http://d/''" "''http://e/''"
      "''http://f/''"]
  from inst [THEN conjunct2, THEN conjunct1]
  have len: "length (take 4 ?urls) = 4" by simp
  from inst [THEN conjunct2, THEN conjunct2, THEN conjunct2, THEN mp, OF full]
  have run: "titleAll sample_lib (\<lambda>n. world_404) ''#chan'' '''' ?urls busy_bot
      = Some (Returned (),
              busy_bot\<lparr>Log := Log busy_bot
                @ [(''concurrency limit exceeded, not titling %s\<newline>'', [S ''http://a/'']),
                   (''concurrency limit exceeded, not titling %s\<newline>'', [S ''http://b/'']),
                   (''concurrency limit exceeded, not titling %s\<newline>'', [S ''http://c/'']),
                   (''concurrency limit exceeded, not titling %s\<newline>'', [S ''http://d/''])]\<rparr>)"
    by simp
  from len full run show ?thesis by (intro conjI)
qed

section \<open>Social resolver\<close>

lemma resolve_non200:
  assumes "Get w (resolveHandle_url handle) = Responded r" and "StatusCode r \<noteq> 200"
  shows "resolveBlueskyHandle L w handle irc
         = (Returned '''',
            Printf irc ''Can't resolve bsky handle %s : HTTP code %d\<newline>''
              [S handle, I (StatusCode r)])"
  using assms by (simp add: resolveBlueskyHandle_def resolveHandle_url_def)

lemma resolve_bad_json:
  assumes "Get w (resolveHandle_url handle) = Responded r" and "StatusCode r = 200"
    and "Decode_ResolveHandleResponse L (LimitedReader (Body r) trustedReadLimit) = Inl e"
  shows "resolveBlueskyHandle L w handle irc
         = (Returned '''',
            Printf irc ''%s: %v'' [S ''Invalid JSON from bsky handle resolve'', E (Some e)])"
  using assms by (simp add: resolveBlueskyHandle_def resolveHandle_url_def)

lemma resolve_ok:
  assumes "identity_resolved L w handle did"
  shows "resolveBlueskyHandle L w handle irc = (Returned did, irc)"
  using assms
  by (auto simp: identity_resolved_def resolveBlueskyHandle_def resolveHandle_url_def
      split: http_result.splits)

lemma getPost_non200:
  assumes "Get w (getRecord_url did postid) = Responded r" and "StatusCode r \<noteq> 200"
  shows "getBlueskyPost L w did postid irc
         = (Returned (zero_BlueskyPostRecord, None),
            Printf irc ''Can't resolve bsky handle %s : HTTP code %d\<newline>''
              [S did, I (StatusCode r)])"
  using assms by (simp add: getBlueskyPost_def getRecord_url_def)

lemma getPost_bad_json:
  assumes "Get w (getRecord_url did postid) = Responded r" and "StatusCode r = 200"
    and "Decode_GetRecordResponse L (LimitedReader (Body r) trustedReadLimit) = Inl e"
  shows "getBlueskyPost L w did postid irc
         = (Returned (zero_BlueskyPostRecord, None),
            Printf (Printf irc ''%s: %v'' [S ''Invalid JSON from bsky post lookup'', E (Some e)])
              ''Invalid JSON from bsky getRecord: %v'' [E None])"
  using assms by (simp add: getBlueskyPost_def getRecord_url_def)

lemma getPost_ok:
  assumes "record_found L w did postid record"
  shows "getBlueskyPost L w did postid irc = (Returned (record, None), irc)"
  using assms
  by (auto simp: record_found_def getBlueskyPost_def getRecord_url_def
      split: http_result.splits)

lemma titleBluesky_after_resolve:
  assumes "resolveBlueskyHandle L w handle irc = (Returned did, irc1)" and "did \<noteq> ''''"
    and "getBlueskyPost L w did postid irc1 = (Returned (record, None), irc2)"
  shows "titleBluesky L w target msgid handle postid irc
         = (case time_Parse L IRCv3TimestampFormat (CreatedAt record) of
              Inl perr \<Rightarrow>
                (Returned (),
                 Printf irc2 ''%s: %v'' [S ''invalid time created in bsky post'', E (Some perr)])
            | Inr ts \<Rightarrow>
                (Returned (),
                 sendReplyNotice irc2 target msgid
                   (''(@'' @ handle @ '', ''
                    @ displayTwitterTime (time_Format L) (now_display w) ts @ '') ''
                    @ SanitizeText L (Text record) titleCharLimit)))"
  using assms by (simp add: titleBluesky_def Let_def split: sum.split)

lemma aborts_Printf:
  "sent irc' = sent irc \<Longrightarrow> length (Log irc) \<le> length (Log irc') \<Longrightarrow>
   aborts_with_log irc (Returned (), Printf irc' f a)"
  by (simp add: aborts_with_log_def)

lemma resolve_cases:
  assumes "resolveBlueskyHandle L w handle irc = (r, irc1)"
  shows "sent irc1 = sent irc"
    and "r = Returned did \<Longrightarrow> did \<noteq> '''' \<Longrightarrow> identity_resolved L w handle did \<and> irc1 = irc"
  using assms
  by (auto simp: resolveBlueskyHandle_def resolveHandle_url_def identity_resolved_def
      split: http_result.splits sum.splits if_splits)

lemma getPost_cases:
  assumes "getBlueskyPost L w did postid irc = (r, irc2)"
  shows "sent irc2 = sent irc"
    and "r = Returned (record, None) \<Longrightarrow>
         (record_found L w did postid record \<and> irc2 = irc) \<or> record = zero_BlueskyPostRecord"
  using assms
  by (auto simp: getBlueskyPost_def getRecord_url_def record_found_def
      split: http_result.splits sum.splits if_splits)

lemma titleBluesky_emits_only_on_success:
  assumes parse_empty: "time_Parse L IRCv3TimestampFormat '''' = Inl pe"
    and emitted: "sent (snd (titleBluesky L w target msgid handle postid irc)) \<noteq> sent irc"
  shows "\<exists>did record ts.
           identity_resolved L w handle did
         \<and> record_found L w did postid record
         \<and> time_Parse L IRCv3TimestampFormat (CreatedAt record) = Inr ts
         \<and> titleBluesky L w target msgid handle postid irc
             = (Returned (),
                sendReplyNotice irc target msgid
                  (''(@'' @ handle @ '', ''
                   @ displayTwitterTime (time_Format L) (now_display w) ts @ '') ''
                   @ SanitizeText L (Text record) titleCharLimit))"
proof -
  obtain r irc1 where res: "resolveBlueskyHandle L w handle irc = (r, irc1)"
    by (cases "resolveBlueskyHandle L w handle irc")
  note s1 = resolve_cases(1) [OF res]
  show ?thesis
  proof (cases r)
    case (Panicked v)
    with res s1 emitted show ?thesis by (simp add: titleBluesky_def)
  next
    case (Returned did)
    show ?thesis
    proof (cases "did = ''''")
      case True
      with Returned res s1 emitted show ?thesis by (simp add: titleBluesky_def)
    next
      case False
      from resolve_cases(2) [OF res Returned False]
      have idr: "identity_resolved L w handle did" and irc1: "irc1 = irc" by simp_all
      obtain r2 irc2 where gp: "getBlueskyPost L w did postid irc = (r2, irc2)"
        by (cases "getBlueskyPost L w did postid irc")
      note s2 = getPost_cases(1) [OF gp]
      show ?thesis
      proof (cases r2)
        case (Panicked v)
        with res Returned False irc1 gp s2 emitted show ?thesis
          by (simp add: titleBluesky_def)
      next
        case r2: (Returned pr)
        obtain post err where pr: "pr = (post, err)" by (cases pr)
        show ?thesis
        proof (cases err)
          case (Some e)
          with res Returned False irc1 gp r2 pr s2 emitted show ?thesis
            by (simp add: titleBluesky_def)
        next
          case None
          have tb: "titleBluesky L w target msgid handle postid irc
            = (case time_Parse L IRCv3TimestampFormat (CreatedAt post) of
                 Inl perr \<Rightarrow>
                   (Returned (),
                    Printf irc2 ''%s: %v''
                      [S ''invalid time created in bsky post'', E (Some perr)])
               | Inr ts \<Rightarrow>
                   (Returned (),
                    sendReplyNotice irc2 target msgid
                      (''(@'' @ handle @ '', ''
                       @ displayTwitterTime (time_Format L) (now_display w) ts @ '') ''
                       @ SanitizeText L (Text post) titleCharLimit)))"
            by (rule titleBluesky_after_resolve [OF res [unfolded Returned] False])
               (simp add: irc1 gp r2 pr None)
          show ?thesis
          proof (cases "time_Parse L IRCv3TimestampFormat (CreatedAt post)")
            case (Inl perr)
            with tb s2 emitted show ?thesis by simp
          next
            case (Inr ts)
            from getPost_cases(2) [OF gp, of post] r2 pr None
            have "(record_found L w did postid post \<and> irc2 = irc)
                  \<or> post = zero_BlueskyPostRecord"
              by simp
            then show ?thesis
            proof
              assume "record_found L w did postid post \<and> irc2 = irc"
              with idr Inr tb show ?thesis by auto
            next
              assume "post = zero_BlueskyPostRecord"
              with Inr parse_empty show ?thesis
                by (simp add: zero_BlueskyPostRecord_def)
            qed
          qed
        qed
      qed
    qed
  qed
qed

text \<open>
  Claim C7.  In the social resolver each of these failures ends the resolution with at
  least one new log entry and no message sent: a response other than 200 or a body
  that does not decode from the identity resolution; a response other than 200 or a
  body that does not decode from the record lookup; a creation timestamp that does not
  parse.  After a failed record lookup \<^verbatim>\<open>getBlueskyPost\<close> returns the zero record and a
  \<^verbatim>\<open>nil\<close> error, and it is the parse of the empty timestamp that ends the resolution;
  the statements about the record lookup therefore assume, as \<^verbatim>\<open>time.Parse\<close> does,
  that the empty string is rejected.  Under the same assumption a message is sent only
  when both calls and the parse succeed, and it is then the rendered post.
\<close>

theorem C7_social_failures_abort:
  "(Get w (resolveHandle_url handle) = Responded r \<and> StatusCode r \<noteq> 200 \<longrightarrow>
      aborts_with_log irc (titleBluesky L w target msgid handle postid irc))
   \<and> (Get w (resolveHandle_url handle) = Responded r \<and> StatusCode r = 200
      \<and> Decode_ResolveHandleResponse L (LimitedReader (Body r) trustedReadLimit) = Inl e \<longrightarrow>
      aborts_with_log irc (titleBluesky L w target msgid handle postid irc))
   \<and> (identity_resolved L w handle did
      \<and> Get w (getRecord_url did postid) = Responded r2 \<and> StatusCode r2 \<noteq> 200
      \<and> time_Parse L IRCv3TimestampFormat '''' = Inl pe \<longrightarrow>
      aborts_with_log irc (titleBluesky L w target msgid handle postid irc))
   \<and> (identity_resolved L w handle did
      \<and> Get w (getRecord_url did postid) = Responded r2 \<and> StatusCode r2 = 200
      \<and> Decode_GetRecordResponse L (LimitedReader (Body r2) trustedReadLimit) = Inl e
      \<and> time_Parse L IRCv3TimestampFormat '''' = Inl pe \<longrightarrow>
      aborts_with_log irc (titleBluesky L w target msgid handle postid irc))
   \<and> (identity_resolved L w handle did \<and> record_found L w did postid post
      \<and> time_Parse L IRCv3TimestampFormat (CreatedAt post) = Inl pe \<longrightarrow>
      aborts_with_log irc (titleBluesky L w target msgid handle postid irc))
   \<and> (time_Parse L IRCv3TimestampFormat '''' = Inl pe
      \<and> sent (snd (titleBluesky L w target msgid handle postid irc)) \<noteq> sent irc \<longrightarrow>
      (\<exists>did post ts.
           identity_resolved L w handle did
         \<and> record_found L w did postid post
         \<and> time_Parse L IRCv3TimestampFormat (CreatedAt post) = Inr ts
         \<and> titleBluesky L w target msgid handle postid irc
             = (Returned (),
                sendReplyNotice irc target msgid
                  (''(@'' @ handle @ '', ''
                   @ displayTwitterTime (time_Format L) (now_display w) ts @ '') ''
                   @ SanitizeText L (Text post) titleCharLimit))))"
proof (intro conjI impI)
  assume "Get w (resolveHandle_url handle) = Responded r \<and> StatusCode r \<noteq> 200"
  then show "aborts_with_log irc (titleBluesky L w target msgid handle postid irc)"
    by (simp add: titleBluesky_def resolve_non200 aborts_Printf)
next
  assume "Get w (resolveHandle_url handle) = Responded r \<and> StatusCode r = 200
      \<and> Decode_ResolveHandleResponse L (LimitedReader (Body r) trustedReadLimit) = Inl e"
  then show "aborts_with_log irc (titleBluesky L w target msgid handle postid irc)"
    by (simp add: titleBluesky_def resolve_bad_json aborts_Printf)
next
  assume a: "identity_resolved L w handle did
      \<and> Get w (getRecord_url did postid) = Responded r2 \<and> StatusCode r2 \<noteq> 200
      \<and> time_Parse L IRCv3TimestampFormat '''' = Inl pe"
  then have ne: "did \<noteq> ''''" by (simp add: identity_resolved_def)
  from a have res: "resolveBlueskyHandle L w handle irc = (Returned did, irc)"
    by (simp add: resolve_ok)
  from a have gp: "getBlueskyPost L w did postid irc
      = (Returned (zero_BlueskyPostRecord, None),
         Printf irc ''Can't resolve bsky handle %s : HTTP code %d\<newline>''
           [S did, I (StatusCode r2)])"
    by (simp add: getPost_non200)
  from a show "aborts_with_log irc (titleBluesky L w target msgid handle postid irc)"
    by (simp add: titleBluesky_after_resolve [OF res ne gp] zero_BlueskyPostRecord_def
        aborts_Printf)
next
  assume a: "identity_resolved L w handle did
      \<and> Get w (getRecord_url did postid) = Responded r2 \<and> StatusCode r2 = 200
      \<and> Decode_GetRecordResponse L (LimitedReader (Body r2) trustedReadLimit) = Inl e
      \<and> time_Parse L IRCv3TimestampFormat '''' = Inl pe"
  then have ne: "did \<noteq> ''''" by (simp add: identity_resolved_def)
  from a have res: "resolveBlueskyHandle L w handle irc = (Returned did, irc)"
    by (simp add: resolve_ok)
  from a have gp: "getBlueskyPost L w did postid irc
      = (Returned (zero_BlueskyPostRecord, None),
         Printf (Printf irc ''%s: %v'' [S ''Invalid JSON from bsky post lookup'', E (Some e)])
           ''Invalid JSON from bsky getRecord: %v'' [E None])"
    by (simp add: getPost_bad_json)
  from a show "aborts_with_log irc (titleBluesky L w target msgid handle postid irc)"
    by (simp add: titleBluesky_after_resolve [OF res ne gp] zero_BlueskyPostRecord_def
        aborts_Printf)
next
  assume a: "identity_resolved L w handle did \<and> record_found L w did postid post
      \<and> time_Parse L IRCv3TimestampFormat (CreatedAt post) = Inl pe"
  then have ne: "did \<noteq> ''''" by (simp add: identity_resolved_def)
  from a have res: "resolveBlueskyHandle L w handle irc = (Returned did, irc)"
    by (simp add: resolve_ok)
  from a have gp: "getBlueskyPost L w did postid irc = (Returned (post, None), irc)"
    by (simp add: getPost_ok)
  from a show "aborts_with_log irc (titleBluesky L w target msgid handle postid irc)"
    by (simp add: titleBluesky_after_resolve [OF res ne gp] aborts_Printf)
next
  assume "time_Parse L IRCv3TimestampFormat '''' = Inl pe
      \<and> sent (snd (titleBluesky L w target msgid handle postid irc)) \<noteq> sent irc"
  then have p: "time_Parse L IRCv3TimestampFormat '''' = Inl pe"
    and s: "sent (snd (titleBluesky L w target msgid handle postid irc)) \<noteq> sent irc"
    by simp_all
  show "\<exists>did post ts.
           identity_resolved L w handle did
         \<and> record_found L w did postid post
         \<and> time_Parse L IRCv3TimestampFormat (CreatedAt post) = Inr ts
         \<and> titleBluesky L w target msgid handle postid irc
             = (Returned (),
                sendReplyNotice irc target msgid
                  (''(@'' @ handle @ '', ''
                   @ displayTwitterTime (time_Format L) (now_display w) ts @ '') ''
                   @ SanitizeText L (Text post) titleCharLimit))"
    by (rule titleBluesky_emits_only_on_success [OF p s])
qed


subsection \<open>The social resolver at the sample environments\<close>

lemma sample_parse_empty:
  "time_Parse sample_lib IRCv3TimestampFormat '''' = Inl (Error ''cannot parse'')"
  by (simp add: sample_lib_def)

lemma bsky_world_Get:
  "Get (bsky_world r1 r2) (resolveHandle_url ''alice.test'') = Responded r1"
  "Get (bsky_world r1 r2) (getRecord_url ''did:plc:abc'' ''3k'') = Responded r2"
  by (simp_all add: bsky_world_def resolveHandle_url_def getRecord_url_def blueskyAPIBase_def)

lemma sample_identity:
  "identity_resolved sample_lib (bsky_world ok_did r2) ''alice.test'' ''did:plc:abc''"
  by (simp add: identity_resolved_def bsky_world_Get)
     (simp add: ok_did_def sample_lib_def LimitedReader_def trustedReadLimit_def)

lemma sample_record:
  "record_found sample_lib (bsky_world r1 ok_record) ''did:plc:abc'' ''3k''
     \<lparr>Text = ''hi'', CreatedAt = ''2024-01-01T00:00:00.000Z''\<rparr>"
  by (simp add: record_found_def bsky_world_Get)
     (simp add: ok_record_def sample_lib_def LimitedReader_def trustedReadLimit_def)

lemma sample_undated:
  "record_found sample_lib (bsky_world r1 undated_record) ''did:plc:abc'' ''3k''
     \<lparr>Text = ''hi'', CreatedAt = ''yesterday''\<rparr>"
  by (simp add: record_found_def bsky_world_Get)
     (simp add: undated_record_def sample_lib_def LimitedReader_def trustedReadLimit_def)

lemma sample_post_sent:
  "titleBluesky sample_lib world_post ''#chan'' '''' ''alice.test'' ''3k'' sample_bot
   = (Returned (), sendReplyNotice sample_bot ''#chan'' '''' ''(@alice.test,  ago) hi'')"
proof -
  have res: "resolveBlueskyHandle sample_lib world_post ''alice.test'' sample_bot
             = (Returned ''did:plc:abc'', sample_bot)"
    unfolding world_post_def by (rule resolve_ok [OF sample_identity])
  have gp: "getBlueskyPost sample_lib world_post ''did:plc:abc'' ''3k'' sample_bot
            = (Returned (\<lparr>Text = ''hi'', CreatedAt = ''2024-01-01T00:00:00.000Z''\<rparr>, None),
               sample_bot)"
    unfolding world_post_def by (rule getPost_ok [OF sample_record])
  have ne: "''did:plc:abc'' \<noteq> ''''" by simp
  have now: "now_display world_post = 1704067200000000000"
    by (simp add: world_post_def bsky_world_def world_404_def)
  have disp: "displayTwitterTime (time_Format sample_lib) 1704067200000000000
                1704067200000000000 = '' ago''"
    by (simp add: displayTwitterTime_def Sub_def minDuration_def maxDuration_def hrd_small
        unit_defs)
  have parse: "time_Parse sample_lib IRCv3TimestampFormat ''2024-01-01T00:00:00.000Z''
               = Inr 1704067200000000000"
    by (simp add: sample_lib_def)
  have san: "SanitizeText sample_lib ''hi'' titleCharLimit = ''hi''"
    by (simp add: sample_lib_def titleCharLimit_def)
  show ?thesis
    by (simp add: titleBluesky_after_resolve [OF res ne gp] parse now disp san)
qed

theorem C7_social_failures_abort_witness:
  "aborts_with_log sample_bot
     (titleBluesky sample_lib world_404 ''#chan'' '''' ''alice.test'' ''3k'' sample_bot)
   \<and> aborts_with_log sample_bot
     (titleBluesky sample_lib (bsky_world garbage garbage) ''#chan'' '''' ''alice.test'' ''3k''
        sample_bot)
   \<and> aborts_with_log sample_bot
     (titleBluesky sample_lib (bsky_world ok_did not_found) ''#chan'' '''' ''alice.test'' ''3k''
        sample_bot)
   \<and> aborts_with_log sample_bot
     (titleBluesky sample_lib (bsky_world ok_did garbage) ''#chan'' '''' ''alice.test'' ''3k''
        sample_bot)
   \<and> aborts_with_log sample_bot
     (titleBluesky sample_lib (bsky_world ok_did undated_record) ''#chan'' '''' ''alice.test''
        ''3k'' sample_bot)
   \<and> sent (snd (titleBluesky sample_lib world_post ''#chan'' '''' ''alice.test'' ''3k''
                  sample_bot)) \<noteq> sent sample_bot
   \<and> (\<exists>did post ts.
         identity_resolved sample_lib world_post ''alice.test'' did
       \<and> record_found sample_lib world_post did ''3k'' post
       \<and> time_Parse sample_lib IRCv3TimestampFormat (CreatedAt post) = Inr ts)"
proof -
  have h1: "Get world_404 (resolveHandle_url ''alice.test'') = Responded not_found
            \<and> StatusCode not_found \<noteq> 200"
    by (simp add: world_404_def not_found_def)
  have h2: "Get (bsky_world garbage garbage) (resolveHandle_url ''alice.test'')
              = Responded garbage
            \<and> StatusCode garbage = 200
            \<and> Decode_ResolveHandleResponse sample_lib
                (LimitedReader (Body garbage) trustedReadLimit)
              = Inl (Error ''invalid character'')"
    by (simp add: bsky_world_Get)
       (simp add: garbage_def sample_lib_def LimitedReader_def trustedReadLimit_def)
  have h3: "identity_resolved sample_lib (bsky_world ok_did not_found) ''alice.test''
              ''did:plc:abc''
            \<and> Get (bsky_world ok_did not_found) (getRecord_url ''did:plc:abc'' ''3k'')
              = Responded not_found
            \<and> StatusCode not_found \<noteq> 200
            \<and> time_Parse sample_lib IRCv3TimestampFormat '''' = Inl (Error ''cannot parse'')"
    by (simp add: sample_identity bsky_world_Get sample_parse_empty) (simp add: not_found_def)
  have h4: "identity_resolved sample_lib (bsky_world ok_did garbage) ''alice.test''
              ''did:plc:abc''
            \<and> Get (bsky_world ok_did garbage) (getRecord_url ''did:plc:abc'' ''3k'')
              = Responded garbage
            \<and> StatusCode garbage = 200
            \<and> Decode_GetRecordResponse sample_lib
                (LimitedReader (Body garbage) trustedReadLimit)
              = Inl (Error ''invalid character'')
            \<and> time_Parse sample_lib IRCv3TimestampFormat '''' = Inl (Error ''cannot parse'')"
    by (simp add: sample_identity bsky_world_Get sample_parse_empty)
       (simp add: garbage_def sample_lib_def LimitedReader_def trustedReadLimit_def)
  have h5: "identity_resolved sample_lib (bsky_world ok_did undated_record) ''alice.test''
              ''did:plc:abc''
            \<and> record_found sample_lib (bsky_world ok_did undated_record) ''did:plc:abc'' ''3k''
                \<lparr>Text = ''hi'', CreatedAt = ''yesterday''\<rparr>
            \<and> time_Parse sample_lib IRCv3TimestampFormat
                (CreatedAt \<lparr>Text = ''hi'', CreatedAt = ''yesterday''\<rparr>)
              = Inl (Error ''cannot parse'')"
    by (simp add: sample_identity sample_undated) (simp add: sample_lib_def)
  have sent: "sent (snd (titleBluesky sample_lib world_post ''#chan'' '''' ''alice.test'' ''3k''
                  sample_bot)) \<noteq> sent sample_bot"
    by (simp add: sample_post_sent)
  have h6: "time_Parse sample_lib IRCv3TimestampFormat '''' = Inl (Error ''cannot parse'')
            \<and> sent (snd (titleBluesky sample_lib world_post ''#chan'' '''' ''alice.test'' ''3k''
                  sample_bot)) \<noteq> sent sample_bot"
    using sample_parse_empty sent by simp
  note c1 = C7_social_failures_abort [of world_404 "''alice.test''" not_found sample_bot
      sample_lib "''#chan''" "''''" "''3k''", THEN conjunct1, THEN mp, OF h1]
  note c2 = C7_social_failures_abort [of "bsky_world garbage garbage" "''alice.test''" garbage
      sample_bot sample_lib "''#chan''" "''''" "''3k''" "Error ''invalid character''",
      THEN conjunct2, THEN conjunct1, THEN mp, OF h2]
  note c3 = C7_social_failures_abort [of "bsky_world ok_did not_found" "''alice.test''" _
      sample_bot sample_lib "''#chan''" "''''" "''3k''" _ "''did:plc:abc''" not_found
      "Error ''cannot parse''",
      THEN conjunct2, THEN conjunct2, THEN conjunct1, THEN mp, OF h3]
  note c4 = C7_social_failures_abort [of "bsky_world ok_did garbage" "''alice.test''" _
      sample_bot sample_lib "''#chan''" "''''" "''3k''" "Error ''invalid character''"
      "''did:plc:abc''" garbage "Error ''cannot parse''",
      THEN conjunct2, THEN conjunct2, THEN conjunct2, THEN conjunct1, THEN mp, OF h4]
  note c5 = C7_social_failures_abort [of "bsky_world ok_did undated_record" "''alice.test''" _
      sample_bot sample_lib "''#chan''" "''''" "''3k''" _ "''did:plc:abc''" _
      "Error ''cannot parse''" "\<lparr>Text = ''hi'', CreatedAt = ''yesterday''\<rparr>",
      THEN conjunct2, THEN conjunct2, THEN conjunct2, THEN conjunct2, THEN conjunct1,
      THEN mp, OF h5]
  note c6 = C7_social_failures_abort [of world_post "''alice.test''" _
      sample_bot sample_lib "''#chan''" "''''" "''3k''" _ _ _ "Error ''cannot parse''",
      THEN conjunct2, THEN conjunct2, THEN conjunct2, THEN conjunct2, THEN conjunct2,
      THEN mp, OF h6]
  from c6 have c6': "\<exists>did post ts.
         identity_resolved sample_lib world_post ''alice.test'' did
       \<and> record_found sample_lib world_post did ''3k'' post
       \<and> time_Parse sample_lib IRCv3TimestampFormat (CreatedAt post) = Inr ts"
    by blast
  from c1 c2 c3 c4 c5 sent c6' show ?thesis by (intro conjI)
qed


section \<open>The empty duration\<close>

lemma Sub_not_after: "now \<le> t \<Longrightarrow> Sub now t \<le> 0"
  by (simp add: Sub_def minDuration_def maxDuration_def Let_def)

lemma display_small: "Sub now t \<le> Millisecond \<Longrightarrow> displayTwitterTime F now t = '' ago''"
proof -
  assume a: "Sub now t \<le> Millisecond"
  then have "\<not> Sub now t > 7 * 24 * Hour"
    by (simp add: unit_defs)
  with a show ?thesis
    by (simp add: displayTwitterTime_def hrd_small)
qed

text \<open>
  Claim C10.  For every duration of at most one millisecond, zero and negative ones
  included, \<open>humanReadableDuration\<close> returns the empty string, since no unit is
  exceeded.  So \<open>displayTwitterTime\<close> returns \<open>" ago"\<close> whenever the elapsed time is
  at most one millisecond, in particular when the creation time is the current time or
  later, and the social resolver then sends the line
  \<open>(@handle,  ago) text\<close> with an empty time field.
\<close>

theorem C10_empty_duration:
  "(d \<le> Millisecond \<longrightarrow> humanReadableDuration d = '''')
   \<and> (Sub now t \<le> Millisecond \<longrightarrow> displayTwitterTime F now t = '' ago'')
   \<and> (now \<le> t \<longrightarrow> displayTwitterTime F now t = '' ago'')
   \<and> (identity_resolved L w handle did \<and> record_found L w did postid post
      \<and> time_Parse L IRCv3TimestampFormat (CreatedAt post) = Inr ts
      \<and> Sub (now_display w) ts \<le> Millisecond \<longrightarrow>
      titleBluesky L w target msgid handle postid irc
      = (Returned (),
         sendReplyNotice irc target msgid
           (''(@'' @ handle @ '',  ago) '' @ SanitizeText L (Text post) titleCharLimit)))"
proof (intro conjI impI)
  assume "d \<le> Millisecond"
  then show "humanReadableDuration d = ''''" by (rule hrd_small)
next
  assume "Sub now t \<le> Millisecond"
  then show "displayTwitterTime F now t = '' ago''" by (rule display_small)
next
  assume "now \<le> t"
  then have "Sub now t \<le> 0" by (rule Sub_not_after)
  then have "Sub now t \<le> Millisecond" by (simp add: unit_defs)
  then show "displayTwitterTime F now t = '' ago''" by (rule display_small)
next
  assume a: "identity_resolved L w handle did \<and> record_found L w did postid post
      \<and> time_Parse L IRCv3TimestampFormat (CreatedAt post) = Inr ts
      \<and> Sub (now_display w) ts \<le> Millisecond"
  then have ne: "did \<noteq> ''''" by (simp add: identity_resolved_def)
  from a have res: "resolveBlueskyHandle L w handle irc = (Returned did, irc)"
    by (simp add: resolve_ok)
  from a have gp: "getBlueskyPost L w did postid irc = (Returned (post, None), irc)"
    by (simp add: getPost_ok)
  from a have disp: "displayTwitterTime (time_Format L) (now_display w) ts = '' ago''"
    by (simp add: display_small)
  from a show "titleBluesky L w target msgid handle postid irc
      = (Returned (),
         sendReplyNotice irc target msgid
           (''(@'' @ handle @ '',  ago) '' @ SanitizeText L (Text post) titleCharLimit))"
    by (simp add: titleBluesky_after_resolve [OF res ne gp] disp)
qed

theorem C10_empty_duration_witness:
  "Millisecond \<le> Millisecond \<and> humanReadableDuration Millisecond = ''''
   \<and> Sub 5 5 \<le> Millisecond \<and> displayTwitterTime (\<lambda>t layout. layout) 5 5 = '' ago''
   \<and> (5 :: int) \<le> 9 \<and> displayTwitterTime (\<lambda>t layout. layout) 5 9 = '' ago''
   \<and> Sub (now_display world_post) 1704067200000000000 \<le> Millisecond
   \<and> titleBluesky sample_lib world_post ''#chan'' '''' ''alice.test'' ''3k'' sample_bot
      = (Returned (),
         sendReplyNotice sample_bot ''#chan'' '''' (''(@alice.test,  ago) hi''))"
proof -
  have h1: "Millisecond \<le> Millisecond" by simp
  have h2: "Sub 5 5 \<le> Millisecond"
    by (simp add: Sub_def minDuration_def maxDuration_def unit_defs)
  have h3: "(5 :: int) \<le> 9" by simp
  have sub: "Sub (now_display world_post) 1704067200000000000 \<le> Millisecond"
    by (simp add: world_post_def bsky_world_def world_404_def Sub_def minDuration_def
        maxDuration_def unit_defs)
  have h4: "identity_resolved sample_lib world_post ''alice.test'' ''did:plc:abc''
      \<and> record_found sample_lib world_post ''did:plc:abc'' ''3k''
          \<lparr>Text = ''hi'', CreatedAt = ''2024-01-01T00:00:00.000Z''\<rparr>
      \<and> time_Parse sample_lib IRCv3TimestampFormat
          (CreatedAt \<lparr>Text = ''hi'', CreatedAt = ''2024-01-01T00:00:00.000Z''\<rparr>)
        = Inr 1704067200000000000
      \<and> Sub (now_display world_post) 1704067200000000000 \<le> Millisecond"
    using sub
    by (simp add: world_post_def sample_identity sample_record) (simp add: sample_lib_def)
  note inst = C10_empty_duration [of Millisecond 5 5 "\<lambda>t layout. layout" sample_lib world_post
      "''alice.test''" "''did:plc:abc''" "''3k''"
      "\<lparr>Text = ''hi'', CreatedAt = ''2024-01-01T00:00:00.000Z''\<rparr>" 1704067200000000000
      "''#chan''" "''''" sample_bot]
  note inst2 = C10_empty_duration [of Millisecond 5 9 "\<lambda>t layout. layout"]
  from inst [THEN conjunct1, THEN mp, OF h1]
  have c1: "humanReadableDuration Millisecond = ''''" .
  from inst [THEN conjunct2, THEN conjunct1, THEN mp, OF h2]
  have c2: "displayTwitterTime (\<lambda>t layout. layout) 5 5 = '' ago''" .
  from inst2 [THEN conjunct2, THEN conjunct2, THEN conjunct1, THEN mp, OF h3]
  have c3: "displayTwitterTime (\<lambda>t layout. layout) 5 9 = '' ago''" .
  from inst [THEN conjunct2, THEN conjunct2, THEN conjunct2, THEN mp, OF h4]
  have c4: "titleBluesky sample_lib world_post ''#chan'' '''' ''alice.test'' ''3k'' sample_bot
      = (Returned (),
         sendReplyNotice sample_bot ''#chan'' '''' (''(@alice.test,  ago) hi''))"
    by (simp add: sample_lib_def titleCharLimit_def)
  from h1 c1 h2 c2 h3 c3 sub c4 show ?thesis by (intro conjI)
qed


section \<open>Generic resolver\<close>

lemma analyzeURL_re: "analyzeURL L url = Inr (byteLimit, titleRe) \<Longrightarrow> titleRe = genericTitleRe"
  by (auto simp: analyzeURL_def Let_def split: sum.splits if_splits)

lemma FindStringSubmatch_length:
  "FindStringSubmatch r s \<noteq> [] \<Longrightarrow> length (FindStringSubmatch r s) = numSubexp r + 1"
  by (simp add: FindStringSubmatch_def submatches_def split: option.splits)

lemma numSubexp_genericTitleRe: "numSubexp genericTitleRe = 1"
  by (simp add: genericTitleRe_def)

lemma ReadAll_LimitedReader_None:
  "ReadAll (LimitedReader (bytes, None, together) N) = (take (nat N) bytes, None)"
  by (auto simp: ReadAll_def LimitedReader_def)

lemma ReadAll_error_with_last_bytes:
  "ReadAll (LimitedReader (''abcd'', Some (Error ''boom''), True) 4)
   = (''abcd'', Some (Error ''boom''))"
  by (simp add: ReadAll_def LimitedReader_def)

lemma ReadAll_error_after_last_bytes:
  "ReadAll (LimitedReader (''abcd'', Some (Error ''boom''), False) 4) = (''abcd'', None)"
  by (simp add: ReadAll_def LimitedReader_def)

lemma titleGeneric_read_error:
  assumes an: "analyzeURL L url = Inr (byteLimit, titleRe)"
    and rq: "NewRequest L ''GET'' url = Inr req"
    and resp: "Do w (req\<lparr>Header := [(''User-Agent'', [userAgent irc])]\<rparr>) = Responded resp"
    and ok: "StatusCode resp = 200"
    and rd: "ReadAll (LimitedReader (Body resp) byteLimit) = (body, Some e)"
    and er: "e \<noteq> ErrUnexpectedEOF"
  shows "titleGeneric L w target msgid url irc
         = (Returned (), Printf irc ''couldn't read in titleGeneric: %v\<newline>'' [E (Some e)])"
  using er by (simp add: titleGeneric_def an rq resp ok rd)

lemma title_of_page:
  "FindStringSubmatch genericTitleRe
     (''<html><head><title>  Hello &amp; World  </title></head>'' @ rest)
   = [''<title>  Hello &amp; World  <'', ''  Hello &amp; World  '']"
  by (simp add: FindStringSubmatch_def genericTitleRe_def match_here_def submatches_def
      group_def fold_alts_def lower_upper_def isWordChar_def upt_rec)

lemma titleGeneric_matched:
  assumes an: "analyzeURL L url = Inr (byteLimit, titleRe)"
    and rq: "NewRequest L ''GET'' url = Inr req"
    and resp: "Do w (req\<lparr>Header := [(''User-Agent'', [userAgent irc])]\<rparr>) = Responded resp"
    and ok: "StatusCode resp = 200"
    and rd: "ReadAll (LimitedReader (Body resp) byteLimit) = (body, err)"
    and er: "err = None \<or> err = Some ErrUnexpectedEOF"
    and mt: "FindStringSubmatch genericTitleRe body \<noteq> []"
  shows "titleGeneric L w target msgid url irc
         = (Returned (),
            if extracted_title L body \<noteq> ''''
            then sendReplyNotice irc target msgid (extracted_title L body)
            else if Debug irc
                 then Printf irc ''Can't title %s : title not found\<newline>'' [S url]
                 else irc)"
proof -
  have re: "titleRe = genericTitleRe" using an by (rule analyzeURL_re)
  have len: "length (FindStringSubmatch genericTitleRe body) = 2"
    using FindStringSubmatch_length [OF mt] by (simp add: numSubexp_genericTitleRe)
  show ?thesis
    using er
    by (auto simp: titleGeneric_def an [unfolded re] rq resp ok rd [unfolded re] len Let_def
        extracted_title_def)
qed

text \<open>
  Claim C6.  When the generic fetch answers with status 200, \<^verbatim>\<open>io.ReadAll\<close> on the
  body behind the limited reader returns no error other than the unexpected end of the
  data, and the bytes it returns (the body cut at the byte budget) match the title
  pattern, the resolver sends exactly one notice with the
  extracted title when that title is not empty, and nothing when it is empty.  The
  extracted title is a function of the bytes of the body: the first group of the
  match, with HTML entities decoded, then trimmed, then sanitised and cut at 400
  characters by \<^verbatim>\<open>SanitizeText\<close>.  A page at a host with the standard budget that
  starts with \<open><html><head><title>  Hello &amp; World  </title></head>\<close> and ends,
  however long it is, at the end of the data, with a
  library that decodes \<open>&amp;\<close>, trims the spaces and leaves the plain text as it
  is, gives exactly one notice with the text \<open>Hello & World\<close>.
\<close>

theorem C6_generic_title:
  "(analyzeURL L url = Inr (byteLimit, titleRe) \<and> NewRequest L ''GET'' url = Inr req
      \<and> Do w (req\<lparr>Header := [(''User-Agent'', [userAgent irc])]\<rparr>) = Responded resp
      \<and> StatusCode resp = 200
      \<and> ReadAll (LimitedReader (Body resp) byteLimit) = (body, err)
      \<and> (err = None \<or> err = Some ErrUnexpectedEOF)
      \<and> FindStringSubmatch genericTitleRe body \<noteq> [] \<longrightarrow>
      fst (titleGeneric L w target msgid url irc) = Returned ()
      \<and> sent (snd (titleGeneric L w target msgid url irc))
        = sent irc @ (if extracted_title L body \<noteq> ''''
                      then [reply target msgid (extracted_title L body)] else []))
   \<and> extracted_title L body
     = SanitizeText L
         (TrimSpace L (UnescapeString L (FindStringSubmatch genericTitleRe body ! 1))) 400
   \<and> (analyzeURL L url = Inr (genericTitleReadLimit, genericTitleRe)
      \<and> NewRequest L ''GET'' url = Inr req
      \<and> Do w (req\<lparr>Header := [(''User-Agent'', [userAgent irc])]\<rparr>) = Responded resp
      \<and> StatusCode resp = 200
      \<and> Body resp
          = (''<html><head><title>  Hello &amp; World  </title></head>'' @ rest, None, together)
      \<and> UnescapeString L ''  Hello &amp; World  '' = ''  Hello & World  ''
      \<and> TrimSpace L ''  Hello & World  '' = ''Hello & World''
      \<and> SanitizeText L ''Hello & World'' 400 = ''Hello & World'' \<longrightarrow>
      titleGeneric L w target msgid url irc
        = (Returned (), sendReplyNotice irc target msgid ''Hello & World'')
      \<and> sent (snd (titleGeneric L w target msgid url irc))
        = sent irc @ [reply target msgid ''Hello & World''])"
proof (intro conjI impI)
  assume a: "analyzeURL L url = Inr (byteLimit, titleRe) \<and> NewRequest L ''GET'' url = Inr req
      \<and> Do w (req\<lparr>Header := [(''User-Agent'', [userAgent irc])]\<rparr>) = Responded resp
      \<and> StatusCode resp = 200
      \<and> ReadAll (LimitedReader (Body resp) byteLimit) = (body, err)
      \<and> (err = None \<or> err = Some ErrUnexpectedEOF)
      \<and> FindStringSubmatch genericTitleRe body \<noteq> []"
  have tg: "titleGeneric L w target msgid url irc
         = (Returned (),
            if extracted_title L body \<noteq> ''''
            then sendReplyNotice irc target msgid (extracted_title L body)
            else if Debug irc
                 then Printf irc ''Can't title %s : title not found\<newline>'' [S url]
                 else irc)"
  proof -
    from a have a1: "analyzeURL L url = Inr (byteLimit, titleRe)"
      and a2: "NewRequest L ''GET'' url = Inr req"
      and a3: "Do w (req\<lparr>Header := [(''User-Agent'', [userAgent irc])]\<rparr>) = Responded resp"
      and a4: "StatusCode resp = 200"
      and a5: "ReadAll (LimitedReader (Body resp) byteLimit) = (body, err)"
      and a6: "err = None \<or> err = Some ErrUnexpectedEOF"
      and a7: "FindStringSubmatch genericTitleRe body \<noteq> []"
      by simp_all
    show ?thesis by (rule titleGeneric_matched [OF a1 a2 a3 a4 a5 a6 a7])
  qed
  show "fst (titleGeneric L w target msgid url irc) = Returned ()"
    by (simp add: tg)
  show "sent (snd (titleGeneric L w target msgid url irc))
        = sent irc @ (if extracted_title L body \<noteq> ''''
                      then [reply target msgid (extracted_title L body)] else [])"
    by (simp add: tg)
next
  show "extracted_title L body
     = SanitizeText L
         (TrimSpace L (UnescapeString L (FindStringSubmatch genericTitleRe body ! 1))) 400"
    by (simp add: extracted_title_def titleCharLimit_def)
next
  assume a: "analyzeURL L url = Inr (genericTitleReadLimit, genericTitleRe)
      \<and> NewRequest L ''GET'' url = Inr req
      \<and> Do w (req\<lparr>Header := [(''User-Agent'', [userAgent irc])]\<rparr>) = Responded resp
      \<and> StatusCode resp = 200
      \<and> Body resp
          = (''<html><head><title>  Hello &amp; World  </title></head>'' @ rest, None, together)
      \<and> UnescapeString L ''  Hello &amp; World  '' = ''  Hello & World  ''
      \<and> TrimSpace L ''  Hello & World  '' = ''Hello & World''
      \<and> SanitizeText L ''Hello & World'' 400 = ''Hello & World''"
  define body where
    "body = ''<html><head><title>  Hello &amp; World  </title></head>''
            @ take 65481 rest"
  have cut: "take (nat genericTitleReadLimit)
               (''<html><head><title>  Hello &amp; World  </title></head>'' @ rest) = body"
    by (simp add: genericTitleReadLimit_def body_def)
  from a have ab:
    "Body resp
     = (''<html><head><title>  Hello &amp; World  </title></head>'' @ rest, None, together)"
    by simp
  have rd: "ReadAll (LimitedReader (Body resp) genericTitleReadLimit) = (body, None)"
    by (simp only: ab ReadAll_LimitedReader_None cut)
  have fm: "FindStringSubmatch genericTitleRe body
            = [''<title>  Hello &amp; World  <'', ''  Hello &amp; World  '']"
    unfolding body_def by (rule title_of_page)
  have ex: "extracted_title L body = ''Hello & World''"
    using a by (simp add: extracted_title_def fm titleCharLimit_def)
  have tg: "titleGeneric L w target msgid url irc
         = (Returned (),
            if extracted_title L body \<noteq> ''''
            then sendReplyNotice irc target msgid (extracted_title L body)
            else if Debug irc
                 then Printf irc ''Can't title %s : title not found\<newline>'' [S url]
                 else irc)"
  proof -
    from a have a1: "analyzeURL L url = Inr (genericTitleReadLimit, genericTitleRe)"
      and a2: "NewRequest L ''GET'' url = Inr req"
      and a3: "Do w (req\<lparr>Header := [(''User-Agent'', [userAgent irc])]\<rparr>) = Responded resp"
      and a4: "StatusCode resp = 200"
      by simp_all
    have a6: "None = None \<or> None = Some ErrUnexpectedEOF" by simp
    have a7: "FindStringSubmatch genericTitleRe body \<noteq> []" by (simp add: fm)
    show ?thesis by (rule titleGeneric_matched [OF a1 a2 a3 a4 rd a6 a7])
  qed
  show "titleGeneric L w target msgid url irc
        = (Returned (), sendReplyNotice irc target msgid ''Hello & World'')"
    by (simp add: tg ex)
  then show "sent (snd (titleGeneric L w target msgid url irc))
        = sent irc @ [reply target msgid ''Hello & World'']"
    by simp
qed

theorem C6_generic_title_witness:
  "titleGeneric sample_lib world_page ''#chan'' '''' ''http://example.org/'' sample_bot
     = (Returned (), sendReplyNotice sample_bot ''#chan'' '''' ''Hello & World'')
   \<and> sent (snd (titleGeneric sample_lib world_page ''#chan'' '''' ''http://example.org/''
                  sample_bot))
     = sent sample_bot @ [reply ''#chan'' '''' ''Hello & World'']
   \<and> FindStringSubmatch genericTitleRe
       ''<html><head><title>  Hello &amp; World  </title></head><body></body></html>'' \<noteq> []
   \<and> extracted_title sample_lib
       ''<html><head><title>  Hello &amp; World  </title></head><body></body></html>''
     = ''Hello & World''
   \<and> sent (snd (titleGeneric sample_lib world_page ''#chan'' '''' ''http://example.org/''
                  sample_bot))
     = sent sample_bot
       @ (if extracted_title sample_lib
               ''<html><head><title>  Hello &amp; World  </title></head><body></body></html>''
             \<noteq> ''''
          then [reply ''#chan'' ''''
                 (extracted_title sample_lib
                    ''<html><head><title>  Hello &amp; World  </title></head><body></body></html>'')]
          else [])"
proof -
  let ?url = "''http://example.org/''"
  let ?page = "''<html><head><title>  Hello &amp; World  </title></head><body></body></html>''"
  let ?req = "\<lparr>Method = ''GET'', ReqURL = ?url, Header = []\<rparr>"
  let ?resp = "\<lparr>StatusCode = 200, Body = (?page, None, False)\<rparr>"
  have page: "?page = ''<html><head><title>  Hello &amp; World  </title></head>''
                      @ ''<body></body></html>''"
    by simp
  have fm: "FindStringSubmatch genericTitleRe ?page
            = [''<title>  Hello &amp; World  <'', ''  Hello &amp; World  '']"
    unfolding page by (rule title_of_page)
  have ne: "FindStringSubmatch genericTitleRe ?page \<noteq> []"
    by (simp add: fm)
  have l1: "UnescapeString sample_lib ''  Hello &amp; World  '' = ''  Hello & World  ''"
    by (simp add: sample_lib_def)
  have l2: "TrimSpace sample_lib ''  Hello & World  '' = ''Hello & World''"
    by (simp add: sample_lib_def)
  have l3: "SanitizeText sample_lib ''Hello & World'' 400 = ''Hello & World''"
    by (simp add: sample_lib_def)
  have rq: "NewRequest sample_lib ''GET'' ?url = Inr ?req"
    by (simp add: sample_lib_def)
  have dorq: "Do world_page (?req\<lparr>Header := [(''User-Agent'', [userAgent sample_bot])]\<rparr>)
            = Responded ?resp"
    by (simp add: world_page_def)
  have st: "StatusCode ?resp = 200" by simp
  have bd: "Body ?resp = (''<html><head><title>  Hello &amp; World  </title></head>''
                          @ ''<body></body></html>'', None, False)"
    by simp
  have rd: "ReadAll (LimitedReader (Body ?resp) genericTitleReadLimit) = (?page, None)"
    by (simp add: ReadAll_def LimitedReader_def genericTitleReadLimit_def)
  have h1: "analyzeURL sample_lib ?url = Inr (genericTitleReadLimit, genericTitleRe)
      \<and> NewRequest sample_lib ''GET'' ?url = Inr ?req
      \<and> Do world_page (?req\<lparr>Header := [(''User-Agent'', [userAgent sample_bot])]\<rparr>)
          = Responded ?resp
      \<and> StatusCode ?resp = 200
      \<and> ReadAll (LimitedReader (Body ?resp) genericTitleReadLimit) = (?page, None)
      \<and> (None = None \<or> None = Some ErrUnexpectedEOF)
      \<and> FindStringSubmatch genericTitleRe ?page \<noteq> []"
    using sample_analyzeURL rq dorq st rd ne by (intro conjI) simp_all
  have h3: "analyzeURL sample_lib ?url = Inr (genericTitleReadLimit, genericTitleRe)
      \<and> NewRequest sample_lib ''GET'' ?url = Inr ?req
      \<and> Do world_page (?req\<lparr>Header := [(''User-Agent'', [userAgent sample_bot])]\<rparr>)
          = Responded ?resp
      \<and> StatusCode ?resp = 200
      \<and> Body ?resp = (''<html><head><title>  Hello &amp; World  </title></head>''
                       @ ''<body></body></html>'', None, False)
      \<and> UnescapeString sample_lib ''  Hello &amp; World  '' = ''  Hello & World  ''
      \<and> TrimSpace sample_lib ''  Hello & World  '' = ''Hello & World''
      \<and> SanitizeText sample_lib ''Hello & World'' 400 = ''Hello & World''"
    using sample_analyzeURL rq dorq st bd l1 l2 l3 by (intro conjI)
  note inst = C6_generic_title [of sample_lib ?url genericTitleReadLimit genericTitleRe ?req
      world_page sample_bot ?resp ?page None "''#chan''" "''''" "''<body></body></html>''"
      False]
  from inst [THEN conjunct1, THEN mp, OF h1]
  have c1: "sent (snd (titleGeneric sample_lib world_page ''#chan'' '''' ?url sample_bot))
     = sent sample_bot
       @ (if extracted_title sample_lib ?page \<noteq> ''''
          then [reply ''#chan'' '''' (extracted_title sample_lib ?page)] else [])"
    by (rule conjunct2)
  from inst [THEN conjunct2, THEN conjunct1]
  have c2: "extracted_title sample_lib ?page = ''Hello & World''"
    by (simp add: fm l1 l2 l3)
  from inst [THEN conjunct2, THEN conjunct2, THEN mp, OF h3]
  have c3: "titleGeneric sample_lib world_page ''#chan'' '''' ?url sample_bot
     = (Returned (), sendReplyNotice sample_bot ''#chan'' '''' ''Hello & World'')"
    and c4: "sent (snd (titleGeneric sample_lib world_page ''#chan'' '''' ?url sample_bot))
     = sent sample_bot @ [reply ''#chan'' '''' ''Hello & World'']"
    by (rule conjunct1, rule conjunct2)
  from c3 c4 ne c2 c1 show ?thesis by (intro conjI)
qed


section \<open>The matcher\<close>

lemma strip_prefix_Some: "strip_prefix s inp = Some r \<longleftrightarrow> inp = s @ r"
proof (induction s inp rule: strip_prefix.induct)
  case (1 inp)
  show ?case by auto
next
  case (2 a as)
  show ?case by simp
next
  case (3 a as x xs)
  then show ?case by auto
qed

lemma strip_prefix_append [simp]: "strip_prefix s (s @ r) = Some r"
  by (simp add: strip_prefix_Some)

lemma advance_Cons: "advance (Suc n) (i, prev, x # xs) = advance n (Suc i, Some x, xs)"
  by simp

lemma advance_offset: "fst (advance n (i, prev, inp)) = i + min n (length inp)"
proof (induction n arbitrary: i prev inp)
  case 0
  show ?case by simp
next
  case (Suc n)
  show ?case by (cases inp) (simp_all add: Suc.IH)
qed

lemma advance_append:
  "advance (length u) (i, prev, u @ t)
   = (i + length u, if u = [] then prev else Some (last u), t)"
proof (induction u arbitrary: i prev)
  case Nil
  show ?case by simp
next
  case (Cons x u)
  show ?case by (simp add: Cons.IH)
qed

lemma match_lit_plain:
  "match_lit False s (i, prev, inp)
   = (case strip_prefix s inp of
        None \<Rightarrow> None
      | Some r \<Rightarrow> Some (i + length s, if s = [] then prev else Some (last s), r))"
proof (induction s arbitrary: i prev inp)
  case Nil
  show ?case by simp
next
  case (Cons a s)
  show ?case
  proof (cases inp)
    case Nil
    then show ?thesis by simp
  next
    case (Cons x xs)
    then show ?thesis
      by (simp add: Cons.IH split: option.split)
  qed
qed

lemma star_greedy_blocked:
  assumes "\<And>i' p' x xs. in_cls cl x \<Longrightarrow> k ((i', p', x # xs), c) = None"
  shows "m (Star cl True) k ((i, prev, inp), c)
         = k (advance (length (takeWhile (in_cls cl) inp)) (i, prev, inp), c)"
proof (induction inp arbitrary: i prev)
  case Nil
  show ?case by simp
next
  case (Cons x xs)
  show ?case
  proof (cases "in_cls cl x")
    case True
    have "k ((i, prev, x # xs), c) = None" using True by (rule assms)
    with True show ?thesis
      by (simp add: Cons.IH split: option.split)
  next
    case False
    then show ?thesis by simp
  qed
qed

lemma star_greedy_total:
  assumes "\<And>p. k (p, c) \<noteq> None"
  shows "m (Star cl True) k ((i, prev, inp), c)
         = k (advance (length (takeWhile (in_cls cl) inp)) (i, prev, inp), c)"
proof (induction inp arbitrary: i prev)
  case Nil
  show ?case by simp
next
  case (Cons x xs)
  show ?case
  proof (cases "in_cls cl x")
    case True
    obtain r where "k (advance (length (takeWhile (in_cls cl) xs)) (i + 1, Some x, xs), c) = Some r"
      using assms by blast
    with True show ?thesis
      by (simp add: Cons.IH)
  next
    case False
    then show ?thesis by simp
  qed
qed

lemma star_lazy_stop:
  assumes blocked: "\<And>i' p' x xs. \<not> stop x \<Longrightarrow> k ((i', p', x # xs), c) = None"
    and stops: "\<And>i' p' x xs. stop x \<Longrightarrow> k ((i', p', x # xs), c) \<noteq> None"
    and cls: "\<And>x. \<not> stop x \<Longrightarrow> in_cls cl x"
  shows "m (Star cl False) k ((i, prev, inp), c)
         = k (advance (length (takeWhile (\<lambda>x. \<not> stop x) inp)) (i, prev, inp), c)"
proof (induction inp arbitrary: i prev)
  case Nil
  show ?case by simp
next
  case (Cons x xs)
  show ?case
  proof (cases "stop x")
    case True
    obtain r where "k ((i, prev, x # xs), c) = Some r"
      using stops [OF True] by blast
    with True show ?thesis by simp
  next
    case False
    have "k ((i, prev, x # xs), c) = None" using False by (rule blocked)
    moreover have "in_cls cl x" using False by (rule cls)
    ultimately show ?thesis using False by (simp add: Cons.IH)
  qed
qed

lemma search_found:
  "search r (i, prev, inp) = Some c \<Longrightarrow>
   \<exists>pre prev' inp'. inp = pre @ inp' \<and> match_here r (i + length pre, prev', inp') = Some c"
proof (induction inp arbitrary: i prev)
  case Nil
  then show ?case by auto
next
  case (Cons x xs)
  show ?case
  proof (cases "match_here r (i, prev, x # xs)")
    case (Some c')
    with Cons.prems have "match_here r (i + length ([]::string), prev, x # xs) = Some c"
      by simp
    then show ?thesis by (metis append_Nil)
  next
    case None
    with Cons.prems have "search r (i + 1, Some x, xs) = Some c" by simp
    from Cons.IH [OF this] obtain pre prev' inp' where
      "xs = pre @ inp'" and "match_here r (i + 1 + length pre, prev', inp') = Some c"
      by blast
    then have "x # xs = (x # pre) @ inp'"
      and "match_here r (i + length (x # pre), prev', inp') = Some c"
      by simp_all
    then show ?thesis by blast
  qed
qed


section \<open>Platform classifier\<close>

lemma advance_takeWhile:
  "\<exists>pv. advance (length (takeWhile P inp)) (i, prev, inp)
        = (i + length (takeWhile P inp), pv, dropWhile P inp)"
proof -
  have "advance (length (takeWhile P inp)) (i, prev, takeWhile P inp @ dropWhile P inp)
        = (i + length (takeWhile P inp),
           if takeWhile P inp = [] then prev else Some (last (takeWhile P inp)),
           dropWhile P inp)"
    by (rule advance_append)
  then show ?thesis by simp
qed

lemma match_lit_post:
  "match_lit False ''/post/'' (j, pv, inp)
   = (case strip_prefix ''/post/'' inp of
        None \<Rightarrow> None
      | Some r \<Rightarrow> Some (j + 6, Some CHR ''/'', r))"
  by (simp add: match_lit_plain eval_nat_numeral del: match_lit.simps split: option.split)

lemma match_lit_profile:
  "match_lit False ''https://bsky.app/profile/'' (j, pv, inp)
   = (case strip_prefix ''https://bsky.app/profile/'' inp of
        None \<Rightarrow> None
      | Some r \<Rightarrow> Some (j + 25, Some CHR ''/'', r))"
  by (simp add: match_lit_plain eval_nat_numeral del: match_lit.simps split: option.split)

lemma bluesky_group2:
  assumes k0: "\<And>i' pv' inp' c'. k0 ((i', pv', inp'), c') = Some (c'(1 \<mapsto> i'))"
  shows "m (Cap 2 (Plus (NotChar CHR ''/'') True)) k0 ((j, pv, r3), c)
         = (if takeWhile (in_cls (NotChar CHR ''/'')) r3 = [] then None
            else Some (c(4 \<mapsto> j, 5 \<mapsto> j + length (takeWhile (in_cls (NotChar CHR ''/'')) r3),
                         1 \<mapsto> j + length (takeWhile (in_cls (NotChar CHR ''/'')) r3))))"
proof (cases r3)
  case Nil
  then show ?thesis by simp
next
  case (Cons x xs)
  let ?P = "in_cls (NotChar CHR ''/'')"
  let ?k = "\<lambda>((i', prev', inp'), c'). k0 ((i', prev', inp'), c'((5::nat) \<mapsto> i'))"
  show ?thesis
  proof (cases "?P x")
    case False
    with Cons show ?thesis by simp
  next
    case True
    have tot: "\<And>p. ?k (p, c(4 \<mapsto> j)) \<noteq> None"
      by (simp add: k0 split: prod.split)
    obtain pv' where adv: "advance (length (takeWhile ?P xs)) (Suc j, Some x, xs)
        = (Suc j + length (takeWhile ?P xs), pv', dropWhile ?P xs)"
      using advance_takeWhile [of ?P xs "Suc j" "Some x"] by blast
    have "m (Star (NotChar CHR ''/'') True) ?k ((Suc j, Some x, xs), c(4 \<mapsto> j))
          = ?k (advance (length (takeWhile ?P xs)) (Suc j, Some x, xs), c(4 \<mapsto> j))"
      by (rule star_greedy_total [where k = ?k and c = "c(4 \<mapsto> j)", OF tot])
    also have "\<dots> = Some (c(4 \<mapsto> j, 5 \<mapsto> Suc j + length (takeWhile ?P xs),
                             1 \<mapsto> Suc j + length (takeWhile ?P xs)))"
      unfolding adv by (simp add: k0)
    finally show ?thesis
      using Cons True by simp
  qed
qed

lemma bluesky_tail:
  assumes k0: "\<And>i' pv' inp' c'. k0 ((i', pv', inp'), c') = Some (c'(1 \<mapsto> i'))"
  shows "m (Cat (Lit False ''/post/'') (Cap 2 (Plus (NotChar CHR ''/'') True))) k0
           ((j, pv, r2), c)
         = (case strip_prefix ''/post/'' r2 of
              None \<Rightarrow> None
            | Some r3 \<Rightarrow>
                if takeWhile (in_cls (NotChar CHR ''/'')) r3 = [] then None
                else Some (c(4 \<mapsto> j + 6,
                             5 \<mapsto> j + 6 + length (takeWhile (in_cls (NotChar CHR ''/'')) r3),
                             1 \<mapsto> j + 6 + length (takeWhile (in_cls (NotChar CHR ''/'')) r3))))"
proof -
  have "m (Cat (Lit False ''/post/'') (Cap 2 (Plus (NotChar CHR ''/'') True))) k0
           ((j, pv, r2), c)
        = (case strip_prefix ''/post/'' r2 of
             None \<Rightarrow> None
           | Some r3 \<Rightarrow>
               m (Cap 2 (Plus (NotChar CHR ''/'') True)) k0 ((j + 6, Some CHR ''/'', r3), c))"
    by (simp add: match_lit_post del: match_lit.simps m.simps(9) split: option.split)
  then show ?thesis
    by (simp only: bluesky_group2 [OF k0])
qed

lemma bluesky_tail_blocked:
  "in_cls (NotChar CHR ''/'') x \<Longrightarrow>
   m (Cat (Lit False ''/post/'') (Cap 2 (Plus (NotChar CHR ''/'') True))) k0
     ((j, pv, x # xs), c) = None"
  by (simp add: match_lit_post del: match_lit.simps)

lemma match_here_bluesky:
  "match_here blueskyRe (i, prev, inp)
   = (case bluesky_at inp of
        None \<Rightarrow> None
      | Some (h, p) \<Rightarrow> Some (bluesky_caps i (length h) (length p)))"
proof (cases "strip_prefix ''https://bsky.app/profile/'' inp")
  case None
  then show ?thesis
    by (simp add: match_here_def blueskyRe_def match_lit_profile bluesky_at_def
        del: match_lit.simps)
next
  case (Some r1)
  let ?P = "in_cls (NotChar CHR ''/'')"
  let ?k0 = "\<lambda>((i', prev', inp'), c'). Some (c'((1::nat) \<mapsto> (i'::nat)))
               :: caps option"
  let ?tail = "Cat (Lit False ''/post/'') (Cap 2 (Plus (NotChar CHR ''/'') True))"
  let ?k1 = "\<lambda>((i', prev', inp'), c'). m ?tail ?k0 ((i', prev', inp'), c'((3::nat) \<mapsto> i'))"
  let ?c0 = "[(0::nat) \<mapsto> i, 2 \<mapsto> i + 25]"
  have k0: "\<And>i' pv' inp' c'. ?k0 ((i', pv', inp'), c') = Some (c'(1 \<mapsto> i'))"
    by simp
  have start: "match_here blueskyRe (i, prev, inp)
               = m (Plus (NotChar CHR ''/'') True) ?k1 ((i + 25, Some CHR ''/'', r1), ?c0)"
    using Some
    by (simp add: match_here_def blueskyRe_def match_lit_profile
        del: match_lit.simps m.simps(2,3,4,5))
  show ?thesis
  proof (cases r1)
    case Nil
    with Some start show ?thesis by (simp add: bluesky_at_def)
  next
    case (Cons x xs)
    show ?thesis
    proof (cases "?P x")
      case False
      with Some start Cons show ?thesis by (simp add: bluesky_at_def)
    next
      case True
      have blocked: "\<And>i' p' y ys. ?P y \<Longrightarrow> ?k1 ((i', p', y # ys), ?c0) = None"
        by (simp add: match_lit_post del: match_lit.simps)
      obtain pv' where adv: "advance (length (takeWhile ?P xs)) (Suc (i + 25), Some x, xs)
          = (Suc (i + 25) + length (takeWhile ?P xs), pv', dropWhile ?P xs)"
        using advance_takeWhile [of ?P xs "Suc (i + 25)" "Some x"] by blast
      have "match_here blueskyRe (i, prev, inp)
            = m (Star (NotChar CHR ''/'') True) ?k1 ((Suc (i + 25), Some x, xs), ?c0)"
        using start Cons True by simp
      also have "\<dots> = ?k1 (advance (length (takeWhile ?P xs)) (Suc (i + 25), Some x, xs), ?c0)"
        by (rule star_greedy_blocked [where k = ?k1 and c = ?c0, OF blocked])
      also have "\<dots> = m ?tail ?k0
          ((Suc (i + 25) + length (takeWhile ?P xs), pv', dropWhile ?P xs),
           ?c0(3 \<mapsto> Suc (i + 25) + length (takeWhile ?P xs)))"
        unfolding adv by simp
      finally have mh: "match_here blueskyRe (i, prev, inp) = m ?tail ?k0
          ((Suc (i + 25) + length (takeWhile ?P xs), pv', dropWhile ?P xs),
           ?c0(3 \<mapsto> Suc (i + 25) + length (takeWhile ?P xs)))" .
      show ?thesis
        unfolding mh bluesky_tail [OF k0]
        using Some Cons True
        by (auto simp: bluesky_at_def bluesky_caps_def Let_def split: option.split)
    qed
  qed
qed

lemma bluesky_at_shape:
  assumes "bluesky_at inp = Some (h, p)"
  shows "\<exists>rest. inp = ''https://bsky.app/profile/'' @ h @ ''/post/'' @ p @ rest"
    and "h \<noteq> []" and "p \<noteq> []"
    and "CHR ''/'' \<notin> set h" and "CHR ''/'' \<notin> set p"
proof -
  let ?P = "in_cls (NotChar CHR ''/'')"
  from assms obtain r1 where r1: "strip_prefix ''https://bsky.app/profile/'' inp = Some r1"
    by (auto simp: bluesky_at_def split: option.splits)
  from assms r1 have h: "h = takeWhile ?P r1" and hne: "takeWhile ?P r1 \<noteq> []"
    by (auto simp: bluesky_at_def Let_def split: option.splits if_splits)
  from assms r1 hne obtain r3 where r3: "strip_prefix ''/post/'' (dropWhile ?P r1) = Some r3"
    by (auto simp: bluesky_at_def Let_def split: option.splits if_splits)
  from assms r1 hne r3 have p: "p = takeWhile ?P r3" and pne: "takeWhile ?P r3 \<noteq> []"
    by (auto simp: bluesky_at_def Let_def split: option.splits if_splits)
  from r1 have i1: "inp = ''https://bsky.app/profile/'' @ r1"
    by (simp only: strip_prefix_Some)
  from r3 have i3: "dropWhile ?P r1 = ''/post/'' @ r3"
    by (simp only: strip_prefix_Some)
  have "r1 = takeWhile ?P r1 @ dropWhile ?P r1" by simp
  then have "r1 = h @ ''/post/'' @ p @ dropWhile ?P r3"
    unfolding i3 h p by (metis takeWhile_dropWhile_id)
  with i1 have "inp = ''https://bsky.app/profile/'' @ h @ ''/post/'' @ p @ dropWhile ?P r3"
    by simp
  then show "\<exists>rest. inp = ''https://bsky.app/profile/'' @ h @ ''/post/'' @ p @ rest" ..
  show "h \<noteq> []" using h hne by simp
  show "p \<noteq> []" using p pne by simp
  show "CHR ''/'' \<notin> set h"
    unfolding h by (auto dest: set_takeWhileD)
  show "CHR ''/'' \<notin> set p"
    unfolding p by (auto dest: set_takeWhileD)
qed

lemma drop_prefix: "zs = xs @ ys \<Longrightarrow> n = length xs \<Longrightarrow> drop n zs = ys"
  by simp

lemma group_bluesky:
  assumes inp: "inp = ''https://bsky.app/profile/'' @ h @ ''/post/'' @ p @ rest"
  shows "group (pre @ inp) (bluesky_caps (length pre) (length h) (length p)) 1 = h"
    and "group (pre @ inp) (bluesky_caps (length pre) (length h) (length p)) 2 = p"
proof -
  have d1: "drop (length pre + 25) (pre @ inp) = h @ ''/post/'' @ p @ rest"
    by (rule drop_prefix [where xs = "pre @ ''https://bsky.app/profile/''"])
       (simp_all add: inp)
  have d2: "drop (length pre + 31 + length h) (pre @ inp) = p @ rest"
    by (rule drop_prefix [where xs = "pre @ ''https://bsky.app/profile/'' @ h @ ''/post/''"])
       (simp_all add: inp)
  have d1': "drop 25 inp = h @ ''/post/'' @ p @ rest"
    using d1 by simp
  have d2': "drop (31 + length h) inp = p @ rest"
    using d2 by (simp add: add.commute)
  show "group (pre @ inp) (bluesky_caps (length pre) (length h) (length p)) 1 = h"
    by (simp add: group_def bluesky_caps_def d1')
  show "group (pre @ inp) (bluesky_caps (length pre) (length h) (length p)) 2 = p"
    by (simp add: group_def bluesky_caps_def d2')
qed

lemma search_bluesky:
  "(search blueskyRe (length pre, prev, inp) = None \<longrightarrow> bluesky_first inp = None)
   \<and> (\<forall>c. search blueskyRe (length pre, prev, inp) = Some c \<longrightarrow>
          (\<exists>h p. bluesky_first inp = Some (h, p)
                \<and> group (pre @ inp) c 1 = h \<and> group (pre @ inp) c 2 = p))"
proof (induction inp arbitrary: pre prev)
  case Nil
  have "bluesky_at [] = None" by (simp add: bluesky_at_def)
  then show ?case by (simp add: match_here_bluesky)
next
  case (Cons x xs)
  show ?case
  proof (cases "bluesky_at (x # xs)")
    case None
    have eq: "(pre @ [x]) @ xs = pre @ x # xs" by simp
    have "search blueskyRe (length pre, prev, x # xs)
          = search blueskyRe (length (pre @ [x]), Some x, xs)"
      using None by (simp add: match_here_bluesky)
    moreover have "bluesky_first (x # xs) = bluesky_first xs"
      using None by simp
    ultimately show ?thesis
      using Cons.IH [of "pre @ [x]" "Some x"] unfolding eq by simp
  next
    case (Some hp)
    obtain h p where hp: "hp = (h, p)" by (cases hp)
    from bluesky_at_shape(1) [OF Some [unfolded hp]] obtain rest where
      inp: "x # xs = ''https://bsky.app/profile/'' @ h @ ''/post/'' @ p @ rest" ..
    from group_bluesky [OF inp, of pre] Some hp show ?thesis
      by (simp add: match_here_bluesky)
  qed
qed

lemma numSubexp_blueskyRe: "numSubexp blueskyRe = 2"
  by (simp add: blueskyRe_def)

lemma extractBlueskyData_first:
  "extractBlueskyData url
   = (case bluesky_first url of Some (h, p) \<Rightarrow> (h, p) | None \<Rightarrow> ('''', ''''))"
proof (cases "search blueskyRe (0, None, url)")
  case None
  with search_bluesky [where pre = "[]" and prev = None and inp = url]
  have "bluesky_first url = None" by simp
  with None show ?thesis
    by (simp add: extractBlueskyData_def FindStringSubmatch_def)
next
  case (Some c)
  with search_bluesky [where pre = "[]" and prev = None and inp = url] obtain h p where
    "bluesky_first url = Some (h, p)" and "group url c 1 = h" and "group url c 2 = p"
    by auto
  moreover have "submatches blueskyRe url c = [group url c 0, group url c 1, group url c 2]"
    by (simp add: submatches_def numSubexp_blueskyRe upt_rec numeral_2_eq_2)
  ultimately show ?thesis
    using Some by (simp add: extractBlueskyData_def FindStringSubmatch_def)
qed

lemma bluesky_first_shape:
  "bluesky_first url = Some (h, p) \<Longrightarrow>
   h \<noteq> [] \<and> p \<noteq> [] \<and> CHR ''/'' \<notin> set h \<and> CHR ''/'' \<notin> set p
   \<and> (\<exists>pre rest. url = pre @ ''https://bsky.app/profile/'' @ h @ ''/post/'' @ p @ rest)"
proof (induction url)
  case Nil
  then show ?case by (simp add: bluesky_at_def)
next
  case (Cons x xs)
  show ?case
  proof (cases "bluesky_at (x # xs)")
    case None
    with Cons.prems have "bluesky_first xs = Some (h, p)" by simp
    from Cons.IH [OF this] obtain pre rest where
      "h \<noteq> []" "p \<noteq> []" "CHR ''/'' \<notin> set h" "CHR ''/'' \<notin> set p"
      "xs = pre @ ''https://bsky.app/profile/'' @ h @ ''/post/'' @ p @ rest"
      by blast
    then have "x # xs = (x # pre) @ ''https://bsky.app/profile/'' @ h @ ''/post/'' @ p @ rest"
      by simp
    with \<open>h \<noteq> []\<close> \<open>p \<noteq> []\<close> \<open>CHR ''/'' \<notin> set h\<close> \<open>CHR ''/'' \<notin> set p\<close>
    show ?thesis by blast
  next
    case (Some hp)
    with Cons.prems have at: "bluesky_at (x # xs) = Some (h, p)" by simp
    from bluesky_at_shape [OF at] obtain rest where
      "x # xs = [] @ ''https://bsky.app/profile/'' @ h @ ''/post/'' @ p @ rest"
      and "h \<noteq> []" "p \<noteq> []" "CHR ''/'' \<notin> set h" "CHR ''/'' \<notin> set p"
      by auto
    then show ?thesis by blast
  qed
qed

lemma extract_profile_only:
  "extractBlueskyData ''https://bsky.app/profile/alice.bsky.social'' = ('''', '''')"
  by code_simp

lemma extract_post:
  "extractBlueskyData ''https://bsky.app/profile/alice.bsky.social/post/3k4abc''
   = (''alice.bsky.social'', ''3k4abc'')"
  by code_simp

text \<open>
  Claim C8.  The classifier is a total function of the URL with exactly two outcomes:
  the body of the pipeline runs the social resolver with the handle and the post id of
  the first post address in the URL, and the generic resolver when the URL holds no
  post address.  Whenever a handle is produced, the handle and the post id are both
  non-empty, neither holds a slash, and the URL holds
  \<open>https://bsky.app/profile/<handle>/post/<id>\<close>.  A profile URL without a post
  segment is handled as a generic page.
\<close>

theorem C8_classifier_total:
  "title_body L w target msgid url irc
     = (case bluesky_first url of
          Some (h, p) \<Rightarrow> titleBluesky L w target msgid h p irc
        | None \<Rightarrow> titleGeneric L w target msgid url irc)
   \<and> extractBlueskyData url
     = (case bluesky_first url of Some (h, p) \<Rightarrow> (h, p) | None \<Rightarrow> ('''', ''''))
   \<and> (fst (extractBlueskyData url) \<noteq> '''' \<longrightarrow>
        snd (extractBlueskyData url) \<noteq> ''''
      \<and> CHR ''/'' \<notin> set (fst (extractBlueskyData url))
      \<and> CHR ''/'' \<notin> set (snd (extractBlueskyData url))
      \<and> (\<exists>pre rest. url = pre @ ''https://bsky.app/profile/'' @ fst (extractBlueskyData url)
                            @ ''/post/'' @ snd (extractBlueskyData url) @ rest))
   \<and> extractBlueskyData ''https://bsky.app/profile/alice.bsky.social'' = ('''', '''')
   \<and> title_body L w target msgid ''https://bsky.app/profile/alice.bsky.social'' irc
     = titleGeneric L w target msgid ''https://bsky.app/profile/alice.bsky.social'' irc
   \<and> extractBlueskyData ''https://bsky.app/profile/alice.bsky.social/post/3k4abc''
     = (''alice.bsky.social'', ''3k4abc'')"
proof (intro conjI impI)
  show "title_body L w target msgid url irc
     = (case bluesky_first url of
          Some (h, p) \<Rightarrow> titleBluesky L w target msgid h p irc
        | None \<Rightarrow> titleGeneric L w target msgid url irc)"
  proof (cases "bluesky_first url")
    case None
    then show ?thesis by (simp add: title_body_def extractBlueskyData_first)
  next
    case (Some hp)
    obtain h p where hp: "hp = (h, p)" by (cases hp)
    from bluesky_first_shape [OF Some [unfolded hp]] have "h \<noteq> []" by simp
    with Some hp show ?thesis by (simp add: title_body_def extractBlueskyData_first)
  qed
  show "extractBlueskyData url
     = (case bluesky_first url of Some (h, p) \<Rightarrow> (h, p) | None \<Rightarrow> ('''', ''''))"
    by (rule extractBlueskyData_first)
  show "extractBlueskyData ''https://bsky.app/profile/alice.bsky.social'' = ('''', '''')"
    by (rule extract_profile_only)
  show "title_body L w target msgid ''https://bsky.app/profile/alice.bsky.social'' irc
     = titleGeneric L w target msgid ''https://bsky.app/profile/alice.bsky.social'' irc"
    by (simp only: title_body_def extract_profile_only prod.case if_False simp_thms)
  show "extractBlueskyData ''https://bsky.app/profile/alice.bsky.social/post/3k4abc''
     = (''alice.bsky.social'', ''3k4abc'')"
    by (rule extract_post)
next
  assume ne: "fst (extractBlueskyData url) \<noteq> ''''"
  then obtain h p where first: "bluesky_first url = Some (h, p)"
    and ex: "extractBlueskyData url = (h, p)"
    by (cases "bluesky_first url") (auto simp: extractBlueskyData_first)
  from bluesky_first_shape [OF first] show
    "snd (extractBlueskyData url) \<noteq> ''''"
    "CHR ''/'' \<notin> set (fst (extractBlueskyData url))"
    "CHR ''/'' \<notin> set (snd (extractBlueskyData url))"
    "\<exists>pre rest. url = pre @ ''https://bsky.app/profile/'' @ fst (extractBlueskyData url)
                            @ ''/post/'' @ snd (extractBlueskyData url) @ rest"
    by (simp_all add: ex)
qed

theorem C8_classifier_total_witness:
  "fst (extractBlueskyData ''https://bsky.app/profile/alice.bsky.social/post/3k4abc'') \<noteq> ''''
   \<and> snd (extractBlueskyData ''https://bsky.app/profile/alice.bsky.social/post/3k4abc'') \<noteq> ''''
   \<and> CHR ''/'' \<notin> set (fst (extractBlueskyData
        ''https://bsky.app/profile/alice.bsky.social/post/3k4abc''))"
proof -
  have ne: "fst (extractBlueskyData ''https://bsky.app/profile/alice.bsky.social/post/3k4abc'')
            \<noteq> ''''"
    by (simp add: extract_post)
  note inst = C8_classifier_total [of sample_lib world_post "''#chan''" "''''"
      "''https://bsky.app/profile/alice.bsky.social/post/3k4abc''" sample_bot]
  from inst [THEN conjunct2, THEN conjunct2, THEN conjunct1, THEN mp, OF ne]
  have "snd (extractBlueskyData ''https://bsky.app/profile/alice.bsky.social/post/3k4abc'')
          \<noteq> ''''"
    and "CHR ''/'' \<notin> set (fst (extractBlueskyData
        ''https://bsky.app/profile/alice.bsky.social/post/3k4abc''))"
    by (rule conjunct1, rule conjunct2 [THEN conjunct1])
  with ne show ?thesis by (intro conjI)
qed


section \<open>Text scanner\<close>

lemma first_alt_Some: "first_alt alts inp = Some (a, r) \<Longrightarrow> a \<in> set alts \<and> inp = a @ r"
proof (induction alts)
  case Nil
  then show ?case by simp
next
  case (Cons b alts)
  then show ?case
    by (cases "strip_prefix b inp") (auto simp: strip_prefix_Some)
qed

lemma fold_alts_nonempty: "a \<in> set (fold_alts c) \<Longrightarrow> a \<noteq> []"
  by (auto simp: fold_alts_def split: option.splits if_splits)

lemma ci_prefix_pre:
  assumes "ci_prefix s inp = Some r"
    and "\<And>c a x. c \<in> set s \<Longrightarrow> a \<in> set (fold_alts c) \<Longrightarrow> x \<in> set a \<Longrightarrow> P x"
  shows "\<exists>pre. inp = pre @ r \<and> (\<forall>x \<in> set pre. P x) \<and> length s \<le> length pre"
  using assms
proof (induction s arbitrary: inp)
  case Nil
  then show ?case by simp
next
  case (Cons c cs)
  from Cons.prems(1) obtain a r1 where fa: "first_alt (fold_alts c) inp = Some (a, r1)"
    and rest: "ci_prefix cs r1 = Some r"
    by (auto split: option.splits)
  from first_alt_Some [OF fa] have a: "a \<in> set (fold_alts c)" and inp: "inp = a @ r1"
    by simp_all
  have Pa: "\<forall>x \<in> set a. P x"
    using Cons.prems(2) [of c a] a by simp
  have ane: "a \<noteq> []" using a by (rule fold_alts_nonempty)
  have "\<exists>pre. r1 = pre @ r \<and> (\<forall>x \<in> set pre. P x) \<and> length cs \<le> length pre"
    by (rule Cons.IH [OF rest]) (rule Cons.prems(2), simp_all)
  then obtain pre where r1: "r1 = pre @ r" and Ppre: "\<forall>x \<in> set pre. P x"
    and len: "length cs \<le> length pre"
    by blast
  have "inp = (a @ pre) @ r" using inp r1 by simp
  moreover have "\<forall>x \<in> set (a @ pre). P x" using Pa Ppre by auto
  moreover have "length (c # cs) \<le> length (a @ pre)"
    using len ane by (cases a) simp_all
  ultimately show ?case by blast
qed

lemma match_lit_fold:
  "(ci_prefix s inp = None \<and> match_lit True s (i, prev, inp) = None)
   \<or> (\<exists>r pv. ci_prefix s inp = Some r \<and> length r \<le> length inp
            \<and> match_lit True s (i, prev, inp) = Some (i + (length inp - length r), pv, r))"
proof (induction s arbitrary: i prev inp)
  case Nil
  show ?case by simp
next
  case (Cons c cs)
  show ?case
  proof (cases "first_alt (fold_alts c) inp")
    case None
    then show ?thesis by simp
  next
    case (Some ar)
    obtain a r1 where ar: "ar = (a, r1)" by (cases ar)
    from first_alt_Some [OF Some [unfolded ar]] have inp: "inp = a @ r1" by simp
    from Cons.IH [of r1 "i + length a" "Some (last a)"] show ?thesis
    proof
      assume "ci_prefix cs r1 = None
              \<and> match_lit True cs (i + length a, Some (last a), r1) = None"
      with Some ar show ?thesis by simp
    next
      assume "\<exists>r pv. ci_prefix cs r1 = Some r \<and> length r \<le> length r1
              \<and> match_lit True cs (i + length a, Some (last a), r1)
                = Some (i + length a + (length r1 - length r), pv, r)"
      then obtain r pv where "ci_prefix cs r1 = Some r" and "length r \<le> length r1"
        and "match_lit True cs (i + length a, Some (last a), r1)
             = Some (i + length a + (length r1 - length r), pv, r)"
        by blast
      with Some ar inp show ?thesis by simp
    qed
  qed
qed

lemma ci_prefix_append:
  "ci_prefix (s @ t) inp
   = (case ci_prefix s inp of None \<Rightarrow> None | Some r \<Rightarrow> ci_prefix t r)"
  by (induction s arbitrary: inp) (simp_all split: option.split)


lemma ci_prefix_length: "ci_prefix s inp = Some r \<Longrightarrow> length r \<le> length inp"
proof -
  assume "ci_prefix s inp = Some r"
  then have "\<exists>pre. inp = pre @ r \<and> (\<forall>x \<in> set pre. True) \<and> length s \<le> length pre"
    by (rule ci_prefix_pre) simp
  then show ?thesis by auto
qed

lemma m_lit_fold:
  assumes "\<And>j pv pv' r. k ((j, pv, r), c) = k ((j, pv', r), c)"
  shows "m (Lit True s) k ((i, prev, inp), c)
         = (case ci_prefix s inp of
              None \<Rightarrow> None
            | Some r \<Rightarrow> k ((i + (length inp - length r), None, r), c))"
  using match_lit_fold [of s inp i prev]
proof
  assume "ci_prefix s inp = None \<and> match_lit True s (i, prev, inp) = None"
  then show ?thesis by (simp del: match_lit.simps)
next
  assume "\<exists>r pv. ci_prefix s inp = Some r \<and> length r \<le> length inp
            \<and> match_lit True s (i, prev, inp) = Some (i + (length inp - length r), pv, r)"
  then obtain r pv where "ci_prefix s inp = Some r"
    and "match_lit True s (i, prev, inp) = Some (i + (length inp - length r), pv, r)"
    by blast
  then show ?thesis
    using assms [of "i + (length inp - length r)" pv r None]
    by (simp del: match_lit.simps)
qed

lemma url_end:
  assumes k0: "\<And>i' pv' inp' c'. k0 ((i', pv', inp'), c') = Some (c'(1 \<mapsto> i'))"
  shows "m (Cap 2 (Alt (Class PerlSpace) EndText)) k0 ((j, pv, r), c)
         = (case r of
              [] \<Rightarrow> Some (c(4 \<mapsto> j, 5 \<mapsto> j, 1 \<mapsto> j))
            | x # xs \<Rightarrow>
                if in_cls PerlSpace x then Some (c(4 \<mapsto> j, 5 \<mapsto> Suc j, 1 \<mapsto> Suc j))
                else None)"
  by (cases r) (simp_all add: k0 del: in_cls.simps)

lemma url_rest:
  assumes k: "\<And>i' pv' inp' c'. k ((i', pv', inp'), c')
      = (case inp' of
           [] \<Rightarrow> Some (c'(3 \<mapsto> i', 4 \<mapsto> i', 5 \<mapsto> i', 1 \<mapsto> i'))
         | x # xs \<Rightarrow>
             if in_cls PerlSpace x
             then Some (c'(3 \<mapsto> i', 4 \<mapsto> i', 5 \<mapsto> Suc i', 1 \<mapsto> Suc i'))
             else None)"
  shows "m (Star Dot False) k ((j, pv, r), c)
         = Some (c(3 \<mapsto> j + length (takeWhile (\<lambda>x. \<not> in_cls PerlSpace x) r),
                   4 \<mapsto> j + length (takeWhile (\<lambda>x. \<not> in_cls PerlSpace x) r),
                   5 \<mapsto> j + length (takeWhile (\<lambda>x. \<not> in_cls PerlSpace x) r)
                        + (if dropWhile (\<lambda>x. \<not> in_cls PerlSpace x) r = [] then 0 else 1),
                   1 \<mapsto> j + length (takeWhile (\<lambda>x. \<not> in_cls PerlSpace x) r)
                        + (if dropWhile (\<lambda>x. \<not> in_cls PerlSpace x) r = [] then 0 else 1)))"
proof -
  let ?P = "\<lambda>x. \<not> in_cls PerlSpace x"
  have blocked: "\<And>i' p' x xs. \<not> in_cls PerlSpace x \<Longrightarrow> k ((i', p', x # xs), c) = None"
    by (simp add: k del: in_cls.simps)
  have stops: "\<And>i' p' x xs. in_cls PerlSpace x \<Longrightarrow> k ((i', p', x # xs), c) \<noteq> None"
    by (simp add: k del: in_cls.simps)
  have cls: "\<And>x. \<not> in_cls PerlSpace x \<Longrightarrow> in_cls Dot x"
    by simp
  obtain pv' where adv: "advance (length (takeWhile ?P r)) (j, pv, r)
      = (j + length (takeWhile ?P r), pv', dropWhile ?P r)"
    using advance_takeWhile [of ?P r j pv] by blast
  have "m (Star Dot False) k ((j, pv, r), c)
        = k (advance (length (takeWhile ?P r)) (j, pv, r), c)"
    by (rule star_lazy_stop [where stop = "in_cls PerlSpace" and k = k and c = c,
          OF blocked stops cls])
  also have "\<dots> = k ((j + length (takeWhile ?P r), pv', dropWhile ?P r), c)"
    unfolding adv ..
  finally have eq: "m (Star Dot False) k ((j, pv, r), c)
        = k ((j + length (takeWhile ?P r), pv', dropWhile ?P r), c)" .
  show ?thesis
  proof (cases "dropWhile ?P r")
    case Nil
    show ?thesis unfolding eq k Nil by (simp del: in_cls.simps)
  next
    case (Cons x xs)
    have "dropWhile ?P r \<noteq> []" unfolding Cons by simp
    then have "\<not> ?P (hd (dropWhile ?P r))" by (rule hd_dropWhile)
    then have "in_cls PerlSpace x" unfolding Cons by (simp del: in_cls.simps)
    then show ?thesis unfolding eq k Cons by (simp del: in_cls.simps)
  qed
qed


lemma ci_prefix_https:
  "ci_prefix ''https://'' inp
   = (case ci_prefix ''http'' inp of
        None \<Rightarrow> None
      | Some r1 \<Rightarrow>
          (case ci_prefix ''s'' r1 of None \<Rightarrow> None | Some r2 \<Rightarrow> ci_prefix ''://'' r2))"
proof -
  have "ci_prefix (''http'' @ ''s'' @ ''://'') inp
        = (case ci_prefix ''http'' inp of
             None \<Rightarrow> None
           | Some r1 \<Rightarrow>
               (case ci_prefix ''s'' r1 of None \<Rightarrow> None | Some r2 \<Rightarrow> ci_prefix ''://'' r2))"
    by (simp only: ci_prefix_append)
  then show ?thesis by (simp del: ci_prefix.simps)
qed

lemma ci_prefix_http:
  "ci_prefix ''http://'' inp
   = (case ci_prefix ''http'' inp of None \<Rightarrow> None | Some r1 \<Rightarrow> ci_prefix ''://'' r1)"
proof -
  have "ci_prefix (''http'' @ ''://'') inp
        = (case ci_prefix ''http'' inp of None \<Rightarrow> None | Some r1 \<Rightarrow> ci_prefix ''://'' r1)"
    by (simp only: ci_prefix_append)
  then show ?thesis by (simp del: ci_prefix.simps)
qed

lemma url_group1:
  assumes k: "\<And>i' pv' inp' c'. k ((i', pv', inp'), c')
      = (case inp' of
           [] \<Rightarrow> Some (c'(3 \<mapsto> i', 4 \<mapsto> i', 5 \<mapsto> i', 1 \<mapsto> i'))
         | x # xs \<Rightarrow>
             if in_cls PerlSpace x
             then Some (c'(3 \<mapsto> i', 4 \<mapsto> i', 5 \<mapsto> Suc i', 1 \<mapsto> Suc i'))
             else None)"
  shows "m (Cat (Lit True ''http'')
            (Cat (Quest (Lit True ''s'')) (Cat (Lit True ''://'') (Star Dot False))))
           k ((i, prev, inp), c)
         = (case url_scheme inp of
              None \<Rightarrow> None
            | Some r \<Rightarrow>
                Some (c(3 \<mapsto> i + (length inp - length r)
                              + length (takeWhile (\<lambda>x. \<not> in_cls PerlSpace x) r),
                        4 \<mapsto> i + (length inp - length r)
                              + length (takeWhile (\<lambda>x. \<not> in_cls PerlSpace x) r),
                        5 \<mapsto> i + (length inp - length r)
                              + length (takeWhile (\<lambda>x. \<not> in_cls PerlSpace x) r)
                              + (if dropWhile (\<lambda>x. \<not> in_cls PerlSpace x) r = [] then 0 else 1),
                        1 \<mapsto> i + (length inp - length r)
                              + length (takeWhile (\<lambda>x. \<not> in_cls PerlSpace x) r)
                              + (if dropWhile (\<lambda>x. \<not> in_cls PerlSpace x) r = [] then 0 else 1))))"
proof -
  let ?P = "\<lambda>x. \<not> in_cls PerlSpace x"
  let ?S = "Star Dot False"
  let ?T = "Cat (Lit True ''://'') ?S"
  let ?Q = "Cat (Quest (Lit True ''s'')) ?T"
  define res where "res j r =
      Some (c(3 \<mapsto> j + length (takeWhile ?P r),
              4 \<mapsto> j + length (takeWhile ?P r),
              5 \<mapsto> j + length (takeWhile ?P r) + (if dropWhile ?P r = [] then 0 else 1),
              1 \<mapsto> j + length (takeWhile ?P r) + (if dropWhile ?P r = [] then 0 else 1)))"
    for j :: nat and r :: string
  have S: "\<And>j pv r. m ?S k ((j, pv, r), c) = res j r"
    unfolding res_def by (rule url_rest [OF k])
  have T: "\<And>j pv r. m ?T k ((j, pv, r), c)
      = (case ci_prefix ''://'' r of
           None \<Rightarrow> None
         | Some r3 \<Rightarrow> res (j + (length r - length r3)) r3)"
  proof -
    fix j pv r
    have "m ?T k ((j, pv, r), c) = m (Lit True ''://'') (m ?S k) ((j, pv, r), c)"
      by (simp only: m.simps(7))
    also have "\<dots> = (case ci_prefix ''://'' r of
           None \<Rightarrow> None
         | Some r3 \<Rightarrow> m ?S k ((j + (length r - length r3), None, r3), c))"
      by (rule m_lit_fold [where k = "m ?S k"]) (simp only: S)
    finally show "m ?T k ((j, pv, r), c)
      = (case ci_prefix ''://'' r of
           None \<Rightarrow> None
         | Some r3 \<Rightarrow> res (j + (length r - length r3)) r3)"
      by (simp only: S)
  qed
  have Q: "\<And>j pv r. m ?Q k ((j, pv, r), c)
      = (case (case ci_prefix ''s'' r of
                 None \<Rightarrow> None
               | Some r2 \<Rightarrow> m ?T k ((j + (length r - length r2), None, r2), c)) of
           Some x \<Rightarrow> Some x
         | None \<Rightarrow> m ?T k ((j, None, r), c))"
  proof -
    fix j pv r
    have "m ?Q k ((j, pv, r), c)
          = (case m (Lit True ''s'') (m ?T k) ((j, pv, r), c) of
               Some x \<Rightarrow> Some x
             | None \<Rightarrow> m ?T k ((j, pv, r), c))"
      by (simp only: m.simps(6,7))
    also have "m (Lit True ''s'') (m ?T k) ((j, pv, r), c)
          = (case ci_prefix ''s'' r of
               None \<Rightarrow> None
             | Some r2 \<Rightarrow> m ?T k ((j + (length r - length r2), None, r2), c))"
      by (rule m_lit_fold [where k = "m ?T k"]) (simp only: T)
    also have "m ?T k ((j, pv, r), c) = m ?T k ((j, None, r), c)"
      by (simp only: T)
    finally show "m ?Q k ((j, pv, r), c)
      = (case (case ci_prefix ''s'' r of
                 None \<Rightarrow> None
               | Some r2 \<Rightarrow> m ?T k ((j + (length r - length r2), None, r2), c)) of
           Some x \<Rightarrow> Some x
         | None \<Rightarrow> m ?T k ((j, None, r), c))" .
  qed
  have H: "m (Cat (Lit True ''http'') ?Q) k ((i, prev, inp), c)
      = (case ci_prefix ''http'' inp of
           None \<Rightarrow> None
         | Some r1 \<Rightarrow> m ?Q k ((i + (length inp - length r1), None, r1), c))"
  proof -
    have "m (Cat (Lit True ''http'') ?Q) k ((i, prev, inp), c)
          = m (Lit True ''http'') (m ?Q k) ((i, prev, inp), c)"
      by (simp only: m.simps(7))
    also have "\<dots> = (case ci_prefix ''http'' inp of
           None \<Rightarrow> None
         | Some r1 \<Rightarrow> m ?Q k ((i + (length inp - length r1), None, r1), c))"
      by (rule m_lit_fold [where k = "m ?Q k"]) (simp only: Q)
    finally show ?thesis .
  qed
  have res_Some: "\<And>j r. res j r \<noteq> None"
    by (simp add: res_def)
  show ?thesis
  proof (cases "ci_prefix ''http'' inp")
    case None
    show ?thesis
      by (simp only: H url_scheme_def ci_prefix_https ci_prefix_http None option.simps)
  next
    case r1: (Some r1)
    have l1: "length r1 \<le> length inp" using r1 by (rule ci_prefix_length)
    have plain: "m ?T k ((i + (length inp - length r1), None, r1), c)
        = (case ci_prefix ''://'' r1 of
             None \<Rightarrow> None
           | Some r3 \<Rightarrow>
               Some (c(3 \<mapsto> i + (length inp - length r3) + length (takeWhile ?P r3),
                       4 \<mapsto> i + (length inp - length r3) + length (takeWhile ?P r3),
                       5 \<mapsto> i + (length inp - length r3) + length (takeWhile ?P r3)
                             + (if dropWhile ?P r3 = [] then 0 else 1),
                       1 \<mapsto> i + (length inp - length r3) + length (takeWhile ?P r3)
                             + (if dropWhile ?P r3 = [] then 0 else 1))))"
    proof (cases "ci_prefix ''://'' r1")
      case None
      show ?thesis by (simp only: T None option.simps)
    next
      case (Some r3)
      have "length r3 \<le> length r1" using Some by (rule ci_prefix_length)
      with l1 have eq: "i + (length inp - length r1) + (length r1 - length r3)
                    = i + (length inp - length r3)"
        by arith
      show ?thesis by (simp only: T Some option.simps res_def eq)
    qed
    show ?thesis
    proof (cases "ci_prefix ''s'' r1")
      case None
      show ?thesis
        by (simp only: H Q url_scheme_def ci_prefix_https ci_prefix_http plain r1 None
            option.simps)
    next
      case r2: (Some r2)
      have l2: "length r2 \<le> length r1" using r2 by (rule ci_prefix_length)
      show ?thesis
      proof (cases "ci_prefix ''://'' r2")
        case None
        have T2: "m ?T k ((i + (length inp - length r1) + (length r1 - length r2), None, r2), c)
                  = None"
          by (simp only: T None option.simps)
        show ?thesis
          by (simp only: H Q url_scheme_def ci_prefix_https ci_prefix_http plain r1 r2 None T2
              option.simps)
      next
        case (Some r3)
        have "length r3 \<le> length r2" using Some by (rule ci_prefix_length)
        with l1 l2 have eq: "i + (length inp - length r1) + (length r1 - length r2)
                         + (length r2 - length r3)
                       = i + (length inp - length r3)"
          by arith
        have T2: "m ?T k ((i + (length inp - length r1) + (length r1 - length r2), None, r2), c)
                  = Some (c(3 \<mapsto> i + (length inp - length r3) + length (takeWhile ?P r3),
                       4 \<mapsto> i + (length inp - length r3) + length (takeWhile ?P r3),
                       5 \<mapsto> i + (length inp - length r3) + length (takeWhile ?P r3)
                             + (if dropWhile ?P r3 = [] then 0 else 1),
                       1 \<mapsto> i + (length inp - length r3) + length (takeWhile ?P r3)
                             + (if dropWhile ?P r3 = [] then 0 else 1)))"
          by (simp only: T Some option.simps res_def eq)
        show ?thesis
          by (simp only: H Q url_scheme_def ci_prefix_https ci_prefix_http r1 r2 Some T2
              option.simps)
      qed
    qed
  qed
qed

lemma folded_h_word: "ci_prefix (CHR ''h'' # cs) inp = Some r \<Longrightarrow> wordAfter inp"
proof -
  assume "ci_prefix (CHR ''h'' # cs) inp = Some r"
  then obtain a r1 where "first_alt (fold_alts CHR ''h'') inp = Some (a, r1)"
    by (auto split: option.splits)
  from first_alt_Some [OF this] have "a \<in> set (fold_alts CHR ''h'')" and "inp = a @ r1"
    by simp_all
  then show ?thesis
    by (auto simp: fold_alts_def lower_upper_def isWordChar_def)
qed

lemma scheme_bytes:
  "c \<in> set ''https://'' \<Longrightarrow> a \<in> set (fold_alts c) \<Longrightarrow> x \<in> set a \<Longrightarrow> \<not> in_cls PerlSpace x"
  by (auto simp: fold_alts_def lower_upper_def)


lemma scheme_bytes_http:
  "c \<in> set ''http://'' \<Longrightarrow> a \<in> set (fold_alts c) \<Longrightarrow> x \<in> set a \<Longrightarrow> \<not> in_cls PerlSpace x"
  by (auto simp: fold_alts_def lower_upper_def)

lemma url_scheme_cases:
  assumes "url_scheme inp = Some r"
  shows "ci_prefix ''https://'' inp = Some r \<or> ci_prefix ''http://'' inp = Some r"
  using assms
  by (simp add: url_scheme_def del: ci_prefix.simps split: option.splits)

lemma url_scheme_shape:
  assumes "url_scheme inp = Some r"
  shows "wordAfter inp"
    and "\<exists>pre. inp = pre @ r \<and> (\<forall>x \<in> set pre. \<not> in_cls PerlSpace x) \<and> 7 \<le> length pre"
proof -
  from url_scheme_cases [OF assms] show "wordAfter inp"
  proof
    assume "ci_prefix ''https://'' inp = Some r"
    then show ?thesis by (rule folded_h_word)
  next
    assume "ci_prefix ''http://'' inp = Some r"
    then show ?thesis by (rule folded_h_word)
  qed
  from url_scheme_cases [OF assms]
  show "\<exists>pre. inp = pre @ r \<and> (\<forall>x \<in> set pre. \<not> in_cls PerlSpace x) \<and> 7 \<le> length pre"
  proof
    assume "ci_prefix ''https://'' inp = Some r"
    then have "\<exists>pre. inp = pre @ r \<and> (\<forall>x \<in> set pre. \<not> in_cls PerlSpace x)
                 \<and> length ''https://'' \<le> length pre"
      by (rule ci_prefix_pre) (erule (2) scheme_bytes)
    then obtain pre where "inp = pre @ r" and "\<forall>x \<in> set pre. \<not> in_cls PerlSpace x"
      and "length ''https://'' \<le> length pre"
      by blast
    moreover from this have "7 \<le> length pre" by simp
    ultimately show ?thesis by blast
  next
    assume "ci_prefix ''http://'' inp = Some r"
    then have "\<exists>pre. inp = pre @ r \<and> (\<forall>x \<in> set pre. \<not> in_cls PerlSpace x)
                 \<and> length ''http://'' \<le> length pre"
      by (rule ci_prefix_pre) (erule (2) scheme_bytes_http)
    then obtain pre where "inp = pre @ r" and "\<forall>x \<in> set pre. \<not> in_cls PerlSpace x"
      and "length ''http://'' \<le> length pre"
      by blast
    moreover from this have "7 \<le> length pre" by simp
    ultimately show ?thesis by blast
  qed
qed

lemma url_at_shape:
  assumes "url_at inp = Some u"
  shows "wordAfter inp" and "7 \<le> length u" and "u = takeWhile (\<lambda>x. \<not> in_cls PerlSpace x) inp"
    and "\<exists>r. url_scheme inp = Some r
            \<and> length u = length inp - length r + length (takeWhile (\<lambda>x. \<not> in_cls PerlSpace x) r)
            \<and> drop (length u) inp = dropWhile (\<lambda>x. \<not> in_cls PerlSpace x) r"
proof -
  let ?P = "\<lambda>x. \<not> in_cls PerlSpace x"
  from assms obtain r where r: "url_scheme inp = Some r" and u: "u = takeWhile ?P inp"
    by (auto simp: url_at_def split: option.splits)
  from url_scheme_shape [OF r] obtain pre where w: "wordAfter inp"
    and inp: "inp = pre @ r" and pre: "\<forall>x \<in> set pre. ?P x" and len: "7 \<le> length pre"
    by blast
  have tw: "takeWhile ?P inp = pre @ takeWhile ?P r"
    unfolding inp using pre by (simp del: in_cls.simps)
  show "wordAfter inp" by (rule w)
  show "7 \<le> length u" unfolding u tw using len by simp
  show "u = takeWhile ?P inp" by (rule u)
  have "length u = length inp - length r + length (takeWhile ?P r)"
    unfolding u tw by (simp add: inp)
  moreover have "drop (length u) inp = dropWhile ?P r"
  proof -
    have "drop (length u) inp = drop (length (takeWhile ?P r)) r"
      unfolding u tw by (simp add: inp)
    also have "\<dots> = dropWhile ?P r"
      by (simp only: dropWhile_eq_drop)
    finally show ?thesis .
  qed
  ultimately show "\<exists>r. url_scheme inp = Some r
            \<and> length u = length inp - length r + length (takeWhile ?P r)
            \<and> drop (length u) inp = dropWhile ?P r"
    using r by blast
qed

lemma match_here_url:
  "match_here urlRe (i, prev, inp)
   = (if wordBefore prev then None
      else (case url_at inp of
              None \<Rightarrow> None
            | Some u \<Rightarrow> Some (url_caps i (length u) (drop (length u) inp = []))))"
proof -
  let ?P = "\<lambda>x. \<not> in_cls PerlSpace x"
  let ?G1 = "Cat (Lit True ''http'')
              (Cat (Quest (Lit True ''s'')) (Cat (Lit True ''://'') (Star Dot False)))"
  let ?G2 = "Cap 2 (Alt (Class PerlSpace) EndText)"
  let ?k0 = "\<lambda>((i', prev', inp'), c'). Some (c'((1::nat) \<mapsto> (i'::nat))) :: caps option"
  let ?k1 = "\<lambda>((i', prev', inp'), c'). m ?G2 ?k0 ((i', prev', inp'), c'((3::nat) \<mapsto> i'))"
  let ?c0 = "[(0::nat) \<mapsto> i, 2 \<mapsto> i]"
  have k0: "\<And>i' pv' inp' c'. ?k0 ((i', pv', inp'), c') = Some (c'(1 \<mapsto> i'))"
    by simp
  have k1: "\<And>i' pv' inp' c'. ?k1 ((i', pv', inp'), c')
      = (case inp' of
           [] \<Rightarrow> Some (c'(3 \<mapsto> i', 4 \<mapsto> i', 5 \<mapsto> i', 1 \<mapsto> i'))
         | x # xs \<Rightarrow>
             if in_cls PerlSpace x
             then Some (c'(3 \<mapsto> i', 4 \<mapsto> i', 5 \<mapsto> Suc i', 1 \<mapsto> Suc i'))
             else None)"
    by (simp only: prod.case url_end [OF k0])
  have start: "match_here urlRe (i, prev, inp)
               = (if wordBefore prev \<noteq> wordAfter inp
                  then m ?G1 ?k1 ((i, prev, inp), ?c0) else None)"
    by (simp add: match_here_def urlRe_def del: match_lit.simps in_cls.simps)
  show ?thesis
  proof (cases "url_at inp")
    case None
    then have sch: "url_scheme inp = None"
      by (simp add: url_at_def split: option.splits)
    have g1: "m ?G1 ?k1 ((i, prev, inp), ?c0) = None"
      by (simp only: url_group1 [where k = ?k1, OF k1] sch option.simps)
    show ?thesis
      unfolding start g1 None option.simps by simp
  next
    case (Some u)
    from url_at_shape [OF Some] obtain r where w: "wordAfter inp"
      and r: "url_scheme inp = Some r"
      and len: "length u = length inp - length r + length (takeWhile ?P r)"
      and rest: "drop (length u) inp = dropWhile ?P r"
      by blast
    have E: "i + (length inp - length r) + length (takeWhile ?P r) = i + length u"
      using len by simp
    have g1: "m ?G1 ?k1 ((i, prev, inp), ?c0)
              = Some (url_caps i (length u) (drop (length u) inp = []))"
      by (simp only: url_group1 [where k = ?k1, OF k1] r option.simps E rest [symmetric]
          url_caps_def)
    show ?thesis
      unfolding start g1 Some option.simps using w by simp
  qed
qed

lemma url_at_Nil: "url_at [] = None"
  by (simp add: url_at_def url_scheme_def fold_alts_def lower_upper_def)

lemma match_here_url_Nil: "match_here urlRe (i, prev, []) = None"
  by (simp add: match_here_url url_at_Nil)

lemma allMatches_url_Nil: "allMatches urlRe (i, prev, []) e0 = []"
  by (subst allMatches.simps) (simp add: match_here_url_Nil del: allMatches.simps)

lemma search_url_caps:
  assumes "search urlRe (i, prev, inp) = Some c"
  shows "\<exists>s e. c 0 = Some s \<and> c 1 = Some e \<and> i \<le> s \<and> s + 7 \<le> e"
proof -
  from search_found [OF assms] obtain pre prev' inp' where "inp = pre @ inp'"
    and mh: "match_here urlRe (i + length pre, prev', inp') = Some c"
    by blast
  then obtain u where at: "url_at inp' = Some u"
    and c: "c = url_caps (i + length pre) (length u) (drop (length u) inp' = [])"
    by (auto simp: match_here_url split: if_splits option.splits)
  from url_at_shape(2) [OF at] have "7 \<le> length u" .
  then show ?thesis
    unfolding c by (simp add: url_caps_def)
qed

lemma allMatches_skip:
  assumes mh: "match_here urlRe (i, prev, x # xs) = None"
  shows "allMatches urlRe (i, prev, x # xs) e0 = allMatches urlRe (Suc i, Some x, xs) e1"
proof -
  have s: "search urlRe (i, prev, x # xs) = search urlRe (Suc i, Some x, xs)"
    using mh by simp
  show ?thesis
  proof (cases "search urlRe (Suc i, Some x, xs)")
    case None
    have "allMatches urlRe (i, prev, x # xs) e0 = []"
      by (subst allMatches.simps) (simp add: s None del: allMatches.simps search.simps)
    moreover have "allMatches urlRe (Suc i, Some x, xs) e1 = []"
      by (subst allMatches.simps) (simp add: None del: allMatches.simps search.simps)
    ultimately show ?thesis by simp
  next
    case (Some c)
    from search_url_caps [OF Some] obtain st e where c0: "c 0 = Some st" and c1: "c 1 = Some e"
      and lo: "Suc i \<le> st" and hi: "st + 7 \<le> e"
      by blast
    have ne: "xs \<noteq> []"
      using Some by (auto simp: match_here_url_Nil)
    have far: "\<not> e \<le> i" "\<not> e \<le> Suc i"
      using lo hi by simp_all
    have "e - i = Suc (e - Suc i)"
      using lo hi by arith
    then have adv: "advance (e - i) (i, prev, x # xs) = advance (e - Suc i) (Suc i, Some x, xs)"
      by simp
    have "allMatches urlRe (i, prev, x # xs) e0
          = c # allMatches urlRe (advance (e - i) (i, prev, x # xs)) (int e)"
      by (subst allMatches.simps)
         (simp add: s Some c0 c1 c1 [unfolded One_nat_def] far
            del: allMatches.simps search.simps)
    moreover have "allMatches urlRe (Suc i, Some x, xs) e1
          = c # allMatches urlRe (advance (e - Suc i) (Suc i, Some x, xs)) (int e)"
      by (subst allMatches.simps)
         (simp add: Some c0 c1 c1 [unfolded One_nat_def] far ne
            del: allMatches.simps search.simps)
    ultimately show ?thesis
      by (simp only: adv)
  qed
qed


lemma group_url:
  assumes tk: "take (length u) inp = u"
  shows "group (pre @ inp) (url_caps (length pre) (length u) b) 1 = u"
  unfolding group_def url_caps_def by (simp add: tk)

lemma allMatches_scan:
  "map (\<lambda>c. group (pre @ inp) c 1) (allMatches urlRe (length pre, prev, inp) e0)
   = scan_urls (\<lambda>p. \<not> wordBefore p) prev inp"
proof (induction "length inp" arbitrary: inp pre prev e0 rule: less_induct)
  case less
  let ?ok = "\<lambda>p. \<not> wordBefore p"
  let ?P = "\<lambda>x. \<not> in_cls PerlSpace x"
  show ?case
  proof (cases inp)
    case Nil
    show ?thesis unfolding Nil by (simp only: allMatches_url_Nil scan_urls.simps list.map)
  next
    case inp: (Cons x xs)
    show ?thesis
    proof (cases "if \<not> wordBefore prev then url_at (x # xs) else None")
      case None
      have mh: "match_here urlRe (length pre, prev, x # xs) = None"
        using None by (simp add: match_here_url split: if_splits)
      have sk: "allMatches urlRe (length pre, prev, x # xs) e0
                = allMatches urlRe (length (pre @ [x]), Some x, xs) e0"
        using allMatches_skip [OF mh, of e0 e0] by simp
      have tx: "pre @ x # xs = (pre @ [x]) @ xs" by simp
      have "map (\<lambda>c. group (pre @ x # xs) c 1) (allMatches urlRe (length pre, prev, x # xs) e0)
            = map (\<lambda>c. group ((pre @ [x]) @ xs) c 1)
                (allMatches urlRe (length (pre @ [x]), Some x, xs) e0)"
        by (simp only: sk tx)
      also have "\<dots> = scan_urls ?ok (Some x) xs"
        by (rule less) (simp add: inp)
      also have "\<dots> = scan_urls ?ok prev (x # xs)"
        by (simp only: scan_urls.simps None option.simps)
      finally show ?thesis unfolding inp .
    next
      case (Some u)
      then have nb: "\<not> wordBefore prev" and at: "url_at (x # xs) = Some u"
        by (simp_all split: if_splits)
      from url_at_shape [OF at] have len7: "7 \<le> length u" and u: "u = takeWhile ?P (x # xs)"
        by blast+
      have tk: "take (length u) (x # xs) = u"
        unfolding u by (rule takeWhile_eq_take [symmetric])
      define e where "e = length pre + length u + (if drop (length u) (x # xs) = [] then 0 else 1)"
      define c where "c = url_caps (length pre) (length u) (drop (length u) (x # xs) = [])"
      have mh: "match_here urlRe (length pre, prev, x # xs) = Some c"
        unfolding c_def using nb at by (simp add: match_here_url)
      have sr: "search urlRe (length pre, prev, x # xs) = Some c"
        using mh by simp
      have c0: "c 0 = Some (length pre)" and c1: "c 1 = Some e"
        and c2: "c 2 = Some (length pre)" and c3: "c 3 = Some (length pre + length u)"
        by (simp_all add: c_def url_caps_def e_def)
      have far: "\<not> e \<le> length pre"
        using len7 by (simp add: e_def)
      have g: "group (pre @ x # xs) c 1 = u"
        unfolding c_def using tk by (rule group_url)
      have am: "allMatches urlRe (length pre, prev, x # xs) e0
                = c # allMatches urlRe (advance (e - length pre) (length pre, prev, x # xs)) (int e)"
        by (subst allMatches.simps)
           (simp add: sr c0 c1 c1 [unfolded One_nat_def] far del: allMatches.simps search.simps)
      have sc: "scan_urls ?ok prev (x # xs)
                = u # (case drop (length u) (x # xs) of
                         [] \<Rightarrow> []
                       | w # ws \<Rightarrow> scan_urls ?ok (Some w) ws)"
        by (simp only: scan_urls.simps Some option.simps)
      show ?thesis
      proof (cases "drop (length u) (x # xs)")
        case Nil
        have full: "x # xs = u @ []"
          using append_take_drop_id [of "length u" "x # xs"] unfolding tk Nil by simp
        have el: "e - length pre = length u"
          by (simp add: e_def Nil)
        have "advance (length u) (length pre, prev, u @ [])
              = (length pre + length u, if u = [] then prev else Some (last u), [])"
          by (rule advance_append)
        then have adv: "advance (e - length pre) (length pre, prev, x # xs)
              = (length pre + length u, if u = [] then prev else Some (last u), [])"
          unfolding el full [symmetric] .
        have tail: "allMatches urlRe (advance (e - length pre) (length pre, prev, x # xs)) (int e)
                    = []"
          unfolding adv by (rule allMatches_url_Nil)
        show ?thesis
          unfolding inp am tail sc Nil by (simp only: list.map g list.simps)
      next
        case dr: (Cons w ws)
        have full: "x # xs = (u @ [w]) @ ws"
          using append_take_drop_id [of "length u" "x # xs"] unfolding tk dr by simp
        have el: "e - length pre = length (u @ [w])"
          by (simp add: e_def dr)
        have "advance (length (u @ [w])) (length pre, prev, (u @ [w]) @ ws)
              = (length pre + length (u @ [w]),
                 if u @ [w] = [] then prev else Some (last (u @ [w])), ws)"
          by (rule advance_append)
        then have adv: "advance (e - length pre) (length pre, prev, x # xs)
              = (length (pre @ u @ [w]), Some w, ws)"
          unfolding el full [symmetric] by simp
        have shorter: "length ws < length inp"
          unfolding inp full by simp
        have tx: "pre @ x # xs = (pre @ u @ [w]) @ ws"
          unfolding full by simp
        have IH: "map (\<lambda>c. group ((pre @ u @ [w]) @ ws) c 1)
                    (allMatches urlRe (length (pre @ u @ [w]), Some w, ws) (int e))
                  = scan_urls ?ok (Some w) ws"
          using shorter by (rule less)
        have "map (\<lambda>c. group (pre @ x # xs) c 1)
                (allMatches urlRe (length pre, prev, x # xs) e0)
              = group (pre @ x # xs) c 1
                # map (\<lambda>c. group ((pre @ u @ [w]) @ ws) c 1)
                    (allMatches urlRe (length (pre @ u @ [w]), Some w, ws) (int e))"
          unfolding am adv by (simp only: list.map tx)
        also have "\<dots> = u # scan_urls ?ok (Some w) ws"
          by (simp only: IH g)
        also have "\<dots> = scan_urls ?ok prev (x # xs)"
          unfolding sc dr by (simp only: list.simps)
        finally show ?thesis unfolding inp .
      qed
    qed
  qed
qed

lemma numSubexp_urlRe: "numSubexp urlRe = 2"
  by (simp add: urlRe_def)

lemma submatches_urlRe: "submatches urlRe s c = [group s c 0, group s c 1, group s c 2]"
  by (simp add: submatches_def numSubexp_urlRe upt_rec numeral_2_eq_2)

lemma findURL_loop_groups:
  "findURL_loop (map (submatches urlRe s) cs) urls = urls @ map (\<lambda>c. group s c 1) cs"
  by (induction cs arbitrary: urls) (simp_all add: submatches_urlRe)

lemma findURL_scan: "findURL s = scan_urls (\<lambda>p. \<not> wordBefore p) None s"
proof -
  have "findURL s = map (\<lambda>c. group s c 1) (allMatches urlRe (0, None, s) (- 1))"
    by (simp add: findURL_def FindAllStringSubmatch_def Let_def findURL_loop_groups
        del: allMatches.simps)
  also have "\<dots> = scan_urls (\<lambda>p. \<not> wordBefore p) None s"
    using allMatches_scan [of "[]" s None "- 1"] by simp
  finally show ?thesis .
qed

lemma url_at_scheme: "url_at inp = None \<longleftrightarrow> url_scheme inp = None"
  by (simp add: url_at_def split: option.split)

lemma scan_no_scheme: "\<not> has_scheme s \<Longrightarrow> scan_urls ok prev s = []"
proof (induction s arbitrary: prev)
  case Nil
  show ?case by simp
next
  case (Cons x xs)
  then have "url_at (x # xs) = None" and "\<not> has_scheme xs"
    by (simp_all add: url_at_scheme)
  then show ?case
    using Cons.IH [of "Some x"] by simp
qed

lemma has_scheme_iff: "has_scheme s \<longleftrightarrow> (\<exists>pre u. s = pre @ u \<and> url_scheme u \<noteq> None)"
proof (induction s)
  case Nil
  have "url_scheme [] = None"
    by (simp add: url_scheme_def fold_alts_def lower_upper_def)
  then show ?case by simp
next
  case (Cons x xs)
  show ?case
  proof
    assume "has_scheme (x # xs)"
    then consider "url_scheme (x # xs) \<noteq> None" | "has_scheme xs" by auto
    then show "\<exists>pre u. x # xs = pre @ u \<and> url_scheme u \<noteq> None"
    proof cases
      case 1
      then have "x # xs = [] @ (x # xs) \<and> url_scheme (x # xs) \<noteq> None" by simp
      then show ?thesis by blast
    next
      case 2
      with Cons.IH obtain pre u where "xs = pre @ u" and "url_scheme u \<noteq> None" by blast
      then have "x # xs = (x # pre) @ u \<and> url_scheme u \<noteq> None" by simp
      then show ?thesis by blast
    qed
  next
    assume "\<exists>pre u. x # xs = pre @ u \<and> url_scheme u \<noteq> None"
    then obtain pre u where eq: "x # xs = pre @ u" and sch: "url_scheme u \<noteq> None" by blast
    show "has_scheme (x # xs)"
    proof (cases pre)
      case Nil
      with eq have "u = x # xs" by simp
      with sch show ?thesis by simp
    next
      case (Cons y ys)
      with eq have "xs = ys @ u" by simp
      with sch Cons.IH have "has_scheme xs" by blast
      then show ?thesis by simp
    qed
  qed
qed

lemma findURL_example:
  "findURL ''check https://a.example/x and https://b.example/y''
   = [''https://a.example/x'', ''https://b.example/y'']"
  by code_simp

lemma findURL_inside_word: "findURL ''xhttp://a.b'' = []"
  by code_simp

lemma specified_inside_word: "urls_as_specified ''xhttp://a.b'' = [''http://a.b'']"
  by code_simp

lemma no_scheme_example: "\<not> has_scheme ''no links here''"
  by code_simp

text \<open>
  Claim C5, as amended.  For every message the text scanner returns, in order and
  without overlap, the URLs that a scan from left to right finds: wherever
  \<open>http://\<close> or \<open>https://\<close>, in any case, stands at the start of the message or right
  after a byte that is not a word character (a letter, a digit or the underscore), the
  text from there up to, and without, the next white space character (tab, line feed,
  form feed, carriage return or space) or up to the end of the message; the scan goes
  on behind that white space character.  The message
  \<open>check https://a.example/x and https://b.example/y\<close> gives exactly
  \<open>https://a.example/x\<close> and \<open>https://b.example/y\<close> in that order, and a message
  that holds no scheme at any position gives the empty list.
\<close>

theorem C5_findURL_scan:
  "findURL s = urls_at_word_boundaries s
   \<and> findURL ''check https://a.example/x and https://b.example/y''
     = [''https://a.example/x'', ''https://b.example/y'']
   \<and> (\<not> has_scheme s \<longrightarrow> findURL s = [])"
proof (intro conjI impI)
  show "findURL s = urls_at_word_boundaries s"
    unfolding urls_at_word_boundaries_def by (rule findURL_scan)
  show "findURL ''check https://a.example/x and https://b.example/y''
     = [''https://a.example/x'', ''https://b.example/y'']"
    by (rule findURL_example)
next
  assume "\<not> has_scheme s"
  then show "findURL s = []"
    unfolding findURL_scan by (rule scan_no_scheme)
qed

theorem C5_findURL_scan_witness:
  "\<not> has_scheme ''no links here'' \<and> findURL ''no links here'' = []"
proof -
  have h: "\<not> has_scheme ''no links here''"
    by (rule no_scheme_example)
  from C5_findURL_scan [of "''no links here''", THEN conjunct2, THEN conjunct2, THEN mp, OF h]
  have "findURL ''no links here'' = []" .
  with h show ?thesis by (intro conjI)
qed

text \<open>
  Claim C5 as stated takes every text that begins with a scheme.  The pattern of the
  program starts with \<^verbatim>\<open>\b\<close>: in \<open>xhttp://a.b\<close> the scheme follows a letter, the scan
  in the words of the claim finds \<open>http://a.b\<close> and the program finds nothing.
\<close>

theorem C5_findURL_counterexample:
  "findURL ''xhttp://a.b'' = [] \<and> urls_as_specified ''xhttp://a.b'' = [''http://a.b'']"
  using findURL_inside_word specified_inside_word by (intro conjI)


end
